theory Spec2Isabelle
  imports Main "HOL-Library.Char_ord" "HOL-Library.List_Lexorder" "HOL-Library.Multiset" "HOL-Library.Sublist"
begin

section \<open>Strings\<close>

text \<open>
  A Python \<open>str\<close> is modelled as a \<open>string\<close>: a list of characters whose code
  points lie below 256.  \<open>str.lower()\<close> on that range maps \<open>A..Z\<close> to \<open>a..z\<close> and
  the Latin-1 capitals U+00C0..U+00DE (without the multiplication sign U+00D7) to the
  character 32 places further; every other character is kept.
\<close>

definition lower_char :: "char \<Rightarrow> char" where
  "lower_char c =
     (let n = (of_char c :: nat)
      in if (65 \<le> n \<and> n \<le> 90) \<or> (192 \<le> n \<and> n \<le> 222 \<and> n \<noteq> 215)
         then char_of (n + 32) else c)"

definition lower :: "string \<Rightarrow> string" where
  "lower s = map lower_char s"

text \<open>The character class \<open>[a-z0-9]\<close> of the regular expression in the normaliser.\<close>

definition is_az09 :: "char \<Rightarrow> bool" where
  "is_az09 c =
     (let n = (of_char c :: nat)
      in (97 \<le> n \<and> n \<le> 122) \<or> (48 \<le> n \<and> n \<le> 57))"

text \<open>
  \<open>re.sub(r"[^a-z0-9]+", "-", s)\<close>: scanning from the left, every maximal run of
  characters outside the class is replaced by one hyphen.
\<close>

function sub_non_az09 :: "string \<Rightarrow> string" where
  "sub_non_az09 [] = []"
| "sub_non_az09 (c # cs) =
     (if is_az09 c then c # sub_non_az09 cs
      else CHR ''-'' # sub_non_az09 (dropWhile (\<lambda>d. \<not> is_az09 d) cs))"
  by pat_completeness auto
termination
  by (relation "measure length") (auto simp: length_dropWhile_le less_Suc_eq_le)

text \<open>\<open>s.strip("-")\<close>: hyphens are removed from both ends.\<close>

definition strip_hyphen :: "string \<Rightarrow> string" where
  "strip_hyphen s =
     rev (dropWhile (\<lambda>c. c = CHR ''-'') (rev (dropWhile (\<lambda>c. c = CHR ''-'') s)))"

text \<open>\<open>AptlyPublisher._normalize_component\<close> (publisher.py, lines 69-74).\<close>

definition normalize_component :: "string \<Rightarrow> string" where
  "normalize_component s = strip_hyphen (sub_non_az09 (lower s))"

text \<open>\<open>norm_component\<close> (scripts/aptly_publish.py, lines 51-54): the same three steps.\<close>

definition norm_component :: "string \<Rightarrow> string" where
  "norm_component s = strip_hyphen (sub_non_az09 (lower s))"

text \<open>
  The shape of a normalised name, used in the proofs: every character is in the class or
  is a hyphen, and a hyphen is never followed by another hyphen.
\<close>

fun hyphen_sep :: "string \<Rightarrow> bool" where
  "hyphen_sep [] = True"
| "hyphen_sep (c # cs) =
     ((is_az09 c \<or> (c = CHR ''-'' \<and> take 1 cs \<noteq> ''-'')) \<and> hyphen_sep cs)"

text \<open>
  The normaliser as the specification words it: the maximal runs of characters of the
  class in the lowercased string, in order, joined by single hyphens.  Every run of
  other characters between two of them thus gives one hyphen, and those at the ends
  give none.
\<close>

function alnum_runs :: "string \<Rightarrow> string list" where
  "alnum_runs [] = []"
| "alnum_runs (c # cs) =
     (if is_az09 c then takeWhile is_az09 (c # cs) # alnum_runs (dropWhile is_az09 cs)
      else alnum_runs cs)"
  by pat_completeness auto
termination
  by (relation "measure length") (auto simp: length_dropWhile_le less_Suc_eq_le)

fun join_hyphen :: "string list \<Rightarrow> string" where
  "join_hyphen [] = []"
| "join_hyphen [w] = w"
| "join_hyphen (w # v # ws) = w @ CHR ''-'' # join_hyphen (v # ws)"

definition spec_normalize :: "string \<Rightarrow> string" where
  "spec_normalize s = join_hyphen (alnum_runs (lower s))"

section \<open>Retention cleaner: pre-release detection\<close>

text \<open>
  The regular expressions of \<open>AptlyCleaner.PRERELEASE_PATTERNS\<close> use literals, the
  digit class, concatenation, alternation and repetition.  \<open>Zero\<close> (no string) only
  arises in derivatives.  The first argument of the matcher is the \<open>re.IGNORECASE\<close>
  flag: with it, a literal matches a character when both have the same lowercase form.
\<close>

datatype rx = Zero | Eps | Chr char | Digit | Cat rx rx | Alt rx rx | Star rx

definition is_digit :: "char \<Rightarrow> bool" where
  "is_digit c = (let n = (of_char c :: nat) in 48 \<le> n \<and> n \<le> 57)"

fun nullable :: "rx \<Rightarrow> bool" where
  "nullable Zero = False"
| "nullable Eps = True"
| "nullable (Chr c) = False"
| "nullable Digit = False"
| "nullable (Cat r s) = (nullable r \<and> nullable s)"
| "nullable (Alt r s) = (nullable r \<or> nullable s)"
| "nullable (Star r) = True"

fun deriv :: "bool \<Rightarrow> char \<Rightarrow> rx \<Rightarrow> rx" where
  "deriv ic x Zero = Zero"
| "deriv ic x Eps = Zero"
| "deriv ic x (Chr c) =
     (if (if ic then lower_char x = lower_char c else x = c) then Eps else Zero)"
| "deriv ic x Digit = (if is_digit x then Eps else Zero)"
| "deriv ic x (Cat r s) =
     (if nullable r then Alt (Cat (deriv ic x r) s) (deriv ic x s)
      else Cat (deriv ic x r) s)"
| "deriv ic x (Alt r s) = Alt (deriv ic x r) (deriv ic x s)"
| "deriv ic x (Star r) = Cat (deriv ic x r) (Star r)"

text \<open>\<open>match_here ic r s\<close>: some prefix of \<open>s\<close> matches \<open>r\<close> (\<open>re.match\<close> as a truth value).\<close>

fun match_here :: "bool \<Rightarrow> rx \<Rightarrow> string \<Rightarrow> bool" where
  "match_here ic r [] = nullable r"
| "match_here ic r (c # cs) = (nullable r \<or> match_here ic (deriv ic c r) cs)"

text \<open>\<open>search ic r s\<close>: the pattern matches at some position of \<open>s\<close> (\<open>re.search\<close>).\<close>

fun search :: "bool \<Rightarrow> rx \<Rightarrow> string \<Rightarrow> bool" where
  "search ic r [] = match_here ic r []"
| "search ic r (c # cs) = (match_here ic r (c # cs) \<or> search ic r cs)"

fun lit :: "string \<Rightarrow> rx" where
  "lit [] = Eps"
| "lit (c # cs) = Cat (Chr c) (lit cs)"

fun rx_times :: "nat \<Rightarrow> rx \<Rightarrow> rx" where
  "rx_times 0 r = Eps"
| "rx_times (Suc n) r = Cat r (rx_times n r)"

definition rx_plus :: "rx \<Rightarrow> rx" where
  "rx_plus r = Cat r (Star r)"

text \<open>\<open>"|".join(patterns)\<close>: the alternation of the patterns, in order.\<close>

fun join_alt :: "rx list \<Rightarrow> rx" where
  "join_alt [] = Eps"
| "join_alt [r] = r"
| "join_alt (r # rs) = Alt r (join_alt rs)"

definition PRERELEASE_PATTERNS :: "rx list" where
  "PRERELEASE_PATTERNS =
     [Cat (lit ''~alpha'') (Star Digit),
      Cat (lit ''~beta'') (Star Digit),
      Cat (lit ''~rc'') (Star Digit),
      Cat (lit ''~pre'') (Star Digit),
      lit ''~dev'',
      Cat (lit ''~git'') (Star Digit),
      Cat (lit ''~svn'') (Star Digit),
      Cat (lit ''~bzr'') (Star Digit),
      Cat (lit ''+git'') (rx_times 8 Digit),
      Cat (lit ''+svn'') (rx_plus Digit),
      Cat (lit ''alpha'') (rx_plus Digit),
      Cat (lit ''beta'') (rx_plus Digit),
      Cat (lit ''rc'') (rx_plus Digit),
      lit ''.0~'']"

definition prerelease_re :: rx where
  "prerelease_re = join_alt PRERELEASE_PATTERNS"

text \<open>
  \<open>AptlyCleaner.is_prerelease\<close> (cleaner.py, lines 199-201); the pattern is compiled
  with \<open>re.IGNORECASE\<close> (line 197).
\<close>

definition is_prerelease_version :: "string \<Rightarrow> bool" where
  "is_prerelease_version v = search True prerelease_re v"

section \<open>Retention cleaner: candidates\<close>

text \<open>
  A \<open>pathlib.Path\<close> is modelled by the list of its components, outermost first.
  \<open>PackageInfo\<close> (cleaner.py, lines 88-109): the fields carry the prefix \<open>pkg_\<close>.
  Two packages are equal in Python when their paths are equal (\<open>__eq__\<close>, \<open>__hash__\<close>).
\<close>

type_synonym path = "string list"

record package_info =
  pkg_name :: string
  pkg_version :: string
  pkg_arch :: string
  pkg_filename :: string
  pkg_path :: path
  pkg_channel :: string
  pkg_component :: string
  pkg_size :: int
  pkg_age_days :: int
  pkg_is_prerelease :: bool

text \<open>
  An entry of \<open>channel_policies\<close> is a dictionary in which each of the three keys may be
  absent.  \<open>RetentionPolicy\<close> (cleaner.py, lines 20-53); the package patterns are
  given as parsed regular expressions.
\<close>

record channel_policy =
  keep_prereleases :: "bool option"
  max_versions :: "int option"
  max_age_days :: "int option"

record retention_policy =
  prerelease_max_age_days :: int
  max_versions_per_package :: int
  channel_policies :: "string \<rightharpoonup> channel_policy"
  protected_components :: "string list"
  protected_packages :: "rx list"

definition default_channel_policies :: "string \<rightharpoonup> channel_policy" where
  "default_channel_policies =
     [''stable'' \<mapsto> \<lparr>keep_prereleases = Some True, max_versions = Some 0, max_age_days = None\<rparr>,
      ''testing'' \<mapsto> \<lparr>keep_prereleases = Some False, max_versions = Some 5, max_age_days = None\<rparr>,
      ''pr'' \<mapsto> \<lparr>keep_prereleases = Some False, max_versions = Some 3, max_age_days = Some 30\<rparr>]"

definition default_policy :: retention_policy where
  "default_policy =
     \<lparr>prerelease_max_age_days = 90, max_versions_per_package = 0,
      channel_policies = default_channel_policies,
      protected_components = [], protected_packages = []\<rparr>"

text \<open>
  The outcome of running \<open>dpkg --compare-versions v1 op v2\<close>: the exit status of the
  installed program, or \<open>FileNotFoundError\<close> when there is no \<open>dpkg\<close>, or another
  exception of \<open>subprocess.run\<close>.
\<close>

datatype dpkg_env = Dpkg "string \<Rightarrow> string \<Rightarrow> string \<Rightarrow> int" | Dpkg_not_found | Dpkg_error

text \<open>
  \<open>DebianVersionCompare.compare\<close> (cleaner.py, lines 115-142); \<open>None\<close> is an
  exception that the function does not catch.
\<close>

fun version_compare :: "dpkg_env \<Rightarrow> string \<Rightarrow> string \<Rightarrow> int option" where
  "version_compare (Dpkg run) v1 v2 =
     Some (if run v1 ''lt'' v2 = 0 then - 1 else if run v1 ''gt'' v2 = 0 then 1 else 0)"
| "version_compare Dpkg_not_found v1 v2 =
     Some (if v1 < v2 then - 1 else if v1 > v2 then 1 else 0)"
| "version_compare Dpkg_error v1 v2 = None"

text \<open>
  \<open>sorted\<close> is stable.  For a comparison that orders the elements consistently its
  result is that of insertion sort; with \<open>reverse=True\<close> the list is reversed before
  and after sorting, so that equal elements keep their order.
\<close>

fun insert_by :: "('a \<Rightarrow> 'a \<Rightarrow> bool) \<Rightarrow> 'a \<Rightarrow> 'a list \<Rightarrow> 'a list" where
  "insert_by lt x [] = [x]"
| "insert_by lt x (y # ys) = (if lt y x then y # insert_by lt x ys else x # y # ys)"

fun stable_sort_by :: "('a \<Rightarrow> 'a \<Rightarrow> bool) \<Rightarrow> 'a list \<Rightarrow> 'a list" where
  "stable_sort_by lt [] = []"
| "stable_sort_by lt (x # xs) = insert_by lt x (stable_sort_by lt xs)"

definition py_sorted :: "('a \<Rightarrow> 'a \<Rightarrow> bool) \<Rightarrow> bool \<Rightarrow> 'a list \<Rightarrow> 'a list" where
  "py_sorted lt reverse xs =
     (if reverse then rev (stable_sort_by lt (rev xs)) else stable_sort_by lt xs)"

text \<open>
  \<open>DebianVersionCompare.sort_versions\<close> (lines 144-149).  The comparison is only
  called on lists of two or more elements.
\<close>

fun sort_versions :: "dpkg_env \<Rightarrow> string list \<Rightarrow> bool \<Rightarrow> string list option" where
  "sort_versions Dpkg_error versions reverse =
     (if 2 \<le> length versions then None else Some versions)"
| "sort_versions env versions reverse =
     Some (py_sorted (\<lambda>a b. case version_compare env a b of
                               Some r \<Rightarrow> r < 0 | None \<Rightarrow> False) reverse versions)"

type_synonym group_key = "string \<times> string \<times> string \<times> string"

definition key_of :: "package_info \<Rightarrow> group_key" where
  "key_of pkg = (pkg_channel pkg, pkg_component pkg, pkg_name pkg, pkg_arch pkg)"

text \<open>
  \<open>package_groups\<close> is a \<open>defaultdict(list)\<close>: its keys are kept in the order of
  their first insertion, and each package is appended to the list of its key.
\<close>

fun group_append ::
  "group_key \<Rightarrow> package_info \<Rightarrow> (group_key \<times> package_info list) list
     \<Rightarrow> (group_key \<times> package_info list) list" where
  "group_append k p [] = [(k, [p])]"
| "group_append k p ((k', g) # rest) =
     (if k' = k then (k', g @ [p]) # rest else (k', g) # group_append k p rest)"

definition package_groups :: "package_info list \<Rightarrow> (group_key \<times> package_info list) list" where
  "package_groups packages = foldl (\<lambda>gs p. group_append (key_of p) p gs) [] packages"

text \<open>\<open>{p.version: p for p in group}\<close>: a later package replaces an earlier one.\<close>

definition version_to_pkg :: "package_info list \<Rightarrow> string \<rightharpoonup> package_info" where
  "version_to_pkg grp = map_of (rev (map (\<lambda>p. (pkg_version p, p)) grp))"

text \<open>Lines 323-332: the group, newest first.\<close>

definition sorted_group :: "dpkg_env \<Rightarrow> package_info list \<Rightarrow> package_info list" where
  "sorted_group env grp =
     (case sort_versions env (map pkg_version grp) True of
        None \<Rightarrow> py_sorted (\<lambda>p q. pkg_version p < pkg_version q) True grp
      | Some sorted_versions \<Rightarrow> List.map_filter (version_to_pkg grp) sorted_versions)"

text \<open>The body of the loop over the groups (lines 295-341).\<close>

definition process_group ::
  "retention_policy \<Rightarrow> dpkg_env \<Rightarrow> package_info list \<times> package_info list
     \<Rightarrow> group_key \<times> package_info list \<Rightarrow> package_info list \<times> package_info list" where
  "process_group policy env acc kg =
     (let (prerelease_candidates, version_limit_candidates) = acc;
          ((channel, component, name, arch), grp) = kg;
          cp = (case channel_policies policy channel of
                  None \<Rightarrow> \<lparr>keep_prereleases = None, max_versions = None, max_age_days = None\<rparr>
                | Some d \<Rightarrow> d);
          keep = (case keep_prereleases cp of None \<Rightarrow> True | Some b \<Rightarrow> b);
          maxv = (case max_versions cp of None \<Rightarrow> max_versions_per_package policy | Some n \<Rightarrow> n);
          max_age = (case max_age_days cp of None \<Rightarrow> prerelease_max_age_days policy | Some n \<Rightarrow> n)
      in if component \<in> set (protected_components policy) then acc
         else if list_ex (\<lambda>pattern. match_here False pattern name) (protected_packages policy)
         then acc
         else
           let pre = prerelease_candidates @
                     (if \<not> keep
                      then filter (\<lambda>pkg. pkg_is_prerelease pkg \<and> pkg_age_days pkg > max_age) grp
                      else []);
               vl = version_limit_candidates @
                    (if maxv > 0 \<and> int (length grp) > maxv
                     then filter (\<lambda>pkg. pkg_path pkg \<notin> set (map pkg_path pre))
                            (drop (nat maxv) (sorted_group env grp))
                     else [])
           in (pre, vl))"

text \<open>
  \<open>AptlyCleaner.find_cleanup_candidates\<close> (lines 268-349) on a given package list:
  the pair (prerelease_candidates, version_limit_candidates).
\<close>

definition find_cleanup_candidates ::
  "retention_policy \<Rightarrow> dpkg_env \<Rightarrow> package_info list \<Rightarrow> package_info list \<times> package_info list" where
  "find_cleanup_candidates policy env packages =
     foldl (process_group policy env) ([], []) (package_groups packages)"

text \<open>
  The order in which the code ranks two versions: the comparison of
  \<open>DebianVersionCompare\<close> where it returns, the string order of line 324 where it
  raises.  \<open>newer env p q\<close>: package \<open>p\<close> ranks strictly above package \<open>q\<close>.
\<close>

definition version_lt :: "dpkg_env \<Rightarrow> string \<Rightarrow> string \<Rightarrow> bool" where
  "version_lt env a b = (case version_compare env a b of Some r \<Rightarrow> r < 0 | None \<Rightarrow> a < b)"

definition newer :: "dpkg_env \<Rightarrow> package_info \<Rightarrow> package_info \<Rightarrow> bool" where
  "newer env p q =
     (version_lt env (pkg_version q) (pkg_version p)
      \<and> \<not> version_lt env (pkg_version p) (pkg_version q))"

text \<open>
  Two notions for the proofs about the groups: the groups of a list have pairwise
  different keys and hold packages of the list with that key; two groups share no path.
\<close>

definition grouped :: "(group_key \<times> package_info list) list \<Rightarrow> package_info set \<Rightarrow> bool" where
  "grouped gs S =
     (distinct (map fst gs)
      \<and> (\<forall>kg\<in>set gs. \<forall>p\<in>set (snd kg). key_of p = fst kg \<and> p \<in> S))"

definition paths_disjoint ::
  "group_key \<times> package_info list \<Rightarrow> group_key \<times> package_info list \<Rightarrow> bool" where
  "paths_disjoint a b = (pkg_path ` set (snd a) \<inter> pkg_path ` set (snd b) = {})"

text \<open>
  The record that \<open>scan_packages\<close> (lines 215-266) builds for the file
  \<open>repo/<dir>/pool/<component>/<letter>/<name>/<name>_<version>_<arch>.deb\<close> found while
  scanning the channel argument \<open>ch\<close>, whose directory is \<open>dir\<close>.
\<close>

definition pool_package ::
  "string \<Rightarrow> string \<Rightarrow> string \<Rightarrow> string \<Rightarrow> string \<Rightarrow> string \<Rightarrow> int \<Rightarrow> bool \<Rightarrow> package_info" where
  "pool_package dir ch cpn nm v ar age pre =
     \<lparr>pkg_name = nm, pkg_version = v, pkg_arch = ar,
      pkg_filename = nm @ ''_'' @ v @ ''_'' @ ar @ ''.deb'',
      pkg_path = [''repo'', dir, ''pool'', cpn, take 1 nm, nm, nm @ ''_'' @ v @ ''_'' @ ar @ ''.deb''],
      pkg_channel = ch, pkg_component = cpn, pkg_size = 1024, pkg_age_days = age,
      pkg_is_prerelease = pre\<rparr>"

section \<open>Retention cleaner: deletion\<close>

text \<open>
  The repository tree: the paths of its files and of its directories.  \<open>Path.parent\<close>
  is \<open>butlast\<close>, and \<open>a in p.parents\<close> says that \<open>a\<close> is a proper prefix of \<open>p\<close>.
  \<open>unlink\<close> raises on a path that is no file of the tree, \<open>iterdir\<close> on a path that is
  no directory; failures of the operating system beyond these are not modelled.
\<close>

record fs =
  files :: "path set"
  dirs :: "path set"

definition has_child :: "fs \<Rightarrow> path \<Rightarrow> bool" where
  "has_child t d = (\<exists>p \<in> files t \<union> dirs t. p \<noteq> [] \<and> butlast p = d)"

text \<open>
  Lines 424-434: starting at the parent of a deleted file, remove directories while they
  lie strictly inside \<open>repo_path\<close> and are empty; stop at the first directory that is not
  empty or cannot be listed.
\<close>

function remove_empty_parents :: "path \<Rightarrow> fs \<Rightarrow> path \<Rightarrow> fs" where
  "remove_empty_parents repo_path t parent =
     (if parent \<noteq> repo_path \<and> strict_prefix repo_path parent
      then (if parent \<in> dirs t
            then (if \<not> has_child t parent
                  then remove_empty_parents repo_path (t\<lparr>dirs := dirs t - {parent}\<rparr>)
                         (butlast parent)
                  else t)
            else t)
      else t)"
  by pat_completeness auto
termination
  by (relation "measure (\<lambda>(repo_path, t, parent). length parent)")
    (auto simp: strict_prefix_def prefix_def)

text \<open>
  The loop of \<open>AptlyCleaner.cleanup\<close> (lines 412-438) over the candidates, on the
  state (tree, deleted, failed).
\<close>

fun cleanup_loop ::
  "path \<Rightarrow> bool \<Rightarrow> package_info list \<Rightarrow> fs \<times> path list \<times> path list
     \<Rightarrow> fs \<times> path list \<times> path list" where
  "cleanup_loop repo_path dry_run [] st = st"
| "cleanup_loop repo_path dry_run (pkg # rest) (t, deleted, failed) =
     (if dry_run
      then cleanup_loop repo_path dry_run rest (t, deleted @ [pkg_path pkg], failed)
      else if pkg_path pkg \<in> files t
      then cleanup_loop repo_path dry_run rest
             (remove_empty_parents repo_path (t\<lparr>files := files t - {pkg_path pkg}\<rparr>)
                (butlast (pkg_path pkg)),
              deleted @ [pkg_path pkg], failed)
      else cleanup_loop repo_path dry_run rest (t, deleted, failed @ [pkg_path pkg]))"

text \<open>
  \<open>list(set(prerelease_candidates + version_limit_candidates))\<close>: packages with equal
  paths are equal, the set keeps the first of them, and the order in which the set is
  listed is left to the hash table: it is the parameter \<open>set_order\<close>.
\<close>

function dedup_by_path :: "package_info list \<Rightarrow> package_info list" where
  "dedup_by_path [] = []"
| "dedup_by_path (p # ps) = p # dedup_by_path (filter (\<lambda>q. pkg_path q \<noteq> pkg_path p) ps)"
  by pat_completeness auto
termination
  by (relation "measure length") (auto simp: less_Suc_eq_le)

record cleanup_result =
  res_dry_run :: bool
  res_deleted :: "path list"
  res_failed :: "path list"
  res_tree :: fs

text \<open>\<open>AptlyCleaner.cleanup\<close> (lines 390-446); \<open>res_tree\<close> is the tree it leaves.\<close>

definition cleanup ::
  "(package_info list \<Rightarrow> package_info list) \<Rightarrow> path \<Rightarrow> fs
     \<Rightarrow> package_info list \<Rightarrow> package_info list \<Rightarrow> bool \<Rightarrow> cleanup_result" where
  "cleanup set_order repo_path t prerelease_candidates version_limit_candidates dry_run =
     (let all_candidates =
            set_order (dedup_by_path (prerelease_candidates @ version_limit_candidates));
          (t', deleted, failed) = cleanup_loop repo_path dry_run all_candidates (t, [], [])
      in \<lparr>res_dry_run = dry_run, res_deleted = deleted, res_failed = failed, res_tree = t'\<rparr>)"

text \<open>
  The value of \<open>dry_run\<close> when none is given: the default of the parameter of
  \<open>cleanup\<close> (cleaner.py, line 394) and of the destination \<open>dry_run\<close> of the cleanup
  parser (cli.py, lines 493-497).  How the command line is read into that destination
  is the argument parser's and is not modelled.
\<close>

definition dry_run_default :: bool where
  "dry_run_default = True"

text \<open>
  A tree is well formed below \<open>repo_path\<close> when every directory between \<open>repo_path\<close>
  and one of its files or directories is a directory of the tree.
\<close>

definition wf_tree :: "path \<Rightarrow> fs \<Rightarrow> bool" where
  "wf_tree repo_path t =
     (\<forall>p \<in> files t \<union> dirs t. \<forall>d \<in> set (prefixes p).
        strict_prefix repo_path d \<and> d \<noteq> p \<longrightarrow> d \<in> dirs t)"

text \<open>
  \<open>tidy repo_path t D\<close>: no directory strictly inside \<open>repo_path\<close> that lies above a
  path of \<open>D\<close> is empty.
\<close>

definition tidy :: "path \<Rightarrow> fs \<Rightarrow> path set \<Rightarrow> bool" where
  "tidy repo_path t D =
     (\<forall>d \<in> dirs t. strict_prefix repo_path d \<and> (\<exists>p \<in> D. strict_prefix d p) \<longrightarrow> has_child t d)"

text \<open>
  A small repository used in the examples: two versions of \<open>foo\<close> and one of \<open>bar\<close> in the
  pool of the component \<open>main\<close> of the channel \<open>pr\<close>, and the marker file.
\<close>

definition example_tree :: fs where
  "example_tree =
     \<lparr>files = {[''repo'', ''.nojekyll''],
        [''repo'', ''pr'', ''pool'', ''main'', ''f'', ''foo'', ''foo_1.0_amd64.deb''],
        [''repo'', ''pr'', ''pool'', ''main'', ''f'', ''foo'', ''foo_1.1_amd64.deb''],
        [''repo'', ''pr'', ''pool'', ''main'', ''b'', ''bar'', ''bar_0.9~rc1_amd64.deb'']},
      dirs = {[''repo''], [''repo'', ''pr''], [''repo'', ''pr'', ''pool''],
        [''repo'', ''pr'', ''pool'', ''main''],
        [''repo'', ''pr'', ''pool'', ''main'', ''f''],
        [''repo'', ''pr'', ''pool'', ''main'', ''f'', ''foo''],
        [''repo'', ''pr'', ''pool'', ''main'', ''b''],
        [''repo'', ''pr'', ''pool'', ''main'', ''b'', ''bar'']}\<rparr>"

section \<open>Publisher: commands, state and outcomes\<close>

text \<open>
  An external command is its argument vector; it runs in an optional working directory.
  The environment of a run is a record of functions on an abstract world \<open>'w\<close>:
  \<open>exec\<close> is \<open>subprocess.run\<close> (the return code and the world afterwards), the other
  fields are the file operations the publisher uses.  File paths are strings here,
  joined with a slash.
\<close>

type_synonym cmd = "string list"

record 'w sys =
  exec :: "string option \<Rightarrow> cmd \<Rightarrow> 'w \<Rightarrow> int \<times> 'w"
  path_exists :: "string \<Rightarrow> 'w \<Rightarrow> bool"
  is_dir :: "string \<Rightarrow> 'w \<Rightarrow> bool"
  read_text :: "string \<Rightarrow> 'w \<Rightarrow> string"
  glob_debs :: "string \<Rightarrow> 'w \<Rightarrow> string list"
  write_text :: "string \<Rightarrow> string \<Rightarrow> 'w \<Rightarrow> 'w"
  mkdir :: "string \<Rightarrow> 'w \<Rightarrow> 'w"

datatype level = DEBUG | INFO | WARNING | ERROR

text \<open>
  The state of a run: the world, the commands run so far with their working directories,
  and the log records (level and format string).
\<close>

record 'w st =
  world :: 'w
  trace :: "(string option \<times> cmd) list"
  logs :: "(level \<times> string) list"

text \<open>
  A step returns a value, or ends the run with \<open>sys.exit(n)\<close>, or raises
  \<open>CalledProcessError\<close> (a command run with \<open>check=True\<close> returned nonzero).
\<close>

datatype ('a, 'w) outcome = Done 'a "'w st" | Exit int "'w st" | Raised "'w st"

definition bind ::
  "('w st \<Rightarrow> ('a, 'w) outcome) \<Rightarrow> ('a \<Rightarrow> 'w st \<Rightarrow> ('b, 'w) outcome) \<Rightarrow> 'w st \<Rightarrow> ('b, 'w) outcome" where
  "bind m f s = (case m s of Done a s' \<Rightarrow> f a s' | Exit n s' \<Rightarrow> Exit n s' | Raised s' \<Rightarrow> Raised s')"

definition seq ::
  "('w st \<Rightarrow> ('a, 'w) outcome) \<Rightarrow> ('w st \<Rightarrow> ('b, 'w) outcome) \<Rightarrow> 'w st \<Rightarrow> ('b, 'w) outcome" where
  "seq m k = bind m (\<lambda>_. k)"

definition return :: "'a \<Rightarrow> 'w st \<Rightarrow> ('a, 'w) outcome" where
  "return a s = Done a s"

definition sys_exit :: "int \<Rightarrow> 'w st \<Rightarrow> ('a, 'w) outcome" where
  "sys_exit n s = Exit n s"

definition logger :: "level \<Rightarrow> string \<Rightarrow> 'w st \<Rightarrow> (unit, 'w) outcome" where
  "logger lvl msg s = Done () (s\<lparr>logs := logs s @ [(lvl, msg)]\<rparr>)"

definition final_state :: "('a, 'w) outcome \<Rightarrow> 'w st" where
  "final_state r = (case r of Done a s \<Rightarrow> s | Exit n s \<Rightarrow> s | Raised s \<Rightarrow> s)"

text \<open>\<open>AptlyPublisher._run\<close> (publisher.py, lines 76-93) and \<open>run\<close> of the script.\<close>

definition run ::
  "'w sys \<Rightarrow> string option \<Rightarrow> cmd \<Rightarrow> bool \<Rightarrow> 'w st \<Rightarrow> (int, 'w) outcome" where
  "run sy cwd c check s =
     (let (rc, w) = exec sy cwd c (world s);
          s' = s\<lparr>world := w, trace := trace s @ [(cwd, c)], logs := logs s @ [(DEBUG, ''RUN%s: %s'')]\<rparr>
      in if check \<and> rc \<noteq> 0 then Raised s' else Done rc s')"

text \<open>
  \<open>_ensure_cmd\<close> (lines 95-101); the tool names are plain words, which
  \<open>shlex.quote\<close> leaves as they are.
\<close>

definition ensure_cmd :: "'w sys \<Rightarrow> string \<Rightarrow> 'w st \<Rightarrow> (unit, 'w) outcome" where
  "ensure_cmd sy name s =
     (case run sy None [''bash'', ''-lc'', ''command -v '' @ name] True s of
        Done rc s' \<Rightarrow> Done () s'
      | Exit n s' \<Rightarrow> Exit n s'
      | Raised s' \<Rightarrow>
          seq (logger ERROR ''Missing required command on PATH: %s'') (sys_exit 1) s')"

text \<open>Python's truth value of an optional string: \<open>None\<close> and the empty string are false.\<close>

definition truthy :: "string option \<Rightarrow> bool" where
  "truthy x = (case x of None \<Rightarrow> False | Some v \<Rightarrow> v \<noteq> [])"

definition pjoin :: "string \<Rightarrow> string \<Rightarrow> string" where
  "pjoin p q = p @ ''/'' @ q"

text \<open>
  The fields of \<open>AptlyPublisher\<close> that \<open>publish\<close> reads (lines 50-60); \<open>component\<close>
  holds the normalised name.  The working directories and the configuration file are
  those that lines 128-176 provide.
\<close>

record config =
  component :: string
  distro :: string
  channel :: string
  pages_repo :: string
  branch :: string
  sign :: bool
  keyid :: "string option"
  passphrase :: "string option"

record workspace =
  pages :: string
  aptly_cfg :: string
  aptly_home :: string

definition AptlyPublisher ::
  "string \<Rightarrow> string \<Rightarrow> string \<Rightarrow> string \<Rightarrow> string \<Rightarrow> bool \<Rightarrow> string option \<Rightarrow> string option \<Rightarrow> config" where
  "AptlyPublisher cpn dis ch repo br sg kid pw =
     \<lparr>component = normalize_component cpn, distro = dis, channel = ch, pages_repo = repo,
      branch = br, sign = sg, keyid = kid, passphrase = pw\<rparr>"

definition aptly_public :: "workspace \<Rightarrow> string" where
  "aptly_public ws = pjoin (aptly_home ws) ''public''"

definition aptly_run :: "'w sys \<Rightarrow> workspace \<Rightarrow> cmd \<Rightarrow> bool \<Rightarrow> 'w st \<Rightarrow> (int, 'w) outcome" where
  "aptly_run sy ws args check = run sy None ([''aptly'', ''-config='' @ aptly_cfg ws] @ args) check"

section \<open>Publisher: the library's publish\<close>

text \<open>String helpers: \<open>str.split(sep)\<close>, \<open>str.strip()\<close> and \<open>str.split()\<close>.\<close>

fun split_where :: "(char \<Rightarrow> bool) \<Rightarrow> string \<Rightarrow> string list" where
  "split_where P [] = [[]]"
| "split_where P (x # xs) =
     (if P x then [] # split_where P xs
      else (case split_where P xs of w # ws \<Rightarrow> (x # w) # ws | [] \<Rightarrow> [[x]]))"

definition is_space :: "char \<Rightarrow> bool" where
  "is_space c = (of_char c \<in> {9, 10, 11, 12, 13, 28, 29, 30, 31, 32, 133, 160 :: nat})"

definition strip_ws :: "string \<Rightarrow> string" where
  "strip_ws s = rev (dropWhile is_space (rev (dropWhile is_space s)))"

definition split_ws :: "string \<Rightarrow> string list" where
  "split_ws s = filter (\<lambda>w. w \<noteq> []) (split_where is_space s)"

text \<open>
  Lines 279-285: the components of the first line of the release index that starts with
  \<open>Components:\<close>; the empty list when there is no such line.
\<close>

definition parse_components :: "string \<Rightarrow> string list" where
  "parse_components content =
     (case filter (prefix ''Components:'') (split_where (\<lambda>c. c = CHR 0x0A) content) of
        [] \<Rightarrow> []
      | line # _ \<Rightarrow>
          map strip_ws
            (split_ws (strip_ws (drop (Suc (length (takeWhile (\<lambda>c. c \<noteq> CHR '':'') line))) line))))"

text \<open>Lines 110-117.\<close>

definition validate_tools :: "'w sys \<Rightarrow> config \<Rightarrow> 'w st \<Rightarrow> (unit, 'w) outcome" where
  "validate_tools sy cfg =
     seq (ensure_cmd sy ''git'')
    (seq (ensure_cmd sy ''rsync'')
    (seq (ensure_cmd sy ''aptly'')
     (if sign cfg
      then (if \<not> truthy (keyid cfg)
            then seq (logger ERROR ''--keyid is required with --sign'') (sys_exit 1)
            else ensure_cmd sy ''gpg'')
      else return ())))"

text \<open>Lines 178-185.\<close>

definition clone_pages :: "'w sys \<Rightarrow> config \<Rightarrow> workspace \<Rightarrow> 'w st \<Rightarrow> (unit, 'w) outcome" where
  "clone_pages sy cfg ws =
     seq (logger INFO ''Cloning %s (%s) ...'')
    (bind (run sy None [''git'', ''clone'', ''-b'', branch cfg, pages_repo cfg, pages ws] False)
       (\<lambda>rc. if rc \<noteq> 0
          then seq (run sy None [''git'', ''clone'', pages_repo cfg, pages ws] True)
              (seq (run sy (Some (pages ws)) [''git'', ''checkout'', ''--orphan'', branch cfg] True)
              (seq (run sy (Some (pages ws)) [''git'', ''rm'', ''-rf'', ''.''] False)
                   (return ())))
          else return ()))"

text \<open>Lines 200-216: seeding the public root and recovering the database.\<close>

definition inrelease_path :: "config \<Rightarrow> workspace \<Rightarrow> string" where
  "inrelease_path cfg ws =
     pjoin (pjoin (pjoin (pjoin (aptly_public ws) (channel cfg)) ''dists'') (distro cfg)) ''InRelease''"

definition seed_and_recover :: "'w sys \<Rightarrow> config \<Rightarrow> workspace \<Rightarrow> 'w st \<Rightarrow> (unit, 'w) outcome" where
  "seed_and_recover sy cfg ws =
     seq (logger INFO ''Aptly cfg : %s'')
    (seq (logger INFO ''Aptly root: %s'')
    (seq (\<lambda>s. Done () (s\<lparr>world := mkdir sy (aptly_public ws) (world s)\<rparr>))
    (seq (run sy None [''rsync'', ''-a'', pages ws @ ''/'', aptly_public ws @ ''/''] True)
     (\<lambda>s. if path_exists sy (inrelease_path cfg ws) (world s)
          then seq (logger INFO ''Recovering aptly database from existing publication...'')
              (bind (aptly_run sy ws [''db'', ''recover''] False)
                 (\<lambda>rc. if rc = 0
                    then logger INFO ''Successfully recovered aptly database''
                    else logger WARNING ''Could not recover aptly database (may be first publish)'')) s
          else return () s))))"

text \<open>Lines 218-240: the staging repository and the snapshot.\<close>

definition repo_name :: "config \<Rightarrow> string" where
  "repo_name cfg = component cfg @ ''-'' @ distro cfg @ ''-'' @ channel cfg"

definition snapshot_name :: "config \<Rightarrow> string \<Rightarrow> string" where
  "snapshot_name cfg ts = repo_name cfg @ ''-'' @ ts"

definition stage_and_snapshot ::
  "'w sys \<Rightarrow> config \<Rightarrow> workspace \<Rightarrow> string option \<Rightarrow> string \<Rightarrow> 'w st \<Rightarrow> (unit, 'w) outcome" where
  "stage_and_snapshot sy cfg ws debs_dir ts =
     seq (logger INFO ''Staging repo: %s'')
    (seq (aptly_run sy ws [''repo'', ''create'', ''-component='' @ component cfg,
            ''-distribution='' @ distro cfg, repo_name cfg] False)
    (seq (if truthy debs_dir
          then (\<lambda>s. if \<not> is_dir sy (the debs_dir) (world s)
                 then seq (logger ERROR ''--debs path does not exist or is not a directory: %s'')
                        (sys_exit 1) s
                 else (let debs = sort (glob_debs sy (the debs_dir) (world s))
                       in if debs = []
                          then seq (logger ERROR ''No .deb files found in %s'') (sys_exit 1) s
                          else seq (logger INFO ''Adding %d package(s) ...'')
                                 (seq (aptly_run sy ws ([''repo'', ''add'', repo_name cfg] @ debs) True)
                                      (return ())) s))
          else logger INFO ''No --debs provided: creating an EMPTY snapshot (bootstrap).'')
     (seq (aptly_run sy ws [''snapshot'', ''create'', snapshot_name cfg ts, ''from'', ''repo'',
             repo_name cfg] True)
          (return ()))))"

text \<open>Lines 243-250: the signing options.\<close>

definition sign_opts :: "config \<Rightarrow> string list" where
  "sign_opts cfg =
     (if sign cfg
      then [''-gpg-key'', the (keyid cfg)] @
           (if truthy (passphrase cfg) then [''-passphrase'', the (passphrase cfg)] else [])
      else [''-skip-signing''])"

text \<open>
  Lines 252-285: whether the publication of (channel, distribution) exists, and its
  components.  The result is the pair (our_publication_exists, existing_components).
\<close>

definition inspect ::
  "'w sys \<Rightarrow> config \<Rightarrow> workspace \<Rightarrow> 'w st \<Rightarrow> (bool \<times> string list, 'w) outcome" where
  "inspect sy cfg ws =
     bind (aptly_run sy ws [''publish'', ''list'', ''-raw''] False)
       (\<lambda>list_rc.
     seq (if list_rc = 0
          then seq (aptly_run sy ws [''publish'', ''list''] False) (return ())
          else return ())
    (bind (aptly_run sy ws [''publish'', ''show'', distro cfg, channel cfg] False)
       (\<lambda>show_rc.
          if show_rc = 0
          then seq (logger INFO ''Publication %s/%s exists'')
                 (\<lambda>s. if path_exists sy (inrelease_path cfg ws) (world s)
                      then (if filter (prefix ''Components:'')
                                 (split_where (\<lambda>c. c = CHR 0x0A)
                                    (read_text sy (inrelease_path cfg ws) (world s))) \<noteq> []
                            then seq (logger INFO ''Existing components: %s'')
                                   (return (True, parse_components
                                      (read_text sy (inrelease_path cfg ws) (world s)))) s
                            else return (True, []) s)
                      else return (True, []) s)
          else return (False, []))))"

text \<open>
  Lines 287-326: the decision and the transition.  (The quotation marks around the
  component name are left out of the log messages.)
\<close>

definition reconcile ::
  "'w sys \<Rightarrow> config \<Rightarrow> workspace \<Rightarrow> string \<Rightarrow> bool \<Rightarrow> string list \<Rightarrow> 'w st \<Rightarrow> (unit, 'w) outcome" where
  "reconcile sy cfg ws snap our_publication_exists existing_components =
     (if our_publication_exists
      then (if component cfg \<in> set existing_components
            then seq (logger INFO ''Updating existing component %s in %s/%s ...'')
                (bind (aptly_run sy ws
                         ([''publish'', ''switch''] @
                          ([''-component'', component cfg, ''-force-overwrite''] @ sign_opts cfg) @
                          [distro cfg, channel cfg, snap]) False)
                   (\<lambda>rc. if rc \<noteq> 0
                      then seq (logger ERROR ''Failed to switch/update component %s'') (sys_exit 1)
                      else logger INFO ''Successfully updated component %s''))
            else seq (logger INFO ''Adding new component %s to %s/%s ...'')
                (bind (aptly_run sy ws
                         [''publish'', ''add'', distro cfg, channel cfg, snap, component cfg] False)
                   (\<lambda>rc. if rc \<noteq> 0
                      then seq (logger ERROR ''Failed to add component %s'') (sys_exit 1)
                      else seq (logger INFO ''Successfully added component %s'')
                          (seq (logger INFO ''Updating publication metadata to include new component...'')
                          (bind (aptly_run sy ws
                                   ([''publish'', ''update''] @ sign_opts cfg @
                                    [distro cfg, channel cfg]) False)
                             (\<lambda>rc'. if rc' \<noteq> 0
                                then logger WARNING ''Failed to update publication metadata (exit=%s)''
                                else logger INFO ''Successfully updated publication metadata''))))))
      else seq (logger INFO ''Creating first-time publication %s/%s ...'')
          (seq (aptly_run sy ws
                  ([''publish'', ''snapshot''] @
                   ([''-distribution'', distro cfg, ''-component'', component cfg,
                     ''-force-overwrite''] @ sign_opts cfg) @
                   [snap, channel cfg]) True)
               (logger INFO ''Successfully created publication %s/%s'')))"

text \<open>Lines 328-343: sync back, commit and push.\<close>

definition sync_and_push ::
  "'w sys \<Rightarrow> config \<Rightarrow> workspace \<Rightarrow> string \<Rightarrow> 'w st \<Rightarrow> (unit, 'w) outcome" where
  "sync_and_push sy cfg ws commit_ts =
     seq (run sy None [''rsync'', ''-a'', ''--delete'', aptly_public ws @ ''/'', pages ws @ ''/''] True)
    (seq (\<lambda>s. Done () (s\<lparr>world := write_text sy (pjoin (pages ws) ''.nojekyll'') [] (world s)\<rparr>))
    (seq (run sy (Some (pages ws)) [''git'', ''add'', ''-A''] True)
    (seq (run sy (Some (pages ws))
            [''git'', ''commit'', ''-m'',
             ''Publish '' @ component cfg @ '' ('' @ distro cfg @ ''/'' @ channel cfg @ '') '' @ commit_ts]
            False)
    (seq (run sy (Some (pages ws)) [''git'', ''push'', ''origin'', branch cfg] True)
         (logger INFO ''Done. Browse: https://feelpp.github.io/apt/%s/dists/%s/'')))))"

text \<open>
  \<open>AptlyPublisher.publish\<close> (lines 103-343), from the validation of the tools on; \<open>ts\<close>
  and \<open>commit_ts\<close> are the two readings of the clock.
\<close>

definition finish ::
  "'w sys \<Rightarrow> config \<Rightarrow> workspace \<Rightarrow> string \<Rightarrow> string \<Rightarrow> bool \<times> string list
     \<Rightarrow> 'w st \<Rightarrow> (unit, 'w) outcome" where
  "finish sy cfg ws ts commit_ts insp =
     seq (reconcile sy cfg ws (snapshot_name cfg ts) (fst insp) (snd insp))
         (sync_and_push sy cfg ws commit_ts)"

definition publish ::
  "'w sys \<Rightarrow> config \<Rightarrow> workspace \<Rightarrow> string option \<Rightarrow> string \<Rightarrow> string
     \<Rightarrow> 'w st \<Rightarrow> (unit, 'w) outcome" where
  "publish sy cfg ws debs_dir ts commit_ts =
     seq (validate_tools sy cfg)
    (seq (logger INFO ''Component : %s'')
    (seq (logger INFO ''Distro    : %s'')
    (seq (logger INFO ''Channel   : %s'')
    (seq (logger INFO ''Repo      : %s (#%s)'')
    (seq (logger INFO ''Signing   : %s'')
    (seq (clone_pages sy cfg ws)
    (seq (seed_and_recover sy cfg ws)
    (seq (stage_and_snapshot sy cfg ws debs_dir ts)
    (bind (inspect sy cfg ws)
          (finish sy cfg ws ts commit_ts))))))))))"

section \<open>Publisher: the script\<close>

text \<open>
  \<open>main\<close> of scripts/aptly_publish.py.  Its checks of the tools, its clone, its staging
  repository and snapshot and its final sync, commit and push (lines 85-98, 149-156,
  180-200, 249-261) are, line by line, those of the library; the functions above stand
  for them.  The component is normalised by \<open>norm_component\<close> (line 78).
\<close>

definition script_config ::
  "string \<Rightarrow> string \<Rightarrow> string \<Rightarrow> string \<Rightarrow> string \<Rightarrow> bool \<Rightarrow> string option \<Rightarrow> string option \<Rightarrow> config" where
  "script_config cpn dis ch repo br sg kid pw =
     \<lparr>component = norm_component cpn, distro = dis, channel = ch, pages_repo = repo,
      branch = br, sign = sg, keyid = kid, passphrase = pw\<rparr>"

text \<open>Lines 174-178: the public root is seeded; the database is not recovered.\<close>

definition script_seed :: "'w sys \<Rightarrow> config \<Rightarrow> workspace \<Rightarrow> 'w st \<Rightarrow> (unit, 'w) outcome" where
  "script_seed sy cfg ws =
     seq (logger INFO ''Aptly cfg : %s'')
    (seq (logger INFO ''Aptly root: %s'')
    (seq (\<lambda>s. Done () (s\<lparr>world := mkdir sy (aptly_public ws) (world s)\<rparr>))
    (seq (run sy None [''rsync'', ''-a'', pages ws @ ''/'', aptly_public ws @ ''/''] True)
         (return ()))))"

text \<open>Lines 203-216 and 240-246: the option lists.\<close>

definition script_sign_opts :: "config \<Rightarrow> string list" where
  "script_sign_opts cfg =
     (if sign cfg
      then [''-gpg-key'', the (keyid cfg)] @
           (if truthy (passphrase cfg) then [''-passphrase'', the (passphrase cfg)] else [])
      else [''-skip-signing''])"

definition snapshot_opts :: "config \<Rightarrow> string list" where
  "snapshot_opts cfg =
     [''-distribution'', distro cfg, ''-component'', component cfg] @ script_sign_opts cfg"

definition add_opts :: "config \<Rightarrow> string list" where
  "add_opts cfg = [''-prefix='' @ channel cfg, ''-component'', component cfg]"

definition switch_opts :: "config \<Rightarrow> string list" where
  "switch_opts cfg = [''-component'', component cfg] @ script_sign_opts cfg"

definition replace_opts :: "config \<Rightarrow> string list" where
  "replace_opts cfg = [''-prefix='' @ channel cfg, ''-component'', component cfg]"

definition update_opts :: "config \<Rightarrow> string list" where
  "update_opts cfg =
     (if \<not> sign cfg then [''-skip-signing'']
      else if truthy (keyid cfg)
      then [''-gpg-key'', the (keyid cfg)] @
           (if truthy (passphrase cfg) then [''-passphrase'', the (passphrase cfg)] else [])
      else [])"

text \<open>Lines 218-221: the two tests on the seeded public root.\<close>

definition target_dists :: "config \<Rightarrow> workspace \<Rightarrow> string" where
  "target_dists cfg ws = pjoin (pjoin (pjoin (aptly_public ws) (channel cfg)) ''dists'') (distro cfg)"

definition component_root :: "config \<Rightarrow> workspace \<Rightarrow> string" where
  "component_root cfg ws = pjoin (target_dists cfg ws) (component cfg)"

text \<open>Lines 223-247: the decision and the transition.\<close>

definition script_reconcile ::
  "'w sys \<Rightarrow> config \<Rightarrow> workspace \<Rightarrow> string \<Rightarrow> bool \<Rightarrow> bool \<Rightarrow> 'w st \<Rightarrow> (unit, 'w) outcome" where
  "script_reconcile sy cfg ws snap first_publish component_exists =
     (if first_publish
      then seq (logger INFO ''First-time publish %s/%s ...'')
          (seq (aptly_run sy ws
                  ([''publish'', ''snapshot''] @ snapshot_opts cfg @ [snap, channel cfg]) True)
               (return ()))
      else if component_exists
      then seq (logger INFO ''Updating existing component via publish switch ...'')
          (seq (aptly_run sy ws
                  ([''publish'', ''switch''] @ switch_opts cfg @ [distro cfg, channel cfg, snap]) True)
               (return ()))
      else seq (logger INFO ''Adding/updating component %s to existing publication ...'')
          (bind (aptly_run sy ws
                   ([''publish'', ''source'', ''add''] @ add_opts cfg @ [distro cfg, snap]) False)
             (\<lambda>rc.
           seq (if rc \<noteq> 0
                then seq (logger INFO ''Component already staged, replacing instead ...'')
                    (seq (aptly_run sy ws
                            ([''publish'', ''source'', ''replace''] @ replace_opts cfg @
                             [distro cfg, snap]) True)
                         (return ()))
                else return ())
          (seq (aptly_run sy ws
                  ([''publish'', ''update''] @ update_opts cfg @ [distro cfg, channel cfg]) True)
               (return ())))))"

definition script_finish ::
  "'w sys \<Rightarrow> config \<Rightarrow> workspace \<Rightarrow> string \<Rightarrow> string \<Rightarrow> 'w st \<Rightarrow> (unit, 'w) outcome" where
  "script_finish sy cfg ws ts commit_ts =
     (\<lambda>s. seq (script_reconcile sy cfg ws (snapshot_name cfg ts)
                 (\<not> path_exists sy (target_dists cfg ws) (world s))
                 (path_exists sy (component_root cfg ws) (world s)))
              (sync_and_push sy cfg ws commit_ts) s)"

definition script_main ::
  "'w sys \<Rightarrow> config \<Rightarrow> workspace \<Rightarrow> string option \<Rightarrow> string \<Rightarrow> string
     \<Rightarrow> 'w st \<Rightarrow> (unit, 'w) outcome" where
  "script_main sy cfg ws debs_dir ts commit_ts =
     seq (validate_tools sy cfg)
    (seq (logger INFO ''Component : %s'')
    (seq (logger INFO ''Distro    : %s'')
    (seq (logger INFO ''Channel   : %s'')
    (seq (logger INFO ''Repo      : %s (#%s)'')
    (seq (logger INFO ''Signing   : %s'')
    (seq (clone_pages sy cfg ws)
    (seq (script_seed sy cfg ws)
    (seq (stage_and_snapshot sy cfg ws debs_dir ts)
         (script_finish sy cfg ws ts commit_ts)))))))))"

section \<open>Publisher: reading a run\<close>

text \<open>
  The four transitions of the reconciliation, and the transition that a command of a
  run stands for: \<open>publish snapshot\<close> is Bootstrap, \<open>publish add\<close> and
  \<open>publish source add\<close> are Add, \<open>publish switch\<close> is Switch, \<open>publish source replace\<close>
  is Replace.  \<open>cmds m s\<close> are the commands that the step \<open>m\<close> runs from the state \<open>s\<close>.
\<close>

datatype transition = Bootstrap | Add | Switch | Replace

definition classify :: "string option \<times> cmd \<Rightarrow> transition option" where
  "classify e =
     (let c = snd e; r = drop 3 c
      in if take 1 c = [''aptly''] \<and> take 1 (drop 2 c) = [''publish'']
         then (if take 1 r = [''snapshot''] then Some Bootstrap
               else if take 1 r = [''switch''] then Some Switch
               else if take 1 r = [''add''] then Some Add
               else if take 2 r = [''source'', ''add''] then Some Add
               else if take 2 r = [''source'', ''replace''] then Some Replace
               else None)
         else None)"

definition transitions :: "(string option \<times> cmd) list \<Rightarrow> transition list" where
  "transitions t = List.map_filter classify t"

definition cmds :: "('w st \<Rightarrow> ('a, 'w) outcome) \<Rightarrow> 'w st \<Rightarrow> (string option \<times> cmd) list" where
  "cmds m s = drop (length (trace s)) (trace (final_state (m s)))"

section \<open>Publisher: an example engine\<close>

text \<open>
  The exit status of an outcome that ended the run, and whether an outcome is a return.
\<close>

definition exit_code :: "('a, 'w) outcome \<Rightarrow> int option" where
  "exit_code r = (case r of Done a s \<Rightarrow> None | Exit n s \<Rightarrow> Some n | Raised s \<Rightarrow> None)"

definition returned :: "('a, 'w) outcome \<Rightarrow> bool" where
  "returned r = (case r of Done a s \<Rightarrow> True | Exit n s \<Rightarrow> False | Raised s \<Rightarrow> False)"

text \<open>
  A small repository engine on which the theorems about the publisher are run.  Its
  world is one publication: the published components with their snapshots, the sources
  staged by an add or a replace and not yet published, and a switch that makes the
  metadata update fail.  \<open>publish snapshot\<close> publishes the one component,
  \<open>publish switch\<close> replaces the snapshot of a published component, \<open>publish add\<close> and
  \<open>publish source add\<close> stage a component and fail when it is staged already,
  \<open>publish source replace\<close> stages it in any case, \<open>publish update\<close> publishes what is
  staged, \<open>publish show\<close> fails when nothing is published; every other command succeeds
  and changes nothing.
\<close>

record repo =
  published :: "(string \<times> string) list"
  staged :: "(string \<times> string) list"
  update_fails :: bool

fun opt_value :: "string \<Rightarrow> cmd \<Rightarrow> string" where
  "opt_value k (a # b # r) = (if a = k then b else opt_value k (b # r))"
| "opt_value k r = []"

definition put :: "string \<Rightarrow> string \<Rightarrow> (string \<times> string) list \<Rightarrow> (string \<times> string) list" where
  "put c v xs = filter (\<lambda>e. fst e \<noteq> c) xs @ [(c, v)]"

definition engine_exec :: "string option \<Rightarrow> cmd \<Rightarrow> repo \<Rightarrow> int \<times> repo" where
  "engine_exec cwd c w =
     (let a = drop 3 c
      in if take 1 c = [''aptly''] \<and> take 1 (drop 2 c) = [''publish'']
         then (if take 1 a = [''snapshot'']
               then (0, w\<lparr>published := [(opt_value ''-component'' a, last (butlast a))]\<rparr>)
               else if take 1 a = [''switch'']
               then (if opt_value ''-component'' a \<in> fst ` set (published w)
                     then (0, w\<lparr>published := put (opt_value ''-component'' a) (last a) (published w)\<rparr>)
                     else (1, w))
               else if take 1 a = [''add'']
               then (if last a \<in> fst ` set (staged w) then (1, w)
                     else (0, w\<lparr>staged := put (last a) (last (butlast a)) (staged w)\<rparr>))
               else if take 2 a = [''source'', ''add'']
               then (if opt_value ''-component'' a \<in> fst ` set (staged w) then (1, w)
                     else (0, w\<lparr>staged := put (opt_value ''-component'' a) (last a) (staged w)\<rparr>))
               else if take 2 a = [''source'', ''replace'']
               then (0, w\<lparr>staged := put (opt_value ''-component'' a) (last a) (staged w)\<rparr>)
               else if take 1 a = [''update'']
               then (if update_fails w then (1, w)
                     else (0, w\<lparr>published := fold (\<lambda>e. put (fst e) (snd e)) (staged w) (published w),
                                staged := []\<rparr>))
               else if take 1 a = [''show'']
               then (if published w = [] then 1 else 0, w)
               else (0, w))
         else (0, w))"

text \<open>
  The published tree of the example engine, as seeded into the public root of the
  example run below: when something is published, the directory of the distribution
  under the channel, its release index, which lists the published components, and one
  directory for each of them.
\<close>

definition public_dists :: string where
  "public_dists = ''/tmp/aptly/public/stable/dists/noble''"

definition tree_paths :: "repo \<Rightarrow> string list" where
  "tree_paths w =
     (if published w = [] then []
      else [public_dists, pjoin public_dists ''InRelease''] @
           map (\<lambda>e. pjoin public_dists (fst e)) (published w))"

definition release_index :: "repo \<Rightarrow> string" where
  "release_index w =
     ''Origin: example'' @ [CHR 0x0A] @
     ''Components: '' @ concat (map (\<lambda>e. fst e @ '' '') (published w)) @ [CHR 0x0A]"

definition engine :: "repo sys" where
  "engine =
     \<lparr>exec = engine_exec,
      path_exists = (\<lambda>p w. p \<in> set (tree_paths w)),
      is_dir = (\<lambda>p w. True),
      read_text = (\<lambda>p w. if p = pjoin public_dists ''InRelease'' then release_index w else []),
      glob_debs = (\<lambda>p w. []),
      write_text = (\<lambda>p t w. w),
      mkdir = (\<lambda>p w. w)\<rparr>"

text \<open>
  The same engine in a fresh workspace: its database does not know the publication that
  the tree holds, so that \<open>db recover\<close> and \<open>publish show\<close> return 1.
\<close>

definition fresh_engine :: "repo sys" where
  "fresh_engine =
     engine\<lparr>exec := (\<lambda>cwd c w.
        if take 1 c = [''aptly''] \<and>
           (take 2 (drop 2 c) = [''db'', ''recover''] \<or> take 2 (drop 2 c) = [''publish'', ''show''])
        then (1, w) else engine_exec cwd c w)\<rparr>"

text \<open>The packages of a component of the example engine: its snapshot, when published.\<close>

definition packages :: "string \<Rightarrow> repo \<Rightarrow> string option" where
  "packages c w = map_of (published w) c"

definition staged_in :: "string \<Rightarrow> repo \<Rightarrow> bool" where
  "staged_in c w = (c \<in> fst ` set (staged w))"

text \<open>An example run: the component my-project in noble, channel stable, unsigned.\<close>

definition cfg0 :: config where
  "cfg0 = AptlyPublisher ''My Project'' ''noble'' ''stable'' ''https://github.com/feelpp/apt.git''
            ''gh-pages'' False None None"

definition ws0 :: workspace where
  "ws0 = \<lparr>pages = ''/tmp/pages'', aptly_cfg = ''/tmp/aptly/aptly.conf'', aptly_home = ''/tmp/aptly''\<rparr>"

definition start :: "repo \<Rightarrow> repo st" where
  "start w = \<lparr>world = w, trace = [], logs = []\<rparr>"

section \<open>Component normalisation\<close>

lemma hyphen_not_az09: "\<not> is_az09 (CHR ''-'')"
  by (simp add: is_az09_def)

lemma sub_head: "take 1 (sub_non_az09 (dropWhile (\<lambda>d. \<not> is_az09 d) cs)) \<noteq> ''-''"
proof (cases "dropWhile (\<lambda>d. \<not> is_az09 d) cs")
  case Nil
  show ?thesis unfolding Nil by simp
next
  case (Cons a as)
  then have "is_az09 a" using hd_dropWhile[of "\<lambda>d. \<not> is_az09 d" cs] by auto
  with Cons show ?thesis using hyphen_not_az09 by auto
qed

lemma hyphen_sep_sub: "hyphen_sep (sub_non_az09 s)"
proof (induction s rule: sub_non_az09.induct)
  case 1
  show ?case by simp
next
  case (2 c cs)
  show ?case
  proof (cases "is_az09 c")
    case True
    with 2 show ?thesis by simp
  next
    case False
    with 2 show ?thesis using sub_head[of cs] by simp
  qed
qed

lemma sub_fix: "hyphen_sep t \<Longrightarrow> sub_non_az09 t = t"
proof (induction t)
  case Nil
  show ?case by simp
next
  case (Cons c cs)
  show ?case
  proof (cases "is_az09 c")
    case True
    with Cons show ?thesis by simp
  next
    case False
    with Cons have c: "c = CHR ''-''" and h: "take 1 cs \<noteq> ''-''" and hs: "hyphen_sep cs" by auto
    have "dropWhile (\<lambda>d. \<not> is_az09 d) cs = cs"
    proof (cases cs)
      case Nil
      then show ?thesis by simp
    next
      case (Cons a as)
      with h hs have "is_az09 a" by auto
      with Cons show ?thesis by simp
    qed
    with False Cons.IH hs c show ?thesis by simp
  qed
qed

lemma hyphen_sep_append: "hyphen_sep (xs @ ys) \<Longrightarrow> hyphen_sep xs \<and> hyphen_sep ys"
proof (induction xs)
  case Nil
  then show ?case by simp
next
  case (Cons a xs)
  then show ?case by (cases xs) auto
qed

lemma rstrip_prefix: "xs = rev (dropWhile P (rev xs)) @ rev (takeWhile P (rev xs))"
  by (metis rev_append rev_rev_ident takeWhile_dropWhile_id)

lemma strip_split: "\<exists>p q. t = p @ strip_hyphen t @ q"
proof -
  define v where "v = dropWhile (\<lambda>c. c = CHR ''-'') t"
  define y where "y = rev (dropWhile (\<lambda>c. c = CHR ''-'') (rev v))"
  obtain z where z: "v = y @ z" unfolding y_def using rstrip_prefix by blast
  obtain p where p: "t = p @ v" unfolding v_def by (metis takeWhile_dropWhile_id)
  have "strip_hyphen t = y" by (simp add: strip_hyphen_def y_def v_def)
  with z p have "t = p @ strip_hyphen t @ z" by simp
  then show ?thesis by (intro exI)
qed

lemma hyphen_sep_strip: "hyphen_sep t \<Longrightarrow> hyphen_sep (strip_hyphen t)"
proof -
  assume h: "hyphen_sep t"
  obtain p q where "t = p @ strip_hyphen t @ q" using strip_split by blast
  with h have "hyphen_sep (p @ strip_hyphen t @ q)" by simp
  then have "hyphen_sep (strip_hyphen t @ q)" using hyphen_sep_append by blast
  then show ?thesis using hyphen_sep_append by blast
qed

lemma hyphen_sep_chars: "hyphen_sep t \<Longrightarrow> set t \<subseteq> {c. is_az09 c} \<union> {CHR ''-''}"
  by (induction t) auto

lemma lower_char_fix: "is_az09 c \<or> c = CHR ''-'' \<Longrightarrow> lower_char c = c"
  by (auto simp: lower_char_def is_az09_def Let_def)

lemma lower_fix: "hyphen_sep t \<Longrightarrow> lower t = t"
  unfolding lower_def by (induction t) (auto simp: lower_char_fix)

lemma strip_head: "take 1 (strip_hyphen t) \<noteq> ''-''"
proof -
  define v where "v = dropWhile (\<lambda>c. c = CHR ''-'') t"
  define y where "y = rev (dropWhile (\<lambda>c. c = CHR ''-'') (rev v))"
  obtain z where z: "v = y @ z" unfolding y_def using rstrip_prefix by blast
  have sy: "strip_hyphen t = y" by (simp add: strip_hyphen_def y_def v_def)
  have hv: "v \<noteq> [] \<Longrightarrow> hd v \<noteq> CHR ''-''"
    unfolding v_def using hd_dropWhile[of "\<lambda>c. c = CHR ''-''" t] by blast
  show ?thesis
  proof (cases y)
    case Nil
    with sy show ?thesis by simp
  next
    case (Cons a as)
    with z have "v \<noteq> []" "hd v = a" by simp_all
    with hv have "a \<noteq> CHR ''-''" by blast
    with Cons sy show ?thesis by simp
  qed
qed

lemma strip_last: "take 1 (rev (strip_hyphen t)) \<noteq> ''-''"
proof -
  define w where "w = dropWhile (\<lambda>c. c = CHR ''-'') (rev (dropWhile (\<lambda>c. c = CHR ''-'') t))"
  have sw: "rev (strip_hyphen t) = w" by (simp add: strip_hyphen_def w_def)
  have hw: "w \<noteq> [] \<Longrightarrow> hd w \<noteq> CHR ''-''"
    unfolding w_def
    using hd_dropWhile[of "\<lambda>c. c = CHR ''-''" "rev (dropWhile (\<lambda>c. c = CHR ''-'') t)"] by blast
  show ?thesis
  proof (cases w)
    case Nil
    with sw show ?thesis by simp
  next
    case (Cons a as)
    with hw have "a \<noteq> CHR ''-''" by simp
    with Cons sw show ?thesis by simp
  qed
qed

lemma dropWhile_id_take1: "take 1 xs \<noteq> [x] \<Longrightarrow> dropWhile (\<lambda>c. c = x) xs = xs"
  by (cases xs) auto

lemma strip_fix: "take 1 t \<noteq> ''-'' \<Longrightarrow> take 1 (rev t) \<noteq> ''-'' \<Longrightarrow> strip_hyphen t = t"
  by (simp add: strip_hyphen_def dropWhile_id_take1)

lemma strip_idem: "strip_hyphen (strip_hyphen t) = strip_hyphen t"
  using strip_fix[OF strip_head strip_last] .

lemma normalize_idem: "normalize_component (normalize_component s) = normalize_component s"
proof -
  define t where "t = normalize_component s"
  have ts: "t = strip_hyphen (sub_non_az09 (lower s))" by (simp add: t_def normalize_component_def)
  have h: "hyphen_sep t" unfolding ts using hyphen_sep_strip[OF hyphen_sep_sub] .
  have 1: "lower t = t" using lower_fix[OF h] .
  have 2: "sub_non_az09 t = t" using sub_fix[OF h] .
  have 3: "strip_hyphen t = t" unfolding ts using strip_idem .
  have "normalize_component t = t" by (simp add: normalize_component_def 1 2 3)
  then show ?thesis by (simp add: t_def)
qed

lemma filter_sub: "filter is_az09 (sub_non_az09 s) = filter is_az09 s"
proof (induction s rule: sub_non_az09.induct)
  case 1
  show ?case by simp
next
  case (2 c cs)
  have f: "filter is_az09 (dropWhile (\<lambda>d. \<not> is_az09 d) cs) = filter is_az09 cs"
    by (induction cs) auto
  from 2 f show ?case using hyphen_not_az09 by auto
qed

lemma filter_strip: "filter is_az09 (strip_hyphen t) = filter is_az09 t"
proof -
  have a: "\<And>xs. filter is_az09 (dropWhile (\<lambda>c. c = CHR ''-'') xs) = filter is_az09 xs"
  proof -
    fix xs show "filter is_az09 (dropWhile (\<lambda>c. c = CHR ''-'') xs) = filter is_az09 xs"
      using hyphen_not_az09 by (induction xs) auto
  qed
  show ?thesis unfolding strip_hyphen_def
    by (simp add: a flip: rev_filter)
qed

lemma no_double: "hyphen_sep t \<Longrightarrow> \<not> (\<exists>xs ys. t = xs @ ''--'' @ ys)"
proof
  assume h: "hyphen_sep t" and "\<exists>xs ys. t = xs @ ''--'' @ ys"
  then obtain xs ys where "t = xs @ ''--'' @ ys" by blast
  with h have "hyphen_sep (''--'' @ ys)" using hyphen_sep_append by blast
  then show False using hyphen_not_az09 by simp
qed

subsection \<open>The normaliser and the runs of the input\<close>

lemma sub_takeWhile:
  "sub_non_az09 u = takeWhile is_az09 u @ sub_non_az09 (dropWhile is_az09 u)"
  by (induction u) simp_all

lemma alnum_runs_skip: "alnum_runs (dropWhile (\<lambda>d. \<not> is_az09 d) t) = alnum_runs t"
  by (induction t) simp_all

lemma alnum_runs_az: "w \<in> set (alnum_runs t) \<Longrightarrow> w \<noteq> [] \<and> set w \<subseteq> {c. is_az09 c}"
proof (induction t rule: alnum_runs.induct)
  case 1
  then show ?case by simp
next
  case (2 c cs)
  show ?case
  proof (cases "is_az09 c")
    case True
    with 2 show ?thesis by (auto dest: set_takeWhileD)
  next
    case False
    with 2 show ?thesis by simp
  qed
qed

lemma last_az: "w \<noteq> [] \<Longrightarrow> set w \<subseteq> {c. is_az09 c} \<Longrightarrow> is_az09 (last w)"
  using last_in_set[of w] by blast

lemma join_hyphen_last:
  "ws \<noteq> [] \<Longrightarrow> (\<And>w. w \<in> set ws \<Longrightarrow> w \<noteq> [] \<and> set w \<subseteq> {c. is_az09 c}) \<Longrightarrow>
   join_hyphen ws \<noteq> [] \<and> is_az09 (last (join_hyphen ws))"
proof (induction ws rule: join_hyphen.induct)
  case 1
  then show ?case by simp
next
  case (2 w)
  then have w: "w \<noteq> []" "set w \<subseteq> {c. is_az09 c}" by auto
  then show ?case using last_az by simp
next
  case (3 w v ws)
  then have "join_hyphen (v # ws) \<noteq> [] \<and> is_az09 (last (join_hyphen (v # ws)))" by simp
  then show ?case by simp
qed

lemma dropWhile_hyphen_sub:
  "dropWhile (\<lambda>c. c = CHR ''-'') (sub_non_az09 t) = sub_non_az09 (dropWhile (\<lambda>d. \<not> is_az09 d) t)"
proof (cases t)
  case Nil
  then show ?thesis by simp
next
  case (Cons c cs)
  show ?thesis
  proof (cases "is_az09 c")
    case True
    then have "c \<noteq> CHR ''-''" using hyphen_not_az09 by auto
    with True Cons show ?thesis by simp
  next
    case False
    have "dropWhile (\<lambda>c. c = CHR ''-'') (sub_non_az09 (dropWhile (\<lambda>d. \<not> is_az09 d) cs))
        = sub_non_az09 (dropWhile (\<lambda>d. \<not> is_az09 d) cs)"
      using sub_head[of cs] by (rule dropWhile_id_take1)
    with False Cons show ?thesis by simp
  qed
qed


lemma sub_runs:
  "u = [] \<or> is_az09 (hd u) \<Longrightarrow>
   sub_non_az09 u =
     join_hyphen (alnum_runs u) @ (if u \<noteq> [] \<and> \<not> is_az09 (last u) then ''-'' else [])"
proof (induction "length u" arbitrary: u rule: less_induct)
  case less
  show ?case
  proof (cases u)
    case Nil
    then show ?thesis by simp
  next
    case (Cons c cs)
    with less.prems have c: "is_az09 c" by simp
    define w where "w = takeWhile is_az09 u"
    define r where "r = dropWhile is_az09 u"
    have u: "u = w @ r" by (simp add: w_def r_def)
    have rcs: "r = dropWhile is_az09 cs" using Cons c by (simp add: r_def)
    have runs: "alnum_runs u = w # alnum_runs r" using Cons c by (simp add: w_def rcs)
    have sub: "sub_non_az09 u = w @ sub_non_az09 r"
      unfolding w_def r_def by (rule sub_takeWhile)
    have waz: "set w \<subseteq> {c. is_az09 c}" unfolding w_def by (auto dest: set_takeWhileD)
    have wne: "w \<noteq> []" using Cons c by (simp add: w_def)
    show ?thesis
    proof (cases r)
      case Nil
      with u have "u = w" by simp
      with wne waz have "is_az09 (last u)" using last_az by simp
      with Nil runs sub show ?thesis by simp
    next
      case (Cons d ds)
      have d: "\<not> is_az09 d"
        using Cons by (simp add: r_def dropWhile_eq_Cons_conv)
      define u' where "u' = dropWhile (\<lambda>d. \<not> is_az09 d) ds"
      have subr: "sub_non_az09 r = CHR ''-'' # sub_non_az09 u'"
        using Cons d by (simp add: u'_def)
      have runsr: "alnum_runs r = alnum_runs u'"
        using Cons d by (simp add: u'_def alnum_runs_skip)
      have lastu: "last u = last r" using u Cons by simp
      show ?thesis
      proof (cases u')
        case Nil
        then have "\<forall>x\<in>set ds. \<not> is_az09 x" by (simp add: u'_def dropWhile_eq_Nil_conv)
        with d Cons have "\<not> is_az09 (last r)" using last_in_set[of r] by auto
        with Nil runs runsr sub subr lastu \<open>u = c # cs\<close> show ?thesis by simp
      next
        case C: (Cons a as)
        have "dropWhile (\<lambda>d. \<not> is_az09 d) ds = a # as" using C by (simp add: u'_def)
        then have "is_az09 a" by (simp add: dropWhile_eq_Cons_conv)
        with C have a: "is_az09 (hd u')" by simp
        have "length u' \<le> length ds" by (simp add: u'_def length_dropWhile_le)
        also have "\<dots> < length r" using Cons by simp
        also have "\<dots> \<le> length u" using u by simp
        finally have len: "length u' < length u" .
        from less.hyps[OF len] a
        have ih: "sub_non_az09 u' =
            join_hyphen (alnum_runs u') @ (if u' \<noteq> [] \<and> \<not> is_az09 (last u') then ''-'' else [])"
          by simp
        have "ds = takeWhile (\<lambda>d. \<not> is_az09 d) ds @ u'" by (simp add: u'_def)
        then have "last ds = last u'" using C by (metis last_appendR list.distinct(1))
        moreover have "ds \<noteq> []" using C u'_def by auto
        ultimately have lastr: "last r = last u'" using Cons by simp
        obtain v vs where vs: "alnum_runs u' = v # vs"
          using C a by (cases "alnum_runs u'") (auto split: if_splits)
        have "join_hyphen (alnum_runs u) = w @ CHR ''-'' # join_hyphen (alnum_runs u')"
          using runs runsr vs by simp
        with sub subr ih lastu lastr C \<open>u = c # cs\<close> show ?thesis by simp
      qed
    qed
  qed
qed

lemma rstrip_join:
  assumes "J = [] \<or> is_az09 (last J)" and "tl' = [] \<or> tl' = ''-''"
  shows "rev (dropWhile (\<lambda>c. c = CHR ''-'') (rev (J @ tl'))) = J"
proof -
  have "dropWhile (\<lambda>c. c = CHR ''-'') (rev J) = rev J"
  proof (cases "rev J")
    case Nil
    then show ?thesis by simp
  next
    case (Cons x xs)
    then have "J = rev (x # xs)" by (metis rev_rev_ident)
    then have "J \<noteq> []" "last J = x" by simp_all
    with assms(1) have "x \<noteq> CHR ''-''" using hyphen_not_az09 by auto
    with Cons show ?thesis by simp
  qed
  with assms(2) show ?thesis by auto
qed

lemma normalize_spec: "normalize_component s = spec_normalize s"
proof -
  define t where "t = lower s"
  define u where "u = dropWhile (\<lambda>d. \<not> is_az09 d) t"
  define J where "J = join_hyphen (alnum_runs u)"
  have hu: "u = [] \<or> is_az09 (hd u)"
    using hd_dropWhile[of "\<lambda>d. \<not> is_az09 d" t] by (auto simp: u_def)
  have J: "J = [] \<or> is_az09 (last J)"
  proof (cases "alnum_runs u")
    case Nil
    then show ?thesis by (simp add: J_def)
  next
    case (Cons v vs)
    then have "alnum_runs u \<noteq> []" by simp
    from join_hyphen_last[OF this alnum_runs_az] show ?thesis by (simp add: J_def)
  qed
  have "normalize_component s =
      rev (dropWhile (\<lambda>c. c = CHR ''-'') (rev (sub_non_az09 u)))"
    by (simp add: normalize_component_def strip_hyphen_def dropWhile_hyphen_sub t_def u_def)
  also have "sub_non_az09 u = J @ (if u \<noteq> [] \<and> \<not> is_az09 (last u) then ''-'' else [])"
    unfolding J_def using hu by (rule sub_runs)
  also have "rev (dropWhile (\<lambda>c. c = CHR ''-'')
      (rev (J @ (if u \<noteq> [] \<and> \<not> is_az09 (last u) then ''-'' else [])))) = J"
    using J by (rule rstrip_join) simp
  finally show ?thesis by (simp add: spec_normalize_def J_def u_def t_def alnum_runs_skip)
qed

text \<open>
  C3. For every input string, normalising twice gives the same result as normalising
  once; the result consists of lowercase alphanumerics and hyphens only; it contains no
  two adjacent hyphens and neither starts nor ends with a hyphen; its alphanumeric
  characters are those of the lowercased input, in order; it is the maximal
  alphanumeric runs of the lowercased input joined by single hyphens, so that every run
  of other characters between two of them has become exactly one hyphen and those at
  the ends have gone; \<open>"My Project!!"\<close> is normalised to \<open>"my-project"\<close> and \<open>"a.b"\<close> to
  \<open>"a-b"\<close>.  The script's \<open>norm_component\<close> computes the same function.
\<close>

theorem normalize_component_idempotent:
  "normalize_component (normalize_component s) = normalize_component s
   \<and> set (normalize_component s) \<subseteq> {c. is_az09 c} \<union> {CHR ''-''}
   \<and> \<not> (\<exists>xs ys. normalize_component s = xs @ ''--'' @ ys)
   \<and> take 1 (normalize_component s) \<noteq> ''-''
   \<and> take 1 (rev (normalize_component s)) \<noteq> ''-''
   \<and> filter is_az09 (normalize_component s) = filter is_az09 (lower s)
   \<and> normalize_component ''My Project!!'' = ''my-project''
   \<and> norm_component s = normalize_component s
   \<and> normalize_component s = join_hyphen (alnum_runs (lower s))
   \<and> normalize_component s = spec_normalize s
   \<and> normalize_component ''a.b'' = ''a-b''
   \<and> normalize_component ''  --Feel++ / MMG__v2 '' = ''feel-mmg-v2''"
proof -
  have h: "hyphen_sep (normalize_component s)"
    unfolding normalize_component_def using hyphen_sep_strip[OF hyphen_sep_sub] .
  have 1: "normalize_component (normalize_component s) = normalize_component s"
    by (rule normalize_idem)
  have 2: "set (normalize_component s) \<subseteq> {c. is_az09 c} \<union> {CHR ''-''}"
    using hyphen_sep_chars[OF h] .
  have 3: "\<not> (\<exists>xs ys. normalize_component s = xs @ ''--'' @ ys)"
    using no_double[OF h] .
  have 4: "take 1 (normalize_component s) \<noteq> ''-''"
    unfolding normalize_component_def by (rule strip_head)
  have 5: "take 1 (rev (normalize_component s)) \<noteq> ''-''"
    unfolding normalize_component_def by (rule strip_last)
  have 6: "filter is_az09 (normalize_component s) = filter is_az09 (lower s)"
    unfolding normalize_component_def by (simp only: filter_strip filter_sub)
  have 7: "normalize_component ''My Project!!'' = ''my-project''"
    by code_simp
  have 8: "norm_component s = normalize_component s"
    by (simp add: norm_component_def normalize_component_def)
  have 9: "normalize_component s = spec_normalize s"
    by (rule normalize_spec)
  then have 10: "normalize_component s = join_hyphen (alnum_runs (lower s))"
    by (simp add: spec_normalize_def)
  have 11: "normalize_component ''a.b'' = ''a-b''"
    by code_simp
  have 12: "normalize_component ''  --Feel++ / MMG__v2 '' = ''feel-mmg-v2''"
    by code_simp
  from 1 2 3 4 5 6 7 8 9 10 11 12 show ?thesis by blast
qed

section \<open>Pre-release detection\<close>

text \<open>
  C8. The pre-release predicate is a search for the alternation of the fixed pattern
  list; it holds of \<open>"1.2.0~beta3"\<close> and \<open>"2.0+git20240101"\<close> and does not hold of
  \<open>"1.2.0"\<close> and \<open>"2.0-1ubuntu1"\<close>.
\<close>

theorem is_prerelease_examples:
  "is_prerelease_version ''1.2.0~beta3''
   \<and> is_prerelease_version ''2.0+git20240101''
   \<and> \<not> is_prerelease_version ''1.2.0''
   \<and> \<not> is_prerelease_version ''2.0-1ubuntu1''
   \<and> is_prerelease_version v = search True (join_alt PRERELEASE_PATTERNS) v
   \<and> length PRERELEASE_PATTERNS = 14"
proof -
  have 1: "is_prerelease_version ''1.2.0~beta3''" by code_simp
  have 2: "is_prerelease_version ''2.0+git20240101''" by code_simp
  have 3: "\<not> is_prerelease_version ''1.2.0''" by code_simp
  have 4: "\<not> is_prerelease_version ''2.0-1ubuntu1''" by code_simp
  have 5: "is_prerelease_version v = search True (join_alt PRERELEASE_PATTERNS) v"
    by (simp add: is_prerelease_version_def prerelease_re_def)
  have 6: "length PRERELEASE_PATTERNS = 14" by (simp add: PRERELEASE_PATTERNS_def)
  from 1 2 3 4 5 6 show ?thesis by blast
qed

section \<open>Version-excess classification\<close>

lemma sorted_wrt_remove1: "sorted_wrt A xs \<Longrightarrow> sorted_wrt A (remove1 y xs)"
  by (induction xs) (auto dest: notin_set_remove1)

lemma insert_by_remove1:
  "sorted_wrt (\<lambda>a b. lt a b \<and> \<not> lt b a) xs \<Longrightarrow> y \<in> set xs \<Longrightarrow>
   insert_by lt y (remove1 y xs) = xs"
proof (induction xs)
  case Nil
  then show ?case by simp
next
  case (Cons a xs)
  show ?case
  proof (cases "y = a")
    case True
    with Cons.prems show ?thesis by (cases xs) auto
  next
    case False
    with Cons.prems have yin: "y \<in> set xs" by simp
    with Cons.prems have "lt a y" by simp
    moreover from Cons yin have "insert_by lt y (remove1 y xs) = xs" by simp
    ultimately show ?thesis using False by simp
  qed
qed

lemma stable_sort_by_unique:
  "sorted_wrt (\<lambda>a b. lt a b \<and> \<not> lt b a) xs \<Longrightarrow> mset ys = mset xs \<Longrightarrow>
   stable_sort_by lt ys = xs"
proof (induction ys arbitrary: xs)
  case Nil
  then show ?case by simp
next
  case (Cons y ys)
  from Cons.prems(2) have yin: "y \<in> set xs" by (metis list.set_intros(1) mset_eq_setD)
  from Cons.prems(2) have "mset ys = mset (remove1 y xs)"
    by (metis add_mset_remove_trivial mset.simps(2) mset_remove1)
  with Cons.IH[OF sorted_wrt_remove1[OF Cons.prems(1)]]
  have "stable_sort_by lt ys = remove1 y xs" by simp
  then show ?case using insert_by_remove1[OF Cons.prems(1) yin] by simp
qed

lemma py_sorted_reverse_unique:
  assumes "sorted_wrt (\<lambda>a b. lt b a \<and> \<not> lt a b) ds" and "mset xs = mset ds"
  shows "py_sorted lt True xs = ds"
proof -
  have "sorted_wrt (\<lambda>a b. lt a b \<and> \<not> lt b a) (rev ds)"
    using assms(1) by (simp add: sorted_wrt_rev)
  moreover have "mset (rev xs) = mset (rev ds)" using assms(2) by simp
  ultimately have "stable_sort_by lt (rev xs) = rev ds" by (rule stable_sort_by_unique)
  then show ?thesis by (simp add: py_sorted_def)
qed

lemma version_to_pkg_Some:
  "distinct (map pkg_version grp) \<Longrightarrow> p \<in> set grp \<Longrightarrow>
   version_to_pkg grp (pkg_version p) = Some p"
  unfolding version_to_pkg_def
  by (rule map_of_is_SomeI) (auto simp: rev_map[symmetric] comp_def distinct_rev)

lemma map_filter_versions:
  "distinct (map pkg_version grp) \<Longrightarrow> set ds \<subseteq> set grp \<Longrightarrow>
   List.map_filter (version_to_pkg grp) (map pkg_version ds) = ds"
  by (induction ds) (auto simp: List.map_filter_simps version_to_pkg_Some)

lemma newer_distinct:
  "sorted_wrt (newer env) ds \<Longrightarrow> distinct (map pkg_version ds)"
  by (induction ds) (auto simp: newer_def)

lemma sorted_group_unique:
  assumes d: "sorted_wrt (newer env) ds" and m: "mset grp = mset ds"
  shows "sorted_group env grp = ds"
proof -
  have dist: "distinct (map pkg_version grp)"
    using newer_distinct[OF d] m by (metis distinct_map mset_eq_setD mset_eq_imp_distinct_iff inj_on_cong)
  have sub: "set ds \<subseteq> set grp" using m by (metis mset_eq_setD subset_refl)
  have len: "length grp = length ds" using m by (metis size_mset)
  show ?thesis
  proof (cases env)
    case (Dpkg run)
    let ?lt = "\<lambda>a b. case version_compare env a b of Some r \<Rightarrow> r < 0 | None \<Rightarrow> False"
    have "sorted_wrt (\<lambda>p q. ?lt (pkg_version q) (pkg_version p)
                         \<and> \<not> ?lt (pkg_version p) (pkg_version q)) ds"
      by (rule sorted_wrt_mono_rel[OF _ d]) (simp add: newer_def version_lt_def Dpkg)
    then have "sorted_wrt (\<lambda>a b. ?lt b a \<and> \<not> ?lt a b) (map pkg_version ds)"
      by (simp only: sorted_wrt_map)
    moreover have "mset (map pkg_version grp) = mset (map pkg_version ds)" using m by simp
    ultimately have "py_sorted ?lt True (map pkg_version grp) = map pkg_version ds"
      by (rule py_sorted_reverse_unique)
    then show ?thesis
      using map_filter_versions[OF dist sub] by (simp add: sorted_group_def Dpkg)
  next
    case Dpkg_not_found
    let ?lt = "\<lambda>a b. case version_compare env a b of Some r \<Rightarrow> r < 0 | None \<Rightarrow> False"
    have "sorted_wrt (\<lambda>p q. ?lt (pkg_version q) (pkg_version p)
                         \<and> \<not> ?lt (pkg_version p) (pkg_version q)) ds"
      by (rule sorted_wrt_mono_rel[OF _ d]) (simp add: newer_def version_lt_def Dpkg_not_found)
    then have "sorted_wrt (\<lambda>a b. ?lt b a \<and> \<not> ?lt a b) (map pkg_version ds)"
      by (simp only: sorted_wrt_map)
    moreover have "mset (map pkg_version grp) = mset (map pkg_version ds)" using m by simp
    ultimately have "py_sorted ?lt True (map pkg_version grp) = map pkg_version ds"
      by (rule py_sorted_reverse_unique)
    then show ?thesis
      using map_filter_versions[OF dist sub] by (simp add: sorted_group_def Dpkg_not_found)
  next
    case Dpkg_error
    let ?lt = "\<lambda>p q. pkg_version p < pkg_version q"
    have "sorted_wrt (\<lambda>a b. ?lt b a \<and> \<not> ?lt a b) ds"
      by (rule sorted_wrt_mono_rel[OF _ d]) (simp add: newer_def version_lt_def Dpkg_error)
    then have "py_sorted ?lt True grp = ds" using m by (rule py_sorted_reverse_unique)
    moreover have "sort_versions env (map pkg_version grp) True = None \<or> length ds < 2"
      using len by (auto simp: Dpkg_error)
    moreover have "length ds < 2 \<Longrightarrow> grp = ds"
    proof -
      assume "length ds < 2"
      then consider "ds = []" | x where "ds = [x]"
        by (cases ds) (auto simp: less_Suc_eq length_Suc_conv numeral_2_eq_2)
      then show "grp = ds" using m by cases auto
    qed
    ultimately show ?thesis
      using map_filter_versions[OF dist sub] dist
      by (auto simp: sorted_group_def Dpkg_error split: option.splits if_splits)
  qed
qed

lemma foldl_group_append_same:
  "\<forall>p\<in>set xs. key_of p = k \<Longrightarrow>
   foldl (\<lambda>gs p. group_append (key_of p) p gs) [(k, g)] xs = [(k, g @ xs)]"
  by (induction xs arbitrary: g) auto

lemma package_groups_single:
  "pkgs \<noteq> [] \<Longrightarrow> \<forall>p\<in>set pkgs. key_of p = k \<Longrightarrow> package_groups pkgs = [(k, pkgs)]"
  unfolding package_groups_def
  by (cases pkgs) (auto simp: foldl_group_append_same)

lemma find_single_group:
  assumes ne: "pkgs \<noteq> []"
    and key: "\<forall>p\<in>set pkgs. key_of p = (ch, cpn, nm, ar)"
    and cp: "channel_policies policy ch = Some cp"
    and np: "cpn \<notin> set (protected_components policy)"
    and npk: "\<not> list_ex (\<lambda>pattern. match_here False pattern nm) (protected_packages policy)"
  shows "find_cleanup_candidates policy env pkgs =
     (let keep = (case keep_prereleases cp of None \<Rightarrow> True | Some b \<Rightarrow> b);
          maxv = (case max_versions cp of None \<Rightarrow> max_versions_per_package policy | Some n \<Rightarrow> n);
          max_age = (case max_age_days cp of None \<Rightarrow> prerelease_max_age_days policy | Some n \<Rightarrow> n);
          pre = (if \<not> keep
                 then filter (\<lambda>pkg. pkg_is_prerelease pkg \<and> pkg_age_days pkg > max_age) pkgs
                 else [])
      in (pre, if maxv > 0 \<and> int (length pkgs) > maxv
               then filter (\<lambda>pkg. pkg_path pkg \<notin> set (map pkg_path pre))
                      (drop (nat maxv) (sorted_group env pkgs))
               else []))"
  using cp np npk
  by (simp add: find_cleanup_candidates_def package_groups_single[OF ne key]
        process_group_def Let_def)

text \<open>
  C7, as amended.  Take five packages \<open>p5\<close>, ..., \<open>p1\<close> of one group
  (same channel, component, name and architecture), listed from newest to oldest in the
  order the code uses (the answers of \<open>dpkg\<close>, or the string order when \<open>dpkg\<close> is
  missing or fails), given in any order, under a channel policy with
  \<open>max_versions = 3\<close>, the component and the name not being protected.  Then the
  version-limit candidates are those of the two oldest, \<open>p2\<close> and \<open>p1\<close>, whose path
  is not already among the pre-release candidates of the call; the three newest are never
  version-limit candidates; and when the call has no pre-release candidate, the
  version-limit candidates are exactly \<open>p2\<close> and \<open>p1\<close>.
\<close>

theorem version_excess_five_three:
  assumes m: "mset pkgs = mset [p5, p4, p3, p2, p1]"
    and key: "\<forall>p\<in>set pkgs. key_of p = (ch, cpn, nm, ar)"
    and d: "sorted_wrt (newer env) [p5, p4, p3, p2, p1]"
    and cp: "channel_policies policy ch = Some cp"
    and mv: "max_versions cp = Some 3"
    and np: "cpn \<notin> set (protected_components policy)"
    and npk: "\<not> list_ex (\<lambda>pattern. match_here False pattern nm) (protected_packages policy)"
  shows "snd (find_cleanup_candidates policy env pkgs) =
           filter (\<lambda>p. pkg_path p \<notin> pkg_path ` set (fst (find_cleanup_candidates policy env pkgs)))
             [p2, p1]
         \<and> set (snd (find_cleanup_candidates policy env pkgs)) \<inter> {p5, p4, p3} = {}
         \<and> (fst (find_cleanup_candidates policy env pkgs) = []
              \<longrightarrow> snd (find_cleanup_candidates policy env pkgs) = [p2, p1])"
proof -
  have ne: "pkgs \<noteq> []" using m by auto
  have "size (mset pkgs) = size (mset [p5, p4, p3, p2, p1])" by (simp only: m)
  then have len: "length pkgs = 5" by simp
  have sg: "sorted_group env pkgs = [p5, p4, p3, p2, p1]"
    using sorted_group_unique[OF d m] .
  have 1: "snd (find_cleanup_candidates policy env pkgs) =
           filter (\<lambda>p. pkg_path p \<notin> pkg_path ` set (fst (find_cleanup_candidates policy env pkgs)))
             [p2, p1]"
    unfolding find_single_group[OF ne key cp np npk]
    by (simp add: Let_def mv len sg)
  have dist: "distinct (map pkg_version [p5, p4, p3, p2, p1])" using newer_distinct[OF d] .
  then have neq: "p1 \<noteq> p3" "p1 \<noteq> p4" "p1 \<noteq> p5" "p2 \<noteq> p3" "p2 \<noteq> p4" "p2 \<noteq> p5" by auto
  have "set (snd (find_cleanup_candidates policy env pkgs)) \<subseteq> {p2, p1}"
    unfolding 1 by auto
  with neq have 2: "set (snd (find_cleanup_candidates policy env pkgs)) \<inter> {p5, p4, p3} = {}"
    by auto
  have 3: "fst (find_cleanup_candidates policy env pkgs) = []
              \<longrightarrow> snd (find_cleanup_candidates policy env pkgs) = [p2, p1]"
  proof
    assume e: "fst (find_cleanup_candidates policy env pkgs) = []"
    show "snd (find_cleanup_candidates policy env pkgs) = [p2, p1]"
      by (subst 1) (simp add: e)
  qed
  from 1 2 3 show ?thesis by blast
qed

theorem version_excess_five_three_witness:
  "mset
     [pool_package ''pr'' ''pr'' ''main'' ''foo'' ''1.1'' ''amd64'' 3 False,
      pool_package ''pr'' ''pr'' ''main'' ''foo'' ''1.0~rc1'' ''amd64'' 100 True,
      pool_package ''pr'' ''pr'' ''main'' ''foo'' ''1.3'' ''amd64'' 1 False,
      pool_package ''pr'' ''pr'' ''main'' ''foo'' ''1.0'' ''amd64'' 90 False,
      pool_package ''pr'' ''pr'' ''main'' ''foo'' ''1.2'' ''amd64'' 2 False]
   = mset
     [pool_package ''pr'' ''pr'' ''main'' ''foo'' ''1.3'' ''amd64'' 1 False,
      pool_package ''pr'' ''pr'' ''main'' ''foo'' ''1.2'' ''amd64'' 2 False,
      pool_package ''pr'' ''pr'' ''main'' ''foo'' ''1.1'' ''amd64'' 3 False,
      pool_package ''pr'' ''pr'' ''main'' ''foo'' ''1.0~rc1'' ''amd64'' 100 True,
      pool_package ''pr'' ''pr'' ''main'' ''foo'' ''1.0'' ''amd64'' 90 False]
   \<and> snd (find_cleanup_candidates default_policy Dpkg_not_found
     [pool_package ''pr'' ''pr'' ''main'' ''foo'' ''1.1'' ''amd64'' 3 False,
      pool_package ''pr'' ''pr'' ''main'' ''foo'' ''1.0~rc1'' ''amd64'' 100 True,
      pool_package ''pr'' ''pr'' ''main'' ''foo'' ''1.3'' ''amd64'' 1 False,
      pool_package ''pr'' ''pr'' ''main'' ''foo'' ''1.0'' ''amd64'' 90 False,
      pool_package ''pr'' ''pr'' ''main'' ''foo'' ''1.2'' ''amd64'' 2 False])
     = [pool_package ''pr'' ''pr'' ''main'' ''foo'' ''1.0'' ''amd64'' 90 False]"
proof -
  have m: "mset
     [pool_package ''pr'' ''pr'' ''main'' ''foo'' ''1.1'' ''amd64'' 3 False,
      pool_package ''pr'' ''pr'' ''main'' ''foo'' ''1.0~rc1'' ''amd64'' 100 True,
      pool_package ''pr'' ''pr'' ''main'' ''foo'' ''1.3'' ''amd64'' 1 False,
      pool_package ''pr'' ''pr'' ''main'' ''foo'' ''1.0'' ''amd64'' 90 False,
      pool_package ''pr'' ''pr'' ''main'' ''foo'' ''1.2'' ''amd64'' 2 False]
   = mset
     [pool_package ''pr'' ''pr'' ''main'' ''foo'' ''1.3'' ''amd64'' 1 False,
      pool_package ''pr'' ''pr'' ''main'' ''foo'' ''1.2'' ''amd64'' 2 False,
      pool_package ''pr'' ''pr'' ''main'' ''foo'' ''1.1'' ''amd64'' 3 False,
      pool_package ''pr'' ''pr'' ''main'' ''foo'' ''1.0~rc1'' ''amd64'' 100 True,
      pool_package ''pr'' ''pr'' ''main'' ''foo'' ''1.0'' ''amd64'' 90 False]"
    by (simp add: add_mset_commute)
  have key: "\<forall>p\<in>set
     [pool_package ''pr'' ''pr'' ''main'' ''foo'' ''1.1'' ''amd64'' 3 False,
      pool_package ''pr'' ''pr'' ''main'' ''foo'' ''1.0~rc1'' ''amd64'' 100 True,
      pool_package ''pr'' ''pr'' ''main'' ''foo'' ''1.3'' ''amd64'' 1 False,
      pool_package ''pr'' ''pr'' ''main'' ''foo'' ''1.0'' ''amd64'' 90 False,
      pool_package ''pr'' ''pr'' ''main'' ''foo'' ''1.2'' ''amd64'' 2 False].
     key_of p = (''pr'', ''main'', ''foo'', ''amd64'')"
    by (simp add: key_of_def pool_package_def)
  have d: "sorted_wrt (newer Dpkg_not_found)
     [pool_package ''pr'' ''pr'' ''main'' ''foo'' ''1.3'' ''amd64'' 1 False,
      pool_package ''pr'' ''pr'' ''main'' ''foo'' ''1.2'' ''amd64'' 2 False,
      pool_package ''pr'' ''pr'' ''main'' ''foo'' ''1.1'' ''amd64'' 3 False,
      pool_package ''pr'' ''pr'' ''main'' ''foo'' ''1.0~rc1'' ''amd64'' 100 True,
      pool_package ''pr'' ''pr'' ''main'' ''foo'' ''1.0'' ''amd64'' 90 False]"
    by code_simp
  have cp: "channel_policies default_policy ''pr''
     = Some \<lparr>keep_prereleases = Some False, max_versions = Some 3, max_age_days = Some 30\<rparr>"
    by (simp add: default_policy_def default_channel_policies_def)
  have mv: "max_versions \<lparr>keep_prereleases = Some False, max_versions = Some 3,
     max_age_days = Some 30\<rparr> = Some 3"
    by simp
  have np: "''main'' \<notin> set (protected_components default_policy)"
    by (simp add: default_policy_def)
  have npk: "\<not> list_ex (\<lambda>pattern. match_here False pattern ''foo'')
     (protected_packages default_policy)"
    by (simp add: default_policy_def)
  have pre: "fst (find_cleanup_candidates default_policy Dpkg_not_found
     [pool_package ''pr'' ''pr'' ''main'' ''foo'' ''1.1'' ''amd64'' 3 False,
      pool_package ''pr'' ''pr'' ''main'' ''foo'' ''1.0~rc1'' ''amd64'' 100 True,
      pool_package ''pr'' ''pr'' ''main'' ''foo'' ''1.3'' ''amd64'' 1 False,
      pool_package ''pr'' ''pr'' ''main'' ''foo'' ''1.0'' ''amd64'' 90 False,
      pool_package ''pr'' ''pr'' ''main'' ''foo'' ''1.2'' ''amd64'' 2 False])
     = [pool_package ''pr'' ''pr'' ''main'' ''foo'' ''1.0~rc1'' ''amd64'' 100 True]"
    by code_simp
  have "snd (find_cleanup_candidates default_policy Dpkg_not_found
     [pool_package ''pr'' ''pr'' ''main'' ''foo'' ''1.1'' ''amd64'' 3 False,
      pool_package ''pr'' ''pr'' ''main'' ''foo'' ''1.0~rc1'' ''amd64'' 100 True,
      pool_package ''pr'' ''pr'' ''main'' ''foo'' ''1.3'' ''amd64'' 1 False,
      pool_package ''pr'' ''pr'' ''main'' ''foo'' ''1.0'' ''amd64'' 90 False,
      pool_package ''pr'' ''pr'' ''main'' ''foo'' ''1.2'' ''amd64'' 2 False])
     = [pool_package ''pr'' ''pr'' ''main'' ''foo'' ''1.0'' ''amd64'' 90 False]"
    using version_excess_five_three [OF m key d cp mv np npk, THEN conjunct1]
    unfolding pre by (simp add: pool_package_def)
  with m show ?thesis by blast
qed

text \<open>
  The claim as stated fails on the default policy of the \<open>pr\<close> channel
  (\<open>max_versions = 3\<close>, pre-releases older than 30 days are collected): of the two oldest
  of five versions, the release candidate aged 100 days is a pre-release candidate, and
  only the other one is a version-limit candidate.
\<close>

theorem version_excess_counterexample:
  "sorted_wrt (newer Dpkg_not_found)
     [pool_package ''pr'' ''pr'' ''main'' ''foo'' ''1.3'' ''amd64'' 1 False,
      pool_package ''pr'' ''pr'' ''main'' ''foo'' ''1.2'' ''amd64'' 2 False,
      pool_package ''pr'' ''pr'' ''main'' ''foo'' ''1.1'' ''amd64'' 3 False,
      pool_package ''pr'' ''pr'' ''main'' ''foo'' ''1.0~rc1'' ''amd64'' 100 True,
      pool_package ''pr'' ''pr'' ''main'' ''foo'' ''1.0'' ''amd64'' 90 False]
   \<and> max_versions (the (channel_policies default_policy ''pr'')) = Some 3
   \<and> snd (find_cleanup_candidates default_policy Dpkg_not_found
     [pool_package ''pr'' ''pr'' ''main'' ''foo'' ''1.1'' ''amd64'' 3 False,
      pool_package ''pr'' ''pr'' ''main'' ''foo'' ''1.0~rc1'' ''amd64'' 100 True,
      pool_package ''pr'' ''pr'' ''main'' ''foo'' ''1.3'' ''amd64'' 1 False,
      pool_package ''pr'' ''pr'' ''main'' ''foo'' ''1.0'' ''amd64'' 90 False,
      pool_package ''pr'' ''pr'' ''main'' ''foo'' ''1.2'' ''amd64'' 2 False])
     = [pool_package ''pr'' ''pr'' ''main'' ''foo'' ''1.0'' ''amd64'' 90 False]
   \<and> fst (find_cleanup_candidates default_policy Dpkg_not_found
     [pool_package ''pr'' ''pr'' ''main'' ''foo'' ''1.1'' ''amd64'' 3 False,
      pool_package ''pr'' ''pr'' ''main'' ''foo'' ''1.0~rc1'' ''amd64'' 100 True,
      pool_package ''pr'' ''pr'' ''main'' ''foo'' ''1.3'' ''amd64'' 1 False,
      pool_package ''pr'' ''pr'' ''main'' ''foo'' ''1.0'' ''amd64'' 90 False,
      pool_package ''pr'' ''pr'' ''main'' ''foo'' ''1.2'' ''amd64'' 2 False])
     = [pool_package ''pr'' ''pr'' ''main'' ''foo'' ''1.0~rc1'' ''amd64'' 100 True]"
  by code_simp

section \<open>The two candidate lists\<close>

lemma set_insert_by: "set (insert_by lt x ys) = insert x (set ys)"
  by (induction ys) auto

lemma set_stable_sort_by: "set (stable_sort_by lt xs) = set xs"
  by (induction xs) (auto simp: set_insert_by)

lemma set_py_sorted: "set (py_sorted lt r xs) = set xs"
  by (simp add: py_sorted_def set_stable_sort_by)

lemma version_to_pkg_in: "version_to_pkg g v = Some p \<Longrightarrow> p \<in> set g"
  unfolding version_to_pkg_def by (drule map_of_SomeD) auto

lemma set_map_filter_version: "set (List.map_filter (version_to_pkg g) vs) \<subseteq> set g"
  by (auto simp: List.map_filter_def dest: version_to_pkg_in)

lemma set_sorted_group: "set (sorted_group env g) \<subseteq> set g"
  unfolding sorted_group_def
  using set_map_filter_version[of g] by (auto simp: set_py_sorted split: option.splits)

lemma process_group_shape:
  "\<exists>xs ys. process_group policy env (pre, vl) (k, g) = (pre @ xs, vl @ ys)
     \<and> set xs \<subseteq> set g \<and> set ys \<subseteq> set g
     \<and> pkg_path ` set ys \<inter> pkg_path ` set (pre @ xs) = {}"
proof -
  obtain ch cpn nm ar where k: "k = (ch, cpn, nm, ar)" by (cases k)
  define cp where "cp = (case channel_policies policy ch of
                  None \<Rightarrow> \<lparr>keep_prereleases = None, max_versions = None, max_age_days = None\<rparr>
                | Some d \<Rightarrow> d)"
  define keep where "keep = (case keep_prereleases cp of None \<Rightarrow> True | Some b \<Rightarrow> b)"
  define maxv where "maxv = (case max_versions cp of None \<Rightarrow> max_versions_per_package policy | Some n \<Rightarrow> n)"
  define max_age where "max_age = (case max_age_days cp of None \<Rightarrow> prerelease_max_age_days policy | Some n \<Rightarrow> n)"
  define xs where "xs = (if \<not> keep
                      then filter (\<lambda>pkg. pkg_is_prerelease pkg \<and> pkg_age_days pkg > max_age) g
                      else [])"
  define ys where "ys = (if maxv > 0 \<and> int (length g) > maxv
                     then filter (\<lambda>pkg. pkg_path pkg \<notin> set (map pkg_path (pre @ xs)))
                            (drop (nat maxv) (sorted_group env g))
                     else [])"
  have r: "process_group policy env (pre, vl) (k, g) =
      (if cpn \<in> set (protected_components policy) then (pre, vl)
       else if list_ex (\<lambda>pattern. match_here False pattern nm) (protected_packages policy)
       then (pre, vl) else (pre @ xs, vl @ ys))"
    unfolding process_group_def k cp_def keep_def maxv_def max_age_def xs_def ys_def Let_def
    by (simp only: prod.case)
  have x: "set xs \<subseteq> set g" by (auto simp: xs_def)
  have "set (drop (nat maxv) (sorted_group env g)) \<subseteq> set g"
    using set_sorted_group[of env g] set_drop_subset[of "nat maxv" "sorted_group env g"]
    by (rule_tac subset_trans)
  then have y: "set ys \<subseteq> set g" by (auto simp: ys_def)
  have d: "pkg_path ` set ys \<inter> pkg_path ` set (pre @ xs) = {}"
    by (cases "maxv > 0 \<and> int (length g) > maxv") (auto simp: ys_def)
  show ?thesis
  proof (cases "cpn \<in> set (protected_components policy)
       \<or> list_ex (\<lambda>pattern. match_here False pattern nm) (protected_packages policy)")
    case True
    then have "process_group policy env (pre, vl) (k, g) = (pre @ [], vl @ [])"
      using r by auto
    then show ?thesis by (intro exI[of _ "[]"]) simp
  next
    case False
    then have "process_group policy env (pre, vl) (k, g) = (pre @ xs, vl @ ys)"
      using r by auto
    with x y d show ?thesis by blast
  qed
qed

lemma process_group_disjoint:
  assumes a: "pkg_path ` set (fst acc) \<inter> pkg_path ` set (snd acc) = {}"
    and b: "pkg_path ` set g \<inter> pkg_path ` set (snd acc) = {}"
  shows "pkg_path ` set (fst (process_group policy env acc (k, g)))
           \<inter> pkg_path ` set (snd (process_group policy env acc (k, g))) = {}"
proof -
  obtain pre vl where acc: "acc = (pre, vl)" by (cases acc)
  obtain xs ys where r: "process_group policy env (pre, vl) (k, g) = (pre @ xs, vl @ ys)"
    and x: "set xs \<subseteq> set g" and y: "set ys \<subseteq> set g"
    and d: "pkg_path ` set ys \<inter> pkg_path ` set (pre @ xs) = {}"
    using process_group_shape by blast
  from a b acc have a': "pkg_path ` set pre \<inter> pkg_path ` set vl = {}"
    and b': "pkg_path ` set g \<inter> pkg_path ` set vl = {}" by simp_all
  from x b' have 1: "pkg_path ` set xs \<inter> pkg_path ` set vl = {}" by blast
  have "pkg_path ` set (pre @ xs) \<inter> pkg_path ` set (vl @ ys) = {}"
    using a' 1 d by (simp add: image_Un Int_Un_distrib Int_Un_distrib2 Int_commute)
  then show ?thesis by (simp add: acc r)
qed

lemma process_group_snd:
  "pkg_path ` set (snd (process_group policy env acc (k, g)))
     \<subseteq> pkg_path ` set (snd acc) \<union> pkg_path ` set g"
proof -
  obtain pre vl where acc: "acc = (pre, vl)" by (cases acc)
  obtain xs ys where r: "process_group policy env (pre, vl) (k, g) = (pre @ xs, vl @ ys)"
    and y: "set ys \<subseteq> set g"
    using process_group_shape by blast
  from y have "pkg_path ` set ys \<subseteq> pkg_path ` set g" by blast
  then show ?thesis by (auto simp: acc r)
qed

lemma disjoint_from_cover:
  "A \<inter> B = {} \<Longrightarrow> A \<inter> C = {} \<Longrightarrow> D \<subseteq> B \<union> C \<Longrightarrow> A \<inter> D = {}"
  by blast

lemma foldl_process_group_disjoint:
  "pkg_path ` set (fst acc) \<inter> pkg_path ` set (snd acc) = {} \<Longrightarrow>
   \<forall>kg\<in>set gs. pkg_path ` set (snd kg) \<inter> pkg_path ` set (snd acc) = {} \<Longrightarrow>
   sorted_wrt paths_disjoint gs \<Longrightarrow>
   pkg_path ` set (fst (foldl (process_group policy env) acc gs))
     \<inter> pkg_path ` set (snd (foldl (process_group policy env) acc gs)) = {}"
proof (induction gs arbitrary: acc)
  case Nil
  then show ?case by simp
next
  case (Cons kg gs)
  obtain k g where kg: "kg = (k, g)" by (cases kg)
  define acc' where "acc' = process_group policy env acc (k, g)"
  have b: "pkg_path ` set g \<inter> pkg_path ` set (snd acc) = {}"
    using Cons.prems(2) by (simp add: kg)
  have 1: "pkg_path ` set (fst acc') \<inter> pkg_path ` set (snd acc') = {}"
    unfolding acc'_def by (rule process_group_disjoint[OF Cons.prems(1) b])
  have cover: "pkg_path ` set (snd acc') \<subseteq> pkg_path ` set (snd acc) \<union> pkg_path ` set g"
    unfolding acc'_def by (rule process_group_snd)
  have 2: "\<forall>kg'\<in>set gs. pkg_path ` set (snd kg') \<inter> pkg_path ` set (snd acc') = {}"
  proof
    fix kg' assume in': "kg' \<in> set gs"
    have p: "pkg_path ` set (snd kg') \<inter> pkg_path ` set (snd acc) = {}"
      using Cons.prems(2) in' by simp
    have "paths_disjoint kg kg'" using Cons.prems(3) in' by simp
    then have "pkg_path ` set g \<inter> pkg_path ` set (snd kg') = {}"
      by (simp add: paths_disjoint_def kg)
    then have q: "pkg_path ` set (snd kg') \<inter> pkg_path ` set g = {}"
      by (simp only: Int_commute)
    show "pkg_path ` set (snd kg') \<inter> pkg_path ` set (snd acc') = {}"
      by (rule disjoint_from_cover[OF p q cover])
  qed
  have 3: "sorted_wrt paths_disjoint gs" using Cons.prems(3) by simp
  have "foldl (process_group policy env) acc (kg # gs) = foldl (process_group policy env) acc' gs"
    by (simp add: kg acc'_def)
  then show ?case using Cons.IH[OF 1 2 3] by simp
qed

lemma fst_group_append: "fst ` set (group_append k p gs) = insert k (fst ` set gs)"
proof (induction gs)
  case Nil
  show ?case by simp
next
  case (Cons a gs)
  obtain k' g where a: "a = (k', g)" by (cases a)
  show ?case
  proof (cases "k' = k")
    case True
    then show ?thesis by (simp add: a)
  next
    case False
    then show ?thesis by (simp add: a Cons.IH insert_commute)
  qed
qed

lemma grouped_append:
  "grouped gs S \<Longrightarrow> grouped (group_append (key_of p) p gs) (insert p S)"
proof (induction gs)
  case Nil
  then show ?case by (simp add: grouped_def)
next
  case (Cons a gs)
  obtain k g where a: "a = (k, g)" by (cases a)
  from Cons.prems have t: "grouped gs S" by (auto simp: grouped_def)
  show ?case
  proof (cases "k = key_of p")
    case True
    with Cons.prems a show ?thesis by (auto simp: grouped_def)
  next
    case False
    from Cons.IH[OF t] have ih: "grouped (group_append (key_of p) p gs) (insert p S)" .
    from Cons.prems a have "k \<notin> fst ` set gs" by (auto simp: grouped_def)
    with False have "k \<notin> fst ` set (group_append (key_of p) p gs)"
      by (simp add: fst_group_append)
    with ih Cons.prems a False show ?thesis by (auto simp: grouped_def)
  qed
qed

lemma grouped_foldl:
  "grouped gs S \<Longrightarrow>
   grouped (foldl (\<lambda>gs p. group_append (key_of p) p gs) gs xs) (S \<union> set xs)"
proof (induction xs arbitrary: gs S)
  case Nil
  then show ?case by simp
next
  case (Cons x xs)
  from Cons.IH[OF grouped_append[OF Cons.prems, of x]] show ?case by simp
qed

lemma grouped_package_groups: "grouped (package_groups pkgs) (set pkgs)"
  unfolding package_groups_def using grouped_foldl[of "[]" "{}" pkgs]
  by (simp add: grouped_def)

lemma grouped_paths_disjoint:
  assumes pk: "\<forall>p\<in>S. \<forall>q\<in>S. pkg_path p = pkg_path q \<longrightarrow> key_of p = key_of q"
  shows "grouped gs S \<Longrightarrow> sorted_wrt paths_disjoint gs"
proof (induction gs)
  case Nil
  then show ?case by simp
next
  case (Cons a gs)
  from Cons.prems have t: "grouped gs S" by (auto simp: grouped_def)
  have "\<forall>b\<in>set gs. paths_disjoint a b"
  proof
    fix b assume b: "b \<in> set gs"
    with Cons.prems have ne: "fst a \<noteq> fst b" by (auto simp: grouped_def)
    show "paths_disjoint a b"
      unfolding paths_disjoint_def
    proof (rule ccontr)
      assume "pkg_path ` set (snd a) \<inter> pkg_path ` set (snd b) \<noteq> {}"
      then obtain p q where p: "p \<in> set (snd a)" and q: "q \<in> set (snd b)"
        and e: "pkg_path p = pkg_path q" by auto
      from Cons.prems p have kp: "key_of p = fst a" "p \<in> S" by (auto simp: grouped_def)
      from Cons.prems q b have kq: "key_of q = fst b" "q \<in> S" by (auto simp: grouped_def)
      from pk kp kq e have "key_of p = key_of q" by blast
      with kp kq ne show False by simp
    qed
  qed
  with Cons.IH[OF t] show ?case by simp
qed

text \<open>
  C10, as amended.  When packages of the list with the same path belong to the same group
  (same channel, component, name and architecture), no path occurs both among the
  pre-release candidates and among the version-limit candidates of one call.
\<close>

theorem candidates_disjoint:
  assumes "\<forall>p\<in>set pkgs. \<forall>q\<in>set pkgs. pkg_path p = pkg_path q \<longrightarrow> key_of p = key_of q"
  shows "pkg_path ` set (fst (find_cleanup_candidates policy env pkgs))
           \<inter> pkg_path ` set (snd (find_cleanup_candidates policy env pkgs)) = {}"
  unfolding find_cleanup_candidates_def
  using grouped_paths_disjoint[OF assms grouped_package_groups]
  by (intro foldl_process_group_disjoint) auto

theorem candidates_disjoint_witness:
  "pkg_path ` set (fst (find_cleanup_candidates default_policy Dpkg_not_found
     [pool_package ''pr'' ''pr'' ''main'' ''foo'' ''1.1'' ''amd64'' 3 False,
      pool_package ''pr'' ''pr'' ''main'' ''foo'' ''1.0~rc1'' ''amd64'' 100 True,
      pool_package ''pr'' ''pr'' ''main'' ''foo'' ''1.3'' ''amd64'' 1 False,
      pool_package ''pr'' ''pr'' ''main'' ''foo'' ''1.0'' ''amd64'' 90 False,
      pool_package ''pr'' ''pr'' ''main'' ''foo'' ''1.2'' ''amd64'' 2 False]))
     \<inter> pkg_path ` set (snd (find_cleanup_candidates default_policy Dpkg_not_found
     [pool_package ''pr'' ''pr'' ''main'' ''foo'' ''1.1'' ''amd64'' 3 False,
      pool_package ''pr'' ''pr'' ''main'' ''foo'' ''1.0~rc1'' ''amd64'' 100 True,
      pool_package ''pr'' ''pr'' ''main'' ''foo'' ''1.3'' ''amd64'' 1 False,
      pool_package ''pr'' ''pr'' ''main'' ''foo'' ''1.0'' ''amd64'' 90 False,
      pool_package ''pr'' ''pr'' ''main'' ''foo'' ''1.2'' ''amd64'' 2 False])) = {}"
proof -
  have h: "\<forall>p\<in>set
     [pool_package ''pr'' ''pr'' ''main'' ''foo'' ''1.1'' ''amd64'' 3 False,
      pool_package ''pr'' ''pr'' ''main'' ''foo'' ''1.0~rc1'' ''amd64'' 100 True,
      pool_package ''pr'' ''pr'' ''main'' ''foo'' ''1.3'' ''amd64'' 1 False,
      pool_package ''pr'' ''pr'' ''main'' ''foo'' ''1.0'' ''amd64'' 90 False,
      pool_package ''pr'' ''pr'' ''main'' ''foo'' ''1.2'' ''amd64'' 2 False].
    \<forall>q\<in>set
     [pool_package ''pr'' ''pr'' ''main'' ''foo'' ''1.1'' ''amd64'' 3 False,
      pool_package ''pr'' ''pr'' ''main'' ''foo'' ''1.0~rc1'' ''amd64'' 100 True,
      pool_package ''pr'' ''pr'' ''main'' ''foo'' ''1.3'' ''amd64'' 1 False,
      pool_package ''pr'' ''pr'' ''main'' ''foo'' ''1.0'' ''amd64'' 90 False,
      pool_package ''pr'' ''pr'' ''main'' ''foo'' ''1.2'' ''amd64'' 2 False].
    pkg_path p = pkg_path q \<longrightarrow> key_of p = key_of q"
    by code_simp
  from candidates_disjoint [OF h, of default_policy Dpkg_not_found] show ?thesis .
qed

text \<open>
  The claim as stated fails when one file is listed under two channel names: the
  channel arguments \<open>./pr\<close> and \<open>pr\<close> name the same directory, so the scan yields each
  file twice, with equal paths and different channels.  With
  \<open>max_versions_per_package = 1\<close> the release candidate is a version-limit candidate
  of the group of \<open>./pr\<close> (which has no channel policy) and afterwards a pre-release
  candidate of the group of \<open>pr\<close>.
\<close>

theorem candidates_disjoint_counterexample:
  "pkg_path ` set (fst (find_cleanup_candidates
       (default_policy\<lparr>max_versions_per_package := 1\<rparr>) Dpkg_not_found
     [pool_package ''pr'' ''./pr'' ''main'' ''foo'' ''1.0~rc1'' ''amd64'' 100 True,
      pool_package ''pr'' ''./pr'' ''main'' ''foo'' ''1.1'' ''amd64'' 3 False,
      pool_package ''pr'' ''pr'' ''main'' ''foo'' ''1.0~rc1'' ''amd64'' 100 True,
      pool_package ''pr'' ''pr'' ''main'' ''foo'' ''1.1'' ''amd64'' 3 False]))
   \<inter> pkg_path ` set (snd (find_cleanup_candidates
       (default_policy\<lparr>max_versions_per_package := 1\<rparr>) Dpkg_not_found
     [pool_package ''pr'' ''./pr'' ''main'' ''foo'' ''1.0~rc1'' ''amd64'' 100 True,
      pool_package ''pr'' ''./pr'' ''main'' ''foo'' ''1.1'' ''amd64'' 3 False,
      pool_package ''pr'' ''pr'' ''main'' ''foo'' ''1.0~rc1'' ''amd64'' 100 True,
      pool_package ''pr'' ''pr'' ''main'' ''foo'' ''1.1'' ''amd64'' 3 False])) \<noteq> {}"
  by code_simp

section \<open>Dry run and deletion\<close>

declare remove_empty_parents.simps [simp del]

lemma prefix_butlast_strict:
  assumes "prefix d (butlast g)" and "g \<noteq> []"
  shows "strict_prefix d g"
proof -
  obtain zs where zs: "butlast g = d @ zs" using assms(1) by (auto elim: prefixE)
  have "g = butlast g @ [last g]" using assms(2) by simp
  then have g: "g = d @ (zs @ [last g])" using zs by simp
  then have "prefix d g" by (metis prefixI)
  moreover have "length d < length g" by (subst g) simp
  ultimately show ?thesis by (auto simp: strict_prefix_def)
qed

lemma strict_prefix_butlast:
  assumes "strict_prefix d g"
  shows "prefix d (butlast g)"
proof -
  obtain z zs where g: "g = d @ z # zs" using assms by (auto elim: strict_prefixE')
  have "butlast g = d @ butlast (z # zs)" by (simp add: g butlast_append)
  then show ?thesis by (metis prefixI)
qed

lemma child_on_path:
  assumes "strict_prefix d p"
  shows "\<exists>c. c \<noteq> [] \<and> butlast c = d \<and> prefix c p \<and> strict_prefix d c"
proof -
  obtain z zs where p: "p = d @ z # zs" using assms by (auto elim: strict_prefixE')
  have "prefix (d @ [z]) p" by (simp add: p)
  moreover have "strict_prefix d (d @ [z])" by (simp add: strict_prefix_def)
  ultimately show ?thesis by (intro exI[of _ "d @ [z]"]) simp
qed

lemma has_child_antimono:
  "files b \<subseteq> files a \<Longrightarrow> dirs b \<subseteq> dirs a \<Longrightarrow> has_child b d \<Longrightarrow> has_child a d"
  unfolding has_child_def by blast

lemma rep_files: "files (remove_empty_parents rp t q) = files t"
proof (induction rp t q rule: remove_empty_parents.induct)
  case (1 rp t q)
  show ?case
  proof (cases "q \<noteq> rp \<and> strict_prefix rp q \<and> q \<in> dirs t \<and> \<not> has_child t q")
    case True
    with 1 show ?thesis by (subst remove_empty_parents.simps) simp
  next
    case False
    then show ?thesis by (subst remove_empty_parents.simps) auto
  qed
qed

lemma rep_dirs: "dirs (remove_empty_parents rp t q) \<subseteq> dirs t"
proof (induction rp t q rule: remove_empty_parents.induct)
  case (1 rp t q)
  show ?case
  proof (cases "q \<noteq> rp \<and> strict_prefix rp q \<and> q \<in> dirs t \<and> \<not> has_child t q")
    case True
    with 1 have "dirs (remove_empty_parents rp (t\<lparr>dirs := dirs t - {q}\<rparr>) (butlast q))
        \<subseteq> dirs t - {q}" by simp
    with True show ?thesis by (subst remove_empty_parents.simps) auto
  next
    case False
    then show ?thesis by (subst remove_empty_parents.simps) auto
  qed
qed

lemma rep_removed:
  "d \<in> dirs t \<Longrightarrow> d \<notin> dirs (remove_empty_parents rp t q) \<Longrightarrow>
   strict_prefix rp d \<and> prefix d q \<and> \<not> has_child (remove_empty_parents rp t q) d"
proof (induction rp t q rule: remove_empty_parents.induct)
  case (1 rp t q)
  show ?case
  proof (cases "q \<noteq> rp \<and> strict_prefix rp q \<and> q \<in> dirs t \<and> \<not> has_child t q")
    case True
    define t1 where "t1 = t\<lparr>dirs := dirs t - {q}\<rparr>"
    define r where "r = remove_empty_parents rp t1 (butlast q)"
    have un: "remove_empty_parents rp t q = r"
      using True by (subst remove_empty_parents.simps) (simp add: r_def t1_def)
    have rf: "files r = files t" unfolding r_def by (simp add: rep_files t1_def)
    have rd: "dirs r \<subseteq> dirs t" using rep_dirs[of rp t1 "butlast q"] by (auto simp: r_def t1_def)
    show ?thesis
    proof (cases "d = q")
      case True': True
      have "\<not> has_child r q"
        using True has_child_antimono[of r t q] rf rd by auto
      with True True' un show ?thesis by simp
    next
      case False
      with 1(2) have din: "d \<in> dirs t1" by (simp add: t1_def)
      from 1(3) un have dout: "d \<notin> dirs (remove_empty_parents rp t1 (butlast q))"
        by (simp add: r_def)
      have ih: "strict_prefix rp d \<and> prefix d (butlast q)
          \<and> \<not> has_child (remove_empty_parents rp t1 (butlast q)) d"
        using 1(1) True din dout by (simp add: t1_def)
      from True have "q \<noteq> []" by auto
      with ih have "prefix d q" using prefix_butlast_strict by (auto simp: strict_prefix_def)
      with ih un show ?thesis by (simp add: r_def)
    qed
  next
    case False
    then have "remove_empty_parents rp t q = t"
      by (subst remove_empty_parents.simps) auto
    with 1(2,3) show ?thesis by simp
  qed
qed

lemma rep_removes:
  assumes "strict_prefix rp q" and "q \<in> dirs t" and "\<not> has_child t q"
  shows "q \<notin> dirs (remove_empty_parents rp t q)"
proof -
  have ne: "q \<noteq> rp" using assms(1) by (auto simp: strict_prefix_def)
  have "remove_empty_parents rp t q
      = remove_empty_parents rp (t\<lparr>dirs := dirs t - {q}\<rparr>) (butlast q)"
    using assms ne by (subst remove_empty_parents.simps) simp
  moreover have "dirs (remove_empty_parents rp (t\<lparr>dirs := dirs t - {q}\<rparr>) (butlast q))
      \<subseteq> dirs t - {q}"
    using rep_dirs[of rp "t\<lparr>dirs := dirs t - {q}\<rparr>" "butlast q"] by simp
  ultimately show ?thesis by auto
qed

lemma has_child_remove_dir:
  assumes "has_child t d" and "\<not> has_child (t\<lparr>dirs := dirs t - {q}\<rparr>) d"
  shows "q \<noteq> [] \<and> butlast q = d"
proof -
  obtain p where p: "p \<in> files t \<union> dirs t" "p \<noteq> []" "butlast p = d"
    using assms(1) by (auto simp: has_child_def)
  have "p = q"
  proof (rule ccontr)
    assume "p \<noteq> q"
    with p have "has_child (t\<lparr>dirs := dirs t - {q}\<rparr>) d"
      by (auto simp: has_child_def)
    with assms(2) show False by simp
  qed
  with p show ?thesis by simp
qed

lemma rep_keeps_child:
  "d \<in> dirs (remove_empty_parents rp t q) \<Longrightarrow> strict_prefix rp d \<Longrightarrow> has_child t d \<Longrightarrow>
   has_child (remove_empty_parents rp t q) d"
proof (induction rp t q rule: remove_empty_parents.induct)
  case (1 rp t q)
  show ?case
  proof (cases "q \<noteq> rp \<and> strict_prefix rp q \<and> q \<in> dirs t \<and> \<not> has_child t q")
    case True
    define t1 where "t1 = t\<lparr>dirs := dirs t - {q}\<rparr>"
    have un: "remove_empty_parents rp t q = remove_empty_parents rp t1 (butlast q)"
      using True by (subst remove_empty_parents.simps) (simp add: t1_def)
    have din: "d \<in> dirs (remove_empty_parents rp t1 (butlast q))" using 1(2) un by simp
    show ?thesis
    proof (cases "has_child t1 d")
      case True': True
      have "has_child (remove_empty_parents rp t1 (butlast q)) d"
        using 1(1) True din 1(3) True' by (simp add: t1_def)
      with un show ?thesis by simp
    next
      case False
      with 1(4) have bq: "butlast q = d"
        using has_child_remove_dir[of t d q] by (simp add: t1_def)
      have "d \<in> dirs t1" using din rep_dirs[of rp t1 "butlast q"] by auto
      then have "d \<notin> dirs (remove_empty_parents rp t1 d)"
        using rep_removes[OF 1(3) _ False] by simp
      with din bq show ?thesis by simp
    qed
  next
    case False
    then have "remove_empty_parents rp t q = t"
      by (subst remove_empty_parents.simps) auto
    with 1(4) show ?thesis by simp
  qed
qed

lemma wf_tree_iff:
  "wf_tree rp t =
     (\<forall>p \<in> files t \<union> dirs t. \<forall>d. strict_prefix rp d \<and> strict_prefix d p \<longrightarrow> d \<in> dirs t)"
  unfolding wf_tree_def Ball_def in_set_prefixes strict_prefix_def by blast

lemma wf_tree_child:
  assumes wf: "wf_tree rp t" and p: "p \<in> files t \<union> dirs t"
    and d: "strict_prefix rp d" "strict_prefix d p"
  shows "has_child t d"
proof -
  obtain c where c: "c \<noteq> []" "butlast c = d" "prefix c p" "strict_prefix d c"
    using child_on_path[OF d(2)] by blast
  have "c \<in> files t \<union> dirs t"
  proof (cases "c = p")
    case True
    with p show ?thesis by simp
  next
    case False
    with c(3) have "strict_prefix c p" by (simp add: strict_prefix_def)
    moreover have "strict_prefix rp c" using d(1) c(4) by (rule prefix_order.less_trans)
    ultimately have "c \<in> dirs t" using wf p by (auto simp: wf_tree_iff)
    then show ?thesis by simp
  qed
  with c show ?thesis by (auto simp: has_child_def)
qed

lemma wf_tree_remove_file: "wf_tree rp t \<Longrightarrow> wf_tree rp (t\<lparr>files := files t - {g}\<rparr>)"
  by (auto simp: wf_tree_iff)

lemma wf_tree_remove_empty_dir:
  assumes wf: "wf_tree rp t" and q: "strict_prefix rp q" "\<not> has_child t q"
  shows "wf_tree rp (t\<lparr>dirs := dirs t - {q}\<rparr>)"
  unfolding wf_tree_iff
proof (intro ballI allI impI)
  fix p d
  assume p: "p \<in> files (t\<lparr>dirs := dirs t - {q}\<rparr>) \<union> dirs (t\<lparr>dirs := dirs t - {q}\<rparr>)"
    and d: "strict_prefix rp d \<and> strict_prefix d p"
  from p have pin: "p \<in> files t \<union> dirs t" by auto
  with wf d have din: "d \<in> dirs t" by (auto simp: wf_tree_iff)
  have "d \<noteq> q"
  proof
    assume "d = q"
    with d have "strict_prefix q p" by simp
    from wf_tree_child[OF wf pin q(1) this] q(2) show False by simp
  qed
  with din show "d \<in> dirs (t\<lparr>dirs := dirs t - {q}\<rparr>)" by simp
qed

lemma rep_wf: "wf_tree rp t \<Longrightarrow> wf_tree rp (remove_empty_parents rp t q)"
proof (induction rp t q rule: remove_empty_parents.induct)
  case (1 rp t q)
  show ?case
  proof (cases "q \<noteq> rp \<and> strict_prefix rp q \<and> q \<in> dirs t \<and> \<not> has_child t q")
    case True
    then have "wf_tree rp (t\<lparr>dirs := dirs t - {q}\<rparr>)"
      using wf_tree_remove_empty_dir[OF 1(2)] by simp
    with 1(1) True
    have "wf_tree rp (remove_empty_parents rp (t\<lparr>dirs := dirs t - {q}\<rparr>) (butlast q))"
      by simp
    with True show ?thesis by (subst remove_empty_parents.simps) simp
  next
    case False
    then have "remove_empty_parents rp t q = t"
      by (subst remove_empty_parents.simps) auto
    with 1(2) show ?thesis by simp
  qed
qed

lemma unlink_step:
  assumes wf: "wf_tree rp t" and td: "tidy rp t D" and g: "g \<in> files t"
  shows "wf_tree rp (remove_empty_parents rp (t\<lparr>files := files t - {g}\<rparr>) (butlast g))
    \<and> tidy rp (remove_empty_parents rp (t\<lparr>files := files t - {g}\<rparr>) (butlast g))
        (insert g D)"
proof -
  define tu where "tu = t\<lparr>files := files t - {g}\<rparr>"
  define t1 where "t1 = remove_empty_parents rp tu (butlast g)"
  have wfu: "wf_tree rp tu" unfolding tu_def using wf by (rule wf_tree_remove_file)
  have wf1: "wf_tree rp t1" unfolding t1_def using wfu by (rule rep_wf)
  have d1: "dirs t1 \<subseteq> dirs t" using rep_dirs[of rp tu "butlast g"] by (simp add: t1_def tu_def)
  have "tidy rp t1 (insert g D)"
    unfolding tidy_def
  proof (intro ballI impI)
    fix d assume din: "d \<in> dirs t1"
      and h: "strict_prefix rp d \<and> (\<exists>p\<in>insert g D. strict_prefix d p)"
    from h obtain p where p: "p \<in> insert g D" "strict_prefix d p" by blast
    from h have sd: "strict_prefix rp d" by simp
    from din d1 have dt: "d \<in> dirs t" by auto
    have hc: "has_child t d"
    proof (cases "p = g")
      case True
      with g have "p \<in> files t \<union> dirs t" by simp
      from wf_tree_child[OF wf this sd p(2)] show ?thesis .
    next
      case False
      with p have "p \<in> D" by simp
      with td dt sd p(2) show ?thesis by (auto simp: tidy_def)
    qed
    show "has_child t1 d"
    proof (cases "has_child tu d")
      case True
      from rep_keeps_child[OF din[unfolded t1_def] sd True] show ?thesis by (simp add: t1_def)
    next
      case False
      obtain c where c: "c \<in> files t \<union> dirs t" "c \<noteq> []" "butlast c = d"
        using hc by (auto simp: has_child_def)
      have "c = g"
      proof (rule ccontr)
        assume "c \<noteq> g"
        with c have "has_child tu d" by (auto simp: has_child_def tu_def)
        with False show False by simp
      qed
      with c have bg: "butlast g = d" by simp
      have "d \<in> dirs tu" using dt by (simp add: tu_def)
      from rep_removes[OF sd this False] have "d \<notin> dirs t1" by (simp add: t1_def bg)
      with din show ?thesis by simp
    qed
  qed
  with wf1 show ?thesis by (simp add: t1_def tu_def)
qed

lemma loop_dry:
  "cleanup_loop rp True cs (t, dl, fl) = (t, dl @ map pkg_path cs, fl)"
  by (induction cs arbitrary: dl) auto

lemma loop_files_dirs:
  "files (fst (cleanup_loop rp False cs (t, dl, fl))) = files t - pkg_path ` set cs
   \<and> dirs (fst (cleanup_loop rp False cs (t, dl, fl))) \<subseteq> dirs t"
proof (induction cs arbitrary: t dl fl)
  case Nil
  show ?case by simp
next
  case (Cons pkg cs)
  show ?case
  proof (cases "pkg_path pkg \<in> files t")
    case True
    define t1 where "t1 = remove_empty_parents rp (t\<lparr>files := files t - {pkg_path pkg}\<rparr>)
        (butlast (pkg_path pkg))"
    have f1: "files t1 = files t - {pkg_path pkg}" by (simp add: t1_def rep_files)
    have d1: "dirs t1 \<subseteq> dirs t"
      using rep_dirs[of rp "t\<lparr>files := files t - {pkg_path pkg}\<rparr>" "butlast (pkg_path pkg)"]
      by (simp add: t1_def)
    have st: "cleanup_loop rp False (pkg # cs) (t, dl, fl)
        = cleanup_loop rp False cs (t1, dl @ [pkg_path pkg], fl)"
      using True by (simp add: t1_def)
    from Cons[of t1 "dl @ [pkg_path pkg]" fl] f1 d1 show ?thesis
      unfolding st by auto
  next
    case False
    have st: "cleanup_loop rp False (pkg # cs) (t, dl, fl)
        = cleanup_loop rp False cs (t, dl, fl @ [pkg_path pkg])"
      using False by simp
    from Cons[of t dl "fl @ [pkg_path pkg]"] False show ?thesis
      unfolding st by auto
  qed
qed

lemma loop_removed:
  "d \<in> dirs t \<Longrightarrow> d \<notin> dirs (fst (cleanup_loop rp False cs (t, dl, fl))) \<Longrightarrow>
   strict_prefix rp d \<and> \<not> has_child (fst (cleanup_loop rp False cs (t, dl, fl))) d
   \<and> (\<exists>p \<in> pkg_path ` set cs \<inter> files t. strict_prefix d p)"
proof (induction cs arbitrary: t dl fl)
  case Nil
  then show ?case by simp
next
  case (Cons pkg cs)
  show ?case
  proof (cases "pkg_path pkg \<in> files t")
    case True
    define g where "g = pkg_path pkg"
    define tu where "tu = t\<lparr>files := files t - {g}\<rparr>"
    define t1 where "t1 = remove_empty_parents rp tu (butlast g)"
    define r where "r = fst (cleanup_loop rp False cs (t1, dl @ [g], fl))"
    have st: "fst (cleanup_loop rp False (pkg # cs) (t, dl, fl)) = r"
      using True by (simp add: r_def t1_def tu_def g_def)
    have f1: "files t1 = files t - {g}" by (simp add: t1_def tu_def rep_files)
    have rsub: "files r \<subseteq> files t1" "dirs r \<subseteq> dirs t1"
      using loop_files_dirs[of rp cs t1 "dl @ [g]" fl] by (auto simp: r_def)
    from Cons.prems(2) st have dr: "d \<notin> dirs r" by simp
    show ?thesis
    proof (cases "d \<in> dirs t1")
      case True': True
      from Cons.IH[OF True', of "dl @ [g]" fl] dr
      have ih: "strict_prefix rp d \<and> \<not> has_child r d
          \<and> (\<exists>p \<in> pkg_path ` set cs \<inter> files t1. strict_prefix d p)"
        by (simp add: r_def)
      then obtain p where "p \<in> pkg_path ` set cs \<inter> files t1" "strict_prefix d p" by blast
      with f1 have "p \<in> pkg_path ` set (pkg # cs) \<inter> files t" "strict_prefix d p" by auto
      with ih st show ?thesis by auto
    next
      case False
      have "d \<in> dirs tu" using Cons.prems(1) by (simp add: tu_def)
      from rep_removed[OF this False[unfolded t1_def]]
      have a: "strict_prefix rp d" "prefix d (butlast g)" "\<not> has_child t1 d"
        by (simp_all add: t1_def)
      have "d \<noteq> []" using a(1) by auto
      with a(2) have "g \<noteq> []" by auto
      with a(2) have "strict_prefix d g" by (rule prefix_butlast_strict)
      moreover have "g \<in> pkg_path ` set (pkg # cs) \<inter> files t"
        using True by (simp add: g_def)
      moreover have "\<not> has_child r d"
        using a(3) has_child_antimono[OF rsub] by blast
      ultimately show ?thesis using a(1) st by blast
    qed
  next
    case False
    have st: "cleanup_loop rp False (pkg # cs) (t, dl, fl)
        = cleanup_loop rp False cs (t, dl, fl @ [pkg_path pkg])"
      using False by simp
    from Cons.IH[OF Cons.prems(1), of dl "fl @ [pkg_path pkg]"] Cons.prems(2)
    show ?thesis unfolding st by auto
  qed
qed

lemma loop_tidy:
  "wf_tree rp t \<Longrightarrow> tidy rp t D \<Longrightarrow>
   tidy rp (fst (cleanup_loop rp False cs (t, dl, fl))) (D \<union> (pkg_path ` set cs \<inter> files t))"
proof (induction cs arbitrary: t dl fl D)
  case Nil
  then show ?case by simp
next
  case (Cons pkg cs)
  show ?case
  proof (cases "pkg_path pkg \<in> files t")
    case True
    define g where "g = pkg_path pkg"
    define t1 where "t1 = remove_empty_parents rp (t\<lparr>files := files t - {g}\<rparr>) (butlast g)"
    have st: "cleanup_loop rp False (pkg # cs) (t, dl, fl)
        = cleanup_loop rp False cs (t1, dl @ [g], fl)"
      using True by (simp add: t1_def g_def)
    have f1: "files t1 = files t - {g}" by (simp add: t1_def rep_files)
    from unlink_step[OF Cons.prems(1,2) True[folded g_def]]
    have s: "wf_tree rp t1" "tidy rp t1 (insert g D)" by (simp_all add: t1_def)
    have e: "insert g D \<union> (pkg_path ` set cs \<inter> files t1)
        = D \<union> (pkg_path ` set (pkg # cs) \<inter> files t)"
      using True f1 by (auto simp: g_def)
    from Cons.IH[OF s, of "dl @ [g]" fl] show ?thesis unfolding st e .
  next
    case False
    have st: "cleanup_loop rp False (pkg # cs) (t, dl, fl)
        = cleanup_loop rp False cs (t, dl, fl @ [pkg_path pkg])"
      using False by simp
    have e: "D \<union> (pkg_path ` set (pkg # cs) \<inter> files t) = D \<union> (pkg_path ` set cs \<inter> files t)"
      using False by auto
    from Cons.IH[OF Cons.prems, of dl "fl @ [pkg_path pkg]"] show ?thesis unfolding st e .
  qed
qed

lemma paths_dedup: "pkg_path ` set (dedup_by_path xs) = pkg_path ` set xs"
proof (induction xs rule: dedup_by_path.induct)
  case 1
  show ?case by simp
next
  case (2 p ps)
  have "pkg_path ` set (filter (\<lambda>q. pkg_path q \<noteq> pkg_path p) ps)
      = pkg_path ` set ps - {pkg_path p}" by auto
  with 2 show ?case by auto
qed

text \<open>
  C9.  For every pair of candidate lists, whatever the order in which the set of
  candidates is listed: in dry-run mode, which is the default, \<open>cleanup\<close> leaves the tree
  as it is and only reports the candidates' paths; in execute mode the files of the
  resulting tree are the files of the tree without the candidates' paths; directories
  are only removed, and a removed directory lies strictly inside \<open>repo_path\<close>, lies above
  a candidate file that was deleted, and is empty; in a well-formed tree no directory
  strictly inside \<open>repo_path\<close> above a deleted candidate is left empty; and \<open>repo_path\<close>
  itself is never removed.
\<close>

theorem cleanup_dry_run_and_execute:
  assumes perm: "mset (set_order (dedup_by_path (pre @ vl))) = mset (dedup_by_path (pre @ vl))"
    and wf: "wf_tree repo_path t"
  shows "res_tree (cleanup set_order repo_path t pre vl True) = t
     \<and> res_tree (cleanup set_order repo_path t pre vl dry_run_default) = t
     \<and> res_deleted (cleanup set_order repo_path t pre vl True)
         = map pkg_path (set_order (dedup_by_path (pre @ vl)))
     \<and> files (res_tree (cleanup set_order repo_path t pre vl False))
         = files t - pkg_path ` set (pre @ vl)
     \<and> dirs (res_tree (cleanup set_order repo_path t pre vl False)) \<subseteq> dirs t
     \<and> (\<forall>d \<in> dirs t - dirs (res_tree (cleanup set_order repo_path t pre vl False)).
           strict_prefix repo_path d
           \<and> \<not> has_child (res_tree (cleanup set_order repo_path t pre vl False)) d
           \<and> (\<exists>p \<in> pkg_path ` set (pre @ vl) \<inter> files t. strict_prefix d p))
     \<and> tidy repo_path (res_tree (cleanup set_order repo_path t pre vl False))
           (pkg_path ` set (pre @ vl) \<inter> files t)
     \<and> (repo_path \<in> dirs t
           \<longrightarrow> repo_path \<in> dirs (res_tree (cleanup set_order repo_path t pre vl False)))"
proof -
  define cs where "cs = set_order (dedup_by_path (pre @ vl))"
  define r where "r = fst (cleanup_loop repo_path False cs (t, [], []))"
  have "set cs = set (dedup_by_path (pre @ vl))"
    unfolding cs_def using perm by (rule mset_eq_setD)
  then have ps: "pkg_path ` set cs = pkg_path ` set (pre @ vl)"
    by (simp only: paths_dedup)
  have rt: "res_tree (cleanup set_order repo_path t pre vl False) = r"
    by (simp add: cleanup_def r_def cs_def Let_def split: prod.splits)
  have 1: "res_tree (cleanup set_order repo_path t pre vl True) = t"
    by (simp add: cleanup_def loop_dry Let_def)
  have 2: "res_tree (cleanup set_order repo_path t pre vl dry_run_default) = t"
    by (simp add: cleanup_def loop_dry Let_def dry_run_default_def)
  have 3: "res_deleted (cleanup set_order repo_path t pre vl True)
         = map pkg_path (set_order (dedup_by_path (pre @ vl)))"
    by (simp add: cleanup_def loop_dry Let_def)
  have 4: "files r = files t - pkg_path ` set (pre @ vl)"
    using loop_files_dirs[of repo_path cs t "[]" "[]"] by (simp add: r_def ps)
  have 5: "dirs r \<subseteq> dirs t"
    using loop_files_dirs[of repo_path cs t "[]" "[]"] by (simp add: r_def)
  have 6: "\<forall>d \<in> dirs t - dirs r. strict_prefix repo_path d \<and> \<not> has_child r d
           \<and> (\<exists>p \<in> pkg_path ` set (pre @ vl) \<inter> files t. strict_prefix d p)"
  proof
    fix d assume "d \<in> dirs t - dirs r"
    then have "d \<in> dirs t" "d \<notin> dirs (fst (cleanup_loop repo_path False cs (t, [], [])))"
      by (simp_all add: r_def)
    from loop_removed[OF this] show "strict_prefix repo_path d \<and> \<not> has_child r d
           \<and> (\<exists>p \<in> pkg_path ` set (pre @ vl) \<inter> files t. strict_prefix d p)"
      by (simp add: r_def ps)
  qed
  have "tidy repo_path t {}" by (simp add: tidy_def)
  from loop_tidy[OF wf this, of cs "[]" "[]"]
  have 7: "tidy repo_path r (pkg_path ` set (pre @ vl) \<inter> files t)"
    by (simp add: r_def ps)
  have 8: "repo_path \<in> dirs t \<longrightarrow> repo_path \<in> dirs r"
  proof
    assume a: "repo_path \<in> dirs t"
    show "repo_path \<in> dirs r"
    proof (rule ccontr)
      assume "repo_path \<notin> dirs r"
      with a 6 have "strict_prefix repo_path repo_path" by blast
      then show False by simp
    qed
  qed
  from 1 2 3 4 5 6 7 8 show ?thesis unfolding rt by blast
qed

theorem cleanup_dry_run_and_execute_witness:
  "res_tree (cleanup rev [''repo''] example_tree
       [pool_package ''pr'' ''pr'' ''main'' ''bar'' ''0.9~rc1'' ''amd64'' 100 True]
       [pool_package ''pr'' ''pr'' ''main'' ''foo'' ''1.0'' ''amd64'' 50 False] True) = example_tree
   \<and> files (res_tree (cleanup rev [''repo''] example_tree
       [pool_package ''pr'' ''pr'' ''main'' ''bar'' ''0.9~rc1'' ''amd64'' 100 True]
       [pool_package ''pr'' ''pr'' ''main'' ''foo'' ''1.0'' ''amd64'' 50 False] False))
     = {[''repo'', ''.nojekyll''],
        [''repo'', ''pr'', ''pool'', ''main'', ''f'', ''foo'', ''foo_1.1_amd64.deb'']}
   \<and> dirs (res_tree (cleanup rev [''repo''] example_tree
       [pool_package ''pr'' ''pr'' ''main'' ''bar'' ''0.9~rc1'' ''amd64'' 100 True]
       [pool_package ''pr'' ''pr'' ''main'' ''foo'' ''1.0'' ''amd64'' 50 False] False))
     = {[''repo''], [''repo'', ''pr''], [''repo'', ''pr'', ''pool''],
        [''repo'', ''pr'', ''pool'', ''main''],
        [''repo'', ''pr'', ''pool'', ''main'', ''f''],
        [''repo'', ''pr'', ''pool'', ''main'', ''f'', ''foo'']}"
proof -
  have perm: "mset (rev (dedup_by_path
       ([pool_package ''pr'' ''pr'' ''main'' ''bar'' ''0.9~rc1'' ''amd64'' 100 True] @
        [pool_package ''pr'' ''pr'' ''main'' ''foo'' ''1.0'' ''amd64'' 50 False])))
     = mset (dedup_by_path
       ([pool_package ''pr'' ''pr'' ''main'' ''bar'' ''0.9~rc1'' ''amd64'' 100 True] @
        [pool_package ''pr'' ''pr'' ''main'' ''foo'' ''1.0'' ''amd64'' 50 False]))"
    by simp
  have wf: "wf_tree [''repo''] example_tree"
    by code_simp
  have d: "dirs (res_tree (cleanup rev [''repo''] example_tree
       [pool_package ''pr'' ''pr'' ''main'' ''bar'' ''0.9~rc1'' ''amd64'' 100 True]
       [pool_package ''pr'' ''pr'' ''main'' ''foo'' ''1.0'' ''amd64'' 50 False] False))
     = {[''repo''], [''repo'', ''pr''], [''repo'', ''pr'', ''pool''],
        [''repo'', ''pr'', ''pool'', ''main''],
        [''repo'', ''pr'', ''pool'', ''main'', ''f''],
        [''repo'', ''pr'', ''pool'', ''main'', ''f'', ''foo'']}"
    by code_simp
  have f: "files example_tree - pkg_path ` set
       ([pool_package ''pr'' ''pr'' ''main'' ''bar'' ''0.9~rc1'' ''amd64'' 100 True] @
        [pool_package ''pr'' ''pr'' ''main'' ''foo'' ''1.0'' ''amd64'' 50 False])
     = {[''repo'', ''.nojekyll''],
        [''repo'', ''pr'', ''pool'', ''main'', ''f'', ''foo'', ''foo_1.1_amd64.deb'']}"
    by code_simp
  from cleanup_dry_run_and_execute
    [where set_order = rev and repo_path = "[''repo'']" and t = example_tree
       and pre = "[pool_package ''pr'' ''pr'' ''main'' ''bar'' ''0.9~rc1'' ''amd64'' 100 True]"
       and vl = "[pool_package ''pr'' ''pr'' ''main'' ''foo'' ''1.0'' ''amd64'' 50 False]",
     OF perm wf] d f
  show ?thesis by simp
qed

section \<open>Publisher: the reconciliation\<close>

subsection \<open>The commands of each case\<close>

lemmas step_defs = seq_def bind_def return_def sys_exit_def logger_def run_def aptly_run_def
  final_state_def cmds_def

lemma cmds_reconcile_bootstrap:
  "cmds (reconcile sy cfg ws snap False comps) s =
      [(None, [''aptly'', ''-config='' @ aptly_cfg ws, ''publish'', ''snapshot'',
               ''-distribution'', distro cfg, ''-component'', component cfg,
               ''-force-overwrite''] @ sign_opts cfg @ [snap, channel cfg])]"
  by (simp add: reconcile_def step_defs case_prod_beta Let_def)

lemma cmds_reconcile_switch:
  "component cfg \<in> set comps \<Longrightarrow> cmds (reconcile sy cfg ws snap True comps) s =
       [(None, [''aptly'', ''-config='' @ aptly_cfg ws, ''publish'', ''switch'',
                ''-component'', component cfg, ''-force-overwrite''] @ sign_opts cfg @
                [distro cfg, channel cfg, snap])]"
  by (simp add: reconcile_def step_defs case_prod_beta Let_def)

lemma cmds_reconcile_add_failed:
  "component cfg \<notin> set comps \<Longrightarrow>
   fst (exec sy None [''aptly'', ''-config='' @ aptly_cfg ws, ''publish'', ''add'',
          distro cfg, channel cfg, snap, component cfg] (world s)) \<noteq> 0 \<Longrightarrow>
   cmds (reconcile sy cfg ws snap True comps) s =
       [(None, [''aptly'', ''-config='' @ aptly_cfg ws, ''publish'', ''add'',
                distro cfg, channel cfg, snap, component cfg])]"
  by (simp add: reconcile_def step_defs case_prod_beta Let_def)

lemma cmds_reconcile_add_ok:
  "component cfg \<notin> set comps \<Longrightarrow>
   fst (exec sy None [''aptly'', ''-config='' @ aptly_cfg ws, ''publish'', ''add'',
          distro cfg, channel cfg, snap, component cfg] (world s)) = 0 \<Longrightarrow>
   cmds (reconcile sy cfg ws snap True comps) s =
       [(None, [''aptly'', ''-config='' @ aptly_cfg ws, ''publish'', ''add'',
                distro cfg, channel cfg, snap, component cfg]),
        (None, [''aptly'', ''-config='' @ aptly_cfg ws, ''publish'', ''update''] @
                sign_opts cfg @ [distro cfg, channel cfg])]"
  by (simp add: reconcile_def step_defs case_prod_beta Let_def)

lemma cmds_script_bootstrap:
  "cmds (script_reconcile sy cfg ws snap True ce) s =
      [(None, [''aptly'', ''-config='' @ aptly_cfg ws, ''publish'', ''snapshot'',
               ''-distribution'', distro cfg, ''-component'', component cfg] @
               script_sign_opts cfg @ [snap, channel cfg])]"
  by (simp add: script_reconcile_def snapshot_opts_def step_defs case_prod_beta Let_def)

lemma cmds_script_switch:
  "cmds (script_reconcile sy cfg ws snap False True) s =
      [(None, [''aptly'', ''-config='' @ aptly_cfg ws, ''publish'', ''switch'',
               ''-component'', component cfg] @ script_sign_opts cfg @
               [distro cfg, channel cfg, snap])]"
  by (simp add: script_reconcile_def switch_opts_def step_defs case_prod_beta Let_def)

lemma cmds_script_add_ok:
  "fst (exec sy None [''aptly'', ''-config='' @ aptly_cfg ws, ''publish'', ''source'', ''add'',
          ''-prefix='' @ channel cfg, ''-component'', component cfg, distro cfg, snap]
          (world s)) = 0 \<Longrightarrow>
   cmds (script_reconcile sy cfg ws snap False False) s =
      [(None, [''aptly'', ''-config='' @ aptly_cfg ws, ''publish'', ''source'', ''add'',
               ''-prefix='' @ channel cfg, ''-component'', component cfg, distro cfg, snap]),
       (None, [''aptly'', ''-config='' @ aptly_cfg ws, ''publish'', ''update''] @
               update_opts cfg @ [distro cfg, channel cfg])]"
  by (simp add: script_reconcile_def add_opts_def step_defs case_prod_beta Let_def)

lemma cmds_script_add_failed:
  "fst (exec sy None [''aptly'', ''-config='' @ aptly_cfg ws, ''publish'', ''source'', ''add'',
          ''-prefix='' @ channel cfg, ''-component'', component cfg, distro cfg, snap]
          (world s)) \<noteq> 0 \<Longrightarrow>
   take 2 (cmds (script_reconcile sy cfg ws snap False False) s) =
      [(None, [''aptly'', ''-config='' @ aptly_cfg ws, ''publish'', ''source'', ''add'',
               ''-prefix='' @ channel cfg, ''-component'', component cfg, distro cfg, snap]),
       (None, [''aptly'', ''-config='' @ aptly_cfg ws, ''publish'', ''source'', ''replace'',
               ''-prefix='' @ channel cfg, ''-component'', component cfg, distro cfg, snap])]
   \<and> drop 2 (cmds (script_reconcile sy cfg ws snap False False) s) =
      (if fst (exec sy None [''aptly'', ''-config='' @ aptly_cfg ws, ''publish'', ''source'',
               ''replace'', ''-prefix='' @ channel cfg, ''-component'', component cfg,
               distro cfg, snap]
             (snd (exec sy None [''aptly'', ''-config='' @ aptly_cfg ws, ''publish'', ''source'',
               ''add'', ''-prefix='' @ channel cfg, ''-component'', component cfg, distro cfg, snap]
               (world s)))) \<noteq> 0
       then []
       else [(None, [''aptly'', ''-config='' @ aptly_cfg ws, ''publish'', ''update''] @
               update_opts cfg @ [distro cfg, channel cfg])])"
  by (simp add: script_reconcile_def add_opts_def replace_opts_def step_defs case_prod_beta Let_def)

lemma classify_simps:
  "classify (cw, ''aptly'' # c # ''publish'' # ''snapshot'' # r) = Some Bootstrap"
  "classify (cw, ''aptly'' # c # ''publish'' # ''switch'' # r) = Some Switch"
  "classify (cw, ''aptly'' # c # ''publish'' # ''add'' # r) = Some Add"
  "classify (cw, ''aptly'' # c # ''publish'' # ''source'' # ''add'' # r) = Some Add"
  "classify (cw, ''aptly'' # c # ''publish'' # ''source'' # ''replace'' # r) = Some Replace"
  "classify (cw, ''aptly'' # c # ''publish'' # ''update'' # r) = None"
  "classify (cw, ''rsync'' # r) = None"
  "classify (cw, ''git'' # r) = None"
  by (simp_all add: classify_def)

lemma transitions_simps:
  "transitions [] = []"
  "transitions (e # es) = (case classify e of None \<Rightarrow> transitions es | Some t \<Rightarrow> t # transitions es)"
  "transitions (xs @ ys) = transitions xs @ transitions ys"
  by (simp_all add: transitions_def List.map_filter_def split: option.splits)

subsection \<open>The commands of a sequence\<close>

lemma final_state_bind:
  "final_state (bind m f s) =
     (case m s of Done a s' \<Rightarrow> final_state (f a s') | Exit n s' \<Rightarrow> s' | Raised s' \<Rightarrow> s')"
  by (simp add: bind_def final_state_def split: outcome.splits)

lemma trace_bind:
  assumes m: "prefix (trace s) (trace (final_state (m s)))"
    and f: "\<And>a s'. prefix (trace s') (trace (final_state (f a s')))"
  shows "prefix (trace s) (trace (final_state (bind m f s)))"
proof (cases "m s")
  case (Done a s')
  with m have "prefix (trace s) (trace s')" by (simp add: final_state_def)
  moreover have "prefix (trace s') (trace (final_state (f a s')))" by (rule f)
  ultimately show ?thesis using Done by (simp add: bind_def)
next
  case (Exit n s')
  with m show ?thesis by (simp add: bind_def final_state_def)
next
  case (Raised s')
  with m show ?thesis by (simp add: bind_def final_state_def)
qed

lemma trace_seq:
  assumes "prefix (trace s) (trace (final_state (m s)))"
    and "\<And>s'. prefix (trace s') (trace (final_state (k s')))"
  shows "prefix (trace s) (trace (final_state (seq m k s)))"
  unfolding seq_def using assms by (rule trace_bind)

lemma trace_run: "prefix (trace s) (trace (final_state (run sy cwd c chk s)))"
  by (simp add: run_def final_state_def case_prod_beta Let_def)

lemma trace_aptly_run: "prefix (trace s) (trace (final_state (aptly_run sy ws args chk s)))"
  by (simp add: aptly_run_def trace_run)

lemma trace_logger: "prefix (trace s) (trace (final_state (logger l msg s)))"
  by (simp add: logger_def final_state_def)

lemma trace_return: "prefix (trace s) (trace (final_state (return a s)))"
  by (simp add: return_def final_state_def)

lemma trace_sys_exit: "prefix (trace s) (trace (final_state (sys_exit n s)))"
  by (simp add: sys_exit_def final_state_def)

lemmas trace_intros = trace_seq trace_bind trace_run trace_aptly_run trace_logger trace_return
  trace_sys_exit

lemma cmds_seq:
  assumes m: "prefix (trace s) (trace (final_state (m s)))"
    and k: "\<And>s'. prefix (trace s') (trace (final_state (k s')))"
  shows "cmds (seq m k) s =
           cmds m s @ (case m s of Done a s' \<Rightarrow> cmds k s' | Exit n s' \<Rightarrow> [] | Raised s' \<Rightarrow> [])"
proof (cases "m s")
  case (Done a s')
  from m Done obtain xs where xs: "trace s' = trace s @ xs"
    by (auto simp: final_state_def prefix_def)
  from k[of s'] obtain ys where ys: "trace (final_state (k s')) = trace s' @ ys"
    by (auto simp: prefix_def)
  show ?thesis using Done xs ys
    by (simp add: cmds_def seq_def bind_def final_state_def)
next
  case (Exit n s')
  then show ?thesis by (simp add: cmds_def seq_def bind_def final_state_def)
next
  case (Raised s')
  then show ?thesis by (simp add: cmds_def seq_def bind_def final_state_def)
qed

lemma trace_sync_and_push:
  "prefix (trace s) (trace (final_state (sync_and_push sy cfg ws cts s)))"
  unfolding sync_and_push_def
  by (intro trace_intros) (simp add: final_state_def)

lemma trace_reconcile:
  "prefix (trace s) (trace (final_state (reconcile sy cfg ws snap ex comps s)))"
  unfolding reconcile_def
  by (auto intro!: trace_intros)

lemma trace_script_reconcile:
  "prefix (trace s) (trace (final_state (script_reconcile sy cfg ws snap fp ce s)))"
  unfolding script_reconcile_def
  by (auto intro!: trace_intros)


lemma cmds_run: "cmds (run sy cwd c chk) s = [(cwd, c)]"
  by (simp add: cmds_def run_def final_state_def case_prod_beta Let_def)

lemma cmds_logger: "cmds (logger l msg) s = []"
  by (simp add: cmds_def logger_def final_state_def)

lemma transitions_sync_and_push: "transitions (cmds (sync_and_push sy cfg ws cts) s) = []"
proof -
  have q: "transitions (cmds (seq m k) s) = []"
    if "\<And>s. prefix (trace s) (trace (final_state (m s)))"
      "\<And>s. prefix (trace s) (trace (final_state (k s)))"
      "\<And>s. transitions (cmds m s) = []" "\<And>s. transitions (cmds k s) = []"
    for m :: "'a st \<Rightarrow> ('b, 'a) outcome" and k :: "'a st \<Rightarrow> ('c, 'a) outcome" and s
    using that by (simp add: cmds_seq transitions_simps split: outcome.splits)
  have w: "transitions (cmds (\<lambda>s. Done () (s\<lparr>world := g (world s)\<rparr>)) s) = []"
    for g :: "'a \<Rightarrow> 'a" and s
    by (simp add: cmds_def final_state_def transitions_simps)
  have pw: "prefix (trace s) (trace (final_state (Done () (s\<lparr>world := g (world s)\<rparr>))))"
    for g :: "'a \<Rightarrow> 'a" and s
    by (simp add: final_state_def)
  show ?thesis
    unfolding sync_and_push_def
    by (intro q trace_intros pw w) (simp_all add: cmds_run cmds_logger transitions_simps classify_simps)
qed

lemma transitions_finish:
  "transitions (cmds (finish sy cfg ws ts cts insp) s) =
     transitions (cmds (reconcile sy cfg ws (snapshot_name cfg ts) (fst insp) (snd insp)) s)"
  by (simp add: finish_def cmds_seq trace_reconcile trace_sync_and_push transitions_simps
      transitions_sync_and_push split: outcome.splits)

lemma transitions_script_finish:
  "transitions (cmds (script_finish sy cfg ws ts cts) s) =
     transitions (cmds (script_reconcile sy cfg ws (snapshot_name cfg ts)
        (\<not> path_exists sy (target_dists cfg ws) (world s))
        (path_exists sy (component_root cfg ws) (world s))) s)"
proof -
  have "cmds (script_finish sy cfg ws ts cts) s =
     cmds (seq (script_reconcile sy cfg ws (snapshot_name cfg ts)
        (\<not> path_exists sy (target_dists cfg ws) (world s))
        (path_exists sy (component_root cfg ws) (world s))) (sync_and_push sy cfg ws cts)) s"
    by (simp add: cmds_def script_finish_def)
  then show ?thesis
    by (simp add: cmds_seq trace_script_reconcile trace_sync_and_push transitions_simps
      transitions_sync_and_push split: outcome.splits)
qed


lemma inspect_result:
  "\<exists>s'. inspect sy cfg ws s =
      Done (fst (exec sy None [''aptly'', ''-config='' @ aptly_cfg ws, ''publish'', ''show'',
                   distro cfg, channel cfg]
              (let r = exec sy None [''aptly'', ''-config='' @ aptly_cfg ws, ''publish'', ''list'',
                         ''-raw''] (world s)
               in if fst r = 0
                  then snd (exec sy None [''aptly'', ''-config='' @ aptly_cfg ws, ''publish'',
                              ''list''] (snd r))
                  else snd r)) = 0,
            if fst (exec sy None [''aptly'', ''-config='' @ aptly_cfg ws, ''publish'', ''show'',
                   distro cfg, channel cfg]
              (let r = exec sy None [''aptly'', ''-config='' @ aptly_cfg ws, ''publish'', ''list'',
                         ''-raw''] (world s)
               in if fst r = 0
                  then snd (exec sy None [''aptly'', ''-config='' @ aptly_cfg ws, ''publish'',
                              ''list''] (snd r))
                  else snd r)) = 0 \<and> path_exists sy (inrelease_path cfg ws) (world s')
            then parse_components (read_text sy (inrelease_path cfg ws) (world s'))
            else []) s'"
  by (simp add: inspect_def step_defs case_prod_beta Let_def parse_components_def
      split: list.splits)


lemma transitions_reconcile:
  "transitions (cmds (reconcile sy cfg ws snap ex comps) s) =
     [if \<not> ex then Bootstrap else if component cfg \<in> set comps then Switch else Add]"
proof (cases ex)
  case False
  then show ?thesis
    by (simp add: cmds_reconcile_bootstrap transitions_simps classify_simps)
next
  case ex: True
  show ?thesis
  proof (cases "component cfg \<in> set comps")
    case True
    with ex show ?thesis
      by (simp add: cmds_reconcile_switch transitions_simps classify_simps)
  next
    case notin: False
    show ?thesis
    proof (cases "fst (exec sy None [''aptly'', ''-config='' @ aptly_cfg ws, ''publish'', ''add'',
          distro cfg, channel cfg, snap, component cfg] (world s)) = 0")
      case True
      with ex notin show ?thesis
        by (simp add: cmds_reconcile_add_ok transitions_simps classify_simps)
    next
      case False
      with ex notin show ?thesis
        by (simp add: cmds_reconcile_add_failed transitions_simps classify_simps)
    qed
  qed
qed

lemma transitions_script_reconcile:
  "take 1 (transitions (cmds (script_reconcile sy cfg ws snap fp ce) s)) =
     [if fp then Bootstrap else if ce then Switch else Add]"
proof (cases fp)
  case True
  then show ?thesis
    by (simp add: cmds_script_bootstrap transitions_simps classify_simps)
next
  case nfp: False
  show ?thesis
  proof (cases ce)
    case True
    with nfp show ?thesis
      by (simp add: cmds_script_switch transitions_simps classify_simps)
  next
    case nce: False
    show ?thesis
    proof (cases "fst (exec sy None [''aptly'', ''-config='' @ aptly_cfg ws, ''publish'', ''source'',
          ''add'', ''-prefix='' @ channel cfg, ''-component'', component cfg, distro cfg, snap]
          (world s)) = 0")
      case True
      with nfp nce show ?thesis
        by (simp add: cmds_script_add_ok transitions_simps classify_simps)
    next
      case F: False
      define cs where "cs = cmds (script_reconcile sy cfg ws snap False False) s"
      have "transitions cs = transitions (take 2 cs) @ transitions (drop 2 cs)"
        by (simp flip: transitions_simps(3))
      moreover have "transitions (take 2 cs) = [Add, Replace]"
        unfolding cs_def using cmds_script_add_failed[OF F]
        by (simp add: transitions_simps classify_simps)
      ultimately have "take 1 (transitions cs) = [Add]" by simp
      with nfp nce show ?thesis by (simp add: cs_def)
    qed
  qed
qed

text \<open>
  The decision table of the reconciliation, on what the inspection has returned.  In
  the library the pair is (\<open>our_publication_exists\<close>, \<open>existing_components\<close>): the
  publication exists when \<open>aptly publish show\<close> for the distribution and the channel
  returns 0, and the components are then those of the release index; the
  reconciliation runs exactly one transition: Bootstrap when the publication does not
  exist, whatever the component, Switch when it exists and the component is listed,
  Add when it exists and the component is not listed.  The sync, commit and push that
  follow run no further transition.  In the script the two tests are the existence of
  the directories of the distribution and of the component in the seeded tree, and the
  first transition of the reconciliation is given by the same table.
\<close>

theorem reconcile_decision_table:
  "transitions (cmds (reconcile sy cfg ws snap our_publication_exists existing_components) s) =
     [if \<not> our_publication_exists then Bootstrap
      else if component cfg \<in> set existing_components then Switch else Add]
   \<and> transitions (cmds (finish sy cfg ws ts commit_ts
                          (our_publication_exists, existing_components)) s) =
     [if \<not> our_publication_exists then Bootstrap
      else if component cfg \<in> set existing_components then Switch else Add]
   \<and> (\<exists>s'. inspect sy cfg ws s =
      Done (fst (exec sy None [''aptly'', ''-config='' @ aptly_cfg ws, ''publish'', ''show'',
                   distro cfg, channel cfg]
              (let r = exec sy None [''aptly'', ''-config='' @ aptly_cfg ws, ''publish'', ''list'',
                         ''-raw''] (world s)
               in if fst r = 0
                  then snd (exec sy None [''aptly'', ''-config='' @ aptly_cfg ws, ''publish'',
                              ''list''] (snd r))
                  else snd r)) = 0,
            if fst (exec sy None [''aptly'', ''-config='' @ aptly_cfg ws, ''publish'', ''show'',
                   distro cfg, channel cfg]
              (let r = exec sy None [''aptly'', ''-config='' @ aptly_cfg ws, ''publish'', ''list'',
                         ''-raw''] (world s)
               in if fst r = 0
                  then snd (exec sy None [''aptly'', ''-config='' @ aptly_cfg ws, ''publish'',
                              ''list''] (snd r))
                  else snd r)) = 0 \<and> path_exists sy (inrelease_path cfg ws) (world s')
            then parse_components (read_text sy (inrelease_path cfg ws) (world s'))
            else []) s')
   \<and> take 1 (transitions (cmds (script_reconcile sy cfg ws snap first_publish component_exists) s)) =
     [if first_publish then Bootstrap else if component_exists then Switch else Add]
   \<and> take 1 (transitions (cmds (script_finish sy cfg ws ts commit_ts) s)) =
     [if \<not> path_exists sy (target_dists cfg ws) (world s) then Bootstrap
      else if path_exists sy (component_root cfg ws) (world s) then Switch else Add]"
proof (intro conjI)
  show "transitions (cmds (reconcile sy cfg ws snap our_publication_exists existing_components) s) =
     [if \<not> our_publication_exists then Bootstrap
      else if component cfg \<in> set existing_components then Switch else Add]"
    by (rule transitions_reconcile)
  show "transitions (cmds (finish sy cfg ws ts commit_ts
                          (our_publication_exists, existing_components)) s) =
     [if \<not> our_publication_exists then Bootstrap
      else if component cfg \<in> set existing_components then Switch else Add]"
    by (simp only: transitions_finish fst_conv snd_conv transitions_reconcile)
  show "take 1 (transitions (cmds (script_reconcile sy cfg ws snap first_publish component_exists) s)) =
     [if first_publish then Bootstrap else if component_exists then Switch else Add]"
    by (rule transitions_script_reconcile)
  show "take 1 (transitions (cmds (script_finish sy cfg ws ts commit_ts) s)) =
     [if \<not> path_exists sy (target_dists cfg ws) (world s) then Bootstrap
      else if path_exists sy (component_root cfg ws) (world s) then Switch else Add]"
    by (simp only: transitions_script_finish transitions_script_reconcile not_not)
qed (rule inspect_result)

text \<open>
  C1.  The claim selects the transition on whether published metadata exists for the
  channel and the distribution and on whether the component is in its component list.
  The script does so.  The library does not: here the seeded tree holds the release
  index of stable/noble, which lists base and my-project, and the engine's database,
  in a fresh workspace, does not know the publication, so that \<open>db recover\<close> and
  \<open>publish show\<close> return 1.  The library's run for my-project selects Bootstrap:
  \<open>publish snapshot\<close> with \<open>-force-overwrite\<close>.  The script's run on the same tree selects
  Switch, and so does the library's when \<open>publish show\<close> returns 0.
\<close>

theorem publish_bootstraps_listed_component:
  "path_exists fresh_engine (inrelease_path cfg0 ws0) \<lparr>published = [(''base'', ''base-1''), (''my-project'', ''my-project-1'')], staged = [], update_fails = False\<rparr>
   \<and> parse_components (read_text fresh_engine (inrelease_path cfg0 ws0) \<lparr>published = [(''base'', ''base-1''), (''my-project'', ''my-project-1'')], staged = [], update_fails = False\<rparr>) =
       [''base'', ''my-project'']
   \<and> component cfg0 = ''my-project''
   \<and> filter (\<lambda>c. take 1 (drop 2 c) = [''publish''])
        (map snd (cmds (publish fresh_engine cfg0 ws0 None ''20250101-000000'' ''2025-01-01T00:00:00Z'') (start \<lparr>published = [(''base'', ''base-1''), (''my-project'', ''my-project-1'')], staged = [], update_fails = False\<rparr>))) =
       [[''aptly'', ''-config=/tmp/aptly/aptly.conf'', ''publish'', ''list'', ''-raw''],
        [''aptly'', ''-config=/tmp/aptly/aptly.conf'', ''publish'', ''list''],
        [''aptly'', ''-config=/tmp/aptly/aptly.conf'', ''publish'', ''show'', ''noble'', ''stable''],
        [''aptly'', ''-config=/tmp/aptly/aptly.conf'', ''publish'', ''snapshot'',
         ''-distribution'', ''noble'', ''-component'', ''my-project'', ''-force-overwrite'',
         ''-skip-signing'', ''my-project-noble-stable-20250101-000000'', ''stable'']]
   \<and> transitions (cmds (publish fresh_engine cfg0 ws0 None ''20250101-000000'' ''2025-01-01T00:00:00Z'') (start \<lparr>published = [(''base'', ''base-1''), (''my-project'', ''my-project-1'')], staged = [], update_fails = False\<rparr>)) = [Bootstrap]
   \<and> transitions (cmds (script_main fresh_engine cfg0 ws0 None ''20250101-000000'' ''2025-01-01T00:00:00Z'') (start \<lparr>published = [(''base'', ''base-1''), (''my-project'', ''my-project-1'')], staged = [], update_fails = False\<rparr>)) = [Switch]
   \<and> transitions (cmds (publish engine cfg0 ws0 None ''20250101-000000'' ''2025-01-01T00:00:00Z'') (start \<lparr>published = [(''base'', ''base-1''), (''my-project'', ''my-project-1'')], staged = [], update_fails = False\<rparr>)) = [Switch]"
  by code_simp

subsection \<open>The signing options\<close>

lemma cmds_reconcile:
  "cmds (reconcile sy cfg ws snap ex comps) s =
     (if \<not> ex
      then [(None, [''aptly'', ''-config='' @ aptly_cfg ws, ''publish'', ''snapshot'',
                    ''-distribution'', distro cfg, ''-component'', component cfg,
                    ''-force-overwrite''] @ sign_opts cfg @ [snap, channel cfg])]
      else if component cfg \<in> set comps
      then [(None, [''aptly'', ''-config='' @ aptly_cfg ws, ''publish'', ''switch'',
                    ''-component'', component cfg, ''-force-overwrite''] @ sign_opts cfg @
                    [distro cfg, channel cfg, snap])]
      else (None, [''aptly'', ''-config='' @ aptly_cfg ws, ''publish'', ''add'',
                   distro cfg, channel cfg, snap, component cfg]) #
           (if fst (exec sy None [''aptly'', ''-config='' @ aptly_cfg ws, ''publish'', ''add'',
                      distro cfg, channel cfg, snap, component cfg] (world s)) \<noteq> 0
            then []
            else [(None, [''aptly'', ''-config='' @ aptly_cfg ws, ''publish'', ''update''] @
                          sign_opts cfg @ [distro cfg, channel cfg])]))"
  using cmds_reconcile_bootstrap [of sy cfg ws snap comps s]
    cmds_reconcile_switch [of cfg comps sy ws snap s]
    cmds_reconcile_add_ok [of cfg comps sy ws snap s]
    cmds_reconcile_add_failed [of cfg comps sy ws snap s]
  by (cases ex) simp_all

lemma cmds_script_replace:
  "fst (exec sy None [''aptly'', ''-config='' @ aptly_cfg ws, ''publish'', ''source'', ''add'',
          ''-prefix='' @ channel cfg, ''-component'', component cfg, distro cfg, snap]
          (world s)) \<noteq> 0 \<Longrightarrow>
   cmds (script_reconcile sy cfg ws snap False False) s =
     [(None, [''aptly'', ''-config='' @ aptly_cfg ws, ''publish'', ''source'', ''add'',
                   ''-prefix='' @ channel cfg, ''-component'', component cfg, distro cfg, snap]),
      (None, [''aptly'', ''-config='' @ aptly_cfg ws, ''publish'', ''source'',
                         ''replace'', ''-prefix='' @ channel cfg, ''-component'', component cfg,
                         distro cfg, snap])] @
                 (if fst (exec sy None [''aptly'', ''-config='' @ aptly_cfg ws, ''publish'',
                            ''source'', ''replace'', ''-prefix='' @ channel cfg, ''-component'',
                            component cfg, distro cfg, snap]
                          (snd (exec sy None [''aptly'', ''-config='' @ aptly_cfg ws, ''publish'',
                            ''source'', ''add'', ''-prefix='' @ channel cfg, ''-component'',
                            component cfg, distro cfg, snap] (world s)))) \<noteq> 0
                  then []
                  else [(None, [''aptly'', ''-config='' @ aptly_cfg ws, ''publish'', ''update''] @
                                update_opts cfg @ [distro cfg, channel cfg])])"
  by (simp add: script_reconcile_def add_opts_def replace_opts_def step_defs case_prod_beta Let_def)

lemma cmds_script_reconcile:
  "cmds (script_reconcile sy cfg ws snap fp ce) s =
     (if fp
      then [(None, [''aptly'', ''-config='' @ aptly_cfg ws, ''publish'', ''snapshot'',
                    ''-distribution'', distro cfg, ''-component'', component cfg] @
                    script_sign_opts cfg @ [snap, channel cfg])]
      else if ce
      then [(None, [''aptly'', ''-config='' @ aptly_cfg ws, ''publish'', ''switch'',
                    ''-component'', component cfg] @ script_sign_opts cfg @
                    [distro cfg, channel cfg, snap])]
      else (None, [''aptly'', ''-config='' @ aptly_cfg ws, ''publish'', ''source'', ''add'',
                   ''-prefix='' @ channel cfg, ''-component'', component cfg, distro cfg, snap]) #
           (if fst (exec sy None [''aptly'', ''-config='' @ aptly_cfg ws, ''publish'', ''source'',
                      ''add'', ''-prefix='' @ channel cfg, ''-component'', component cfg,
                      distro cfg, snap] (world s)) = 0
            then [(None, [''aptly'', ''-config='' @ aptly_cfg ws, ''publish'', ''update''] @
                          update_opts cfg @ [distro cfg, channel cfg])]
            else (None, [''aptly'', ''-config='' @ aptly_cfg ws, ''publish'', ''source'',
                         ''replace'', ''-prefix='' @ channel cfg, ''-component'', component cfg,
                         distro cfg, snap]) #
                 (if fst (exec sy None [''aptly'', ''-config='' @ aptly_cfg ws, ''publish'',
                            ''source'', ''replace'', ''-prefix='' @ channel cfg, ''-component'',
                            component cfg, distro cfg, snap]
                          (snd (exec sy None [''aptly'', ''-config='' @ aptly_cfg ws, ''publish'',
                            ''source'', ''add'', ''-prefix='' @ channel cfg, ''-component'',
                            component cfg, distro cfg, snap] (world s)))) \<noteq> 0
                  then []
                  else [(None, [''aptly'', ''-config='' @ aptly_cfg ws, ''publish'', ''update''] @
                                update_opts cfg @ [distro cfg, channel cfg])])))"
proof (cases fp)
  case True
  then show ?thesis using cmds_script_bootstrap [of sy cfg ws snap ce s] by simp
next
  case nfp: False
  show ?thesis
  proof (cases ce)
    case True
    with nfp show ?thesis using cmds_script_switch [of sy cfg ws snap s] by simp
  next
    case nce: False
    show ?thesis
    proof (cases "fst (exec sy None [''aptly'', ''-config='' @ aptly_cfg ws, ''publish'', ''source'',
          ''add'', ''-prefix='' @ channel cfg, ''-component'', component cfg, distro cfg, snap]
          (world s)) = 0")
      case True
      with nfp nce show ?thesis using cmds_script_add_ok [OF True] by simp
    next
      case False
      with nfp nce show ?thesis using cmds_script_replace [OF False] by simp
    qed
  qed
qed

lemma ensure_cmd_cases:
  "(\<exists>s'. ensure_cmd sy name s = Done () s') \<or> (\<exists>s'. ensure_cmd sy name s = Exit 1 s')"
  by (simp add: ensure_cmd_def step_defs case_prod_beta Let_def)

lemma seq_ensure_exit:
  assumes "\<And>s. \<exists>s'. k s = Exit 1 s'"
  shows "\<exists>s'. seq (ensure_cmd sy name) k s = Exit 1 s'"
  using ensure_cmd_cases [of sy name s] assms by (auto simp: seq_def bind_def)

lemma validate_tools_keyid:
  assumes "sign cfg" "\<not> truthy (keyid cfg)"
  shows "\<exists>s'. validate_tools sy cfg s = Exit 1 s'"
  unfolding validate_tools_def using assms
  by (intro seq_ensure_exit) (simp add: seq_def bind_def logger_def sys_exit_def)

lemma seq_exit: "m s = Exit n s' \<Longrightarrow> seq m k s = Exit n s'"
  by (simp add: seq_def bind_def)

lemma update_opts_sign_opts:
  "update_opts cfg = (if sign cfg \<and> \<not> truthy (keyid cfg) then [] else sign_opts cfg)"
  by (simp add: update_opts_def sign_opts_def)

text \<open>
  C6.  The signing options are \<open>-gpg-key\<close> with the key and, when there is a passphrase,
  \<open>-passphrase\<close> with it, when signing is enabled, and \<open>-skip-signing\<close> otherwise; the
  script builds the same list.  In the library and in the script, publish snapshot,
  publish switch and publish update carry these options, and the Add command
  (\<open>publish add\<close>, \<open>publish source add\<close>) and the script's \<open>publish source replace\<close>
  carry none; the update that follows them carries them.  The script builds the options
  of its update separately: they are the signing options, except when signing is
  enabled without a key, and then the run has ended with status 1 at the validation of
  the tools.
\<close>

theorem signing_flags:
  "sign_opts cfg =
     (if sign cfg
      then [''-gpg-key'', the (keyid cfg)] @
           (if truthy (passphrase cfg) then [''-passphrase'', the (passphrase cfg)] else [])
      else [''-skip-signing''])
   \<and> script_sign_opts cfg = sign_opts cfg
   \<and> cmds (reconcile sy cfg ws snap our_publication_exists existing_components) s =
     (if \<not> our_publication_exists
      then [(None, [''aptly'', ''-config='' @ aptly_cfg ws, ''publish'', ''snapshot'',
                    ''-distribution'', distro cfg, ''-component'', component cfg,
                    ''-force-overwrite''] @ sign_opts cfg @ [snap, channel cfg])]
      else if component cfg \<in> set existing_components
      then [(None, [''aptly'', ''-config='' @ aptly_cfg ws, ''publish'', ''switch'',
                    ''-component'', component cfg, ''-force-overwrite''] @ sign_opts cfg @
                    [distro cfg, channel cfg, snap])]
      else (None, [''aptly'', ''-config='' @ aptly_cfg ws, ''publish'', ''add'',
                   distro cfg, channel cfg, snap, component cfg]) #
           (if fst (exec sy None [''aptly'', ''-config='' @ aptly_cfg ws, ''publish'', ''add'',
                      distro cfg, channel cfg, snap, component cfg] (world s)) \<noteq> 0
            then []
            else [(None, [''aptly'', ''-config='' @ aptly_cfg ws, ''publish'', ''update''] @
                          sign_opts cfg @ [distro cfg, channel cfg])]))
   \<and> cmds (script_reconcile sy cfg ws snap first_publish component_exists) s =
     (if first_publish
      then [(None, [''aptly'', ''-config='' @ aptly_cfg ws, ''publish'', ''snapshot'',
                    ''-distribution'', distro cfg, ''-component'', component cfg] @
                    script_sign_opts cfg @ [snap, channel cfg])]
      else if component_exists
      then [(None, [''aptly'', ''-config='' @ aptly_cfg ws, ''publish'', ''switch'',
                    ''-component'', component cfg] @ script_sign_opts cfg @
                    [distro cfg, channel cfg, snap])]
      else (None, [''aptly'', ''-config='' @ aptly_cfg ws, ''publish'', ''source'', ''add'',
                   ''-prefix='' @ channel cfg, ''-component'', component cfg, distro cfg, snap]) #
           (if fst (exec sy None [''aptly'', ''-config='' @ aptly_cfg ws, ''publish'', ''source'',
                      ''add'', ''-prefix='' @ channel cfg, ''-component'', component cfg,
                      distro cfg, snap] (world s)) = 0
            then [(None, [''aptly'', ''-config='' @ aptly_cfg ws, ''publish'', ''update''] @
                          update_opts cfg @ [distro cfg, channel cfg])]
            else (None, [''aptly'', ''-config='' @ aptly_cfg ws, ''publish'', ''source'',
                         ''replace'', ''-prefix='' @ channel cfg, ''-component'', component cfg,
                         distro cfg, snap]) #
                 (if fst (exec sy None [''aptly'', ''-config='' @ aptly_cfg ws, ''publish'',
                            ''source'', ''replace'', ''-prefix='' @ channel cfg, ''-component'',
                            component cfg, distro cfg, snap]
                          (snd (exec sy None [''aptly'', ''-config='' @ aptly_cfg ws, ''publish'',
                            ''source'', ''add'', ''-prefix='' @ channel cfg, ''-component'',
                            component cfg, distro cfg, snap] (world s)))) \<noteq> 0
                  then []
                  else [(None, [''aptly'', ''-config='' @ aptly_cfg ws, ''publish'', ''update''] @
                                update_opts cfg @ [distro cfg, channel cfg])])))
   \<and> (if sign cfg \<and> \<not> truthy (keyid cfg)
      then (\<exists>s'. script_main sy cfg ws debs_dir ts commit_ts s = Exit 1 s') \<and>
           (\<exists>s'. publish sy cfg ws debs_dir ts commit_ts s = Exit 1 s')
      else update_opts cfg = sign_opts cfg)"
proof (intro conjI)
  show "cmds (reconcile sy cfg ws snap our_publication_exists existing_components) s =
     (if \<not> our_publication_exists
      then [(None, [''aptly'', ''-config='' @ aptly_cfg ws, ''publish'', ''snapshot'',
                    ''-distribution'', distro cfg, ''-component'', component cfg,
                    ''-force-overwrite''] @ sign_opts cfg @ [snap, channel cfg])]
      else if component cfg \<in> set existing_components
      then [(None, [''aptly'', ''-config='' @ aptly_cfg ws, ''publish'', ''switch'',
                    ''-component'', component cfg, ''-force-overwrite''] @ sign_opts cfg @
                    [distro cfg, channel cfg, snap])]
      else (None, [''aptly'', ''-config='' @ aptly_cfg ws, ''publish'', ''add'',
                   distro cfg, channel cfg, snap, component cfg]) #
           (if fst (exec sy None [''aptly'', ''-config='' @ aptly_cfg ws, ''publish'', ''add'',
                      distro cfg, channel cfg, snap, component cfg] (world s)) \<noteq> 0
            then []
            else [(None, [''aptly'', ''-config='' @ aptly_cfg ws, ''publish'', ''update''] @
                          sign_opts cfg @ [distro cfg, channel cfg])]))"
    by (rule cmds_reconcile)
  show "cmds (script_reconcile sy cfg ws snap first_publish component_exists) s =
     (if first_publish
      then [(None, [''aptly'', ''-config='' @ aptly_cfg ws, ''publish'', ''snapshot'',
                    ''-distribution'', distro cfg, ''-component'', component cfg] @
                    script_sign_opts cfg @ [snap, channel cfg])]
      else if component_exists
      then [(None, [''aptly'', ''-config='' @ aptly_cfg ws, ''publish'', ''switch'',
                    ''-component'', component cfg] @ script_sign_opts cfg @
                    [distro cfg, channel cfg, snap])]
      else (None, [''aptly'', ''-config='' @ aptly_cfg ws, ''publish'', ''source'', ''add'',
                   ''-prefix='' @ channel cfg, ''-component'', component cfg, distro cfg, snap]) #
           (if fst (exec sy None [''aptly'', ''-config='' @ aptly_cfg ws, ''publish'', ''source'',
                      ''add'', ''-prefix='' @ channel cfg, ''-component'', component cfg,
                      distro cfg, snap] (world s)) = 0
            then [(None, [''aptly'', ''-config='' @ aptly_cfg ws, ''publish'', ''update''] @
                          update_opts cfg @ [distro cfg, channel cfg])]
            else (None, [''aptly'', ''-config='' @ aptly_cfg ws, ''publish'', ''source'',
                         ''replace'', ''-prefix='' @ channel cfg, ''-component'', component cfg,
                         distro cfg, snap]) #
                 (if fst (exec sy None [''aptly'', ''-config='' @ aptly_cfg ws, ''publish'',
                            ''source'', ''replace'', ''-prefix='' @ channel cfg, ''-component'',
                            component cfg, distro cfg, snap]
                          (snd (exec sy None [''aptly'', ''-config='' @ aptly_cfg ws, ''publish'',
                            ''source'', ''add'', ''-prefix='' @ channel cfg, ''-component'',
                            component cfg, distro cfg, snap] (world s)))) \<noteq> 0
                  then []
                  else [(None, [''aptly'', ''-config='' @ aptly_cfg ws, ''publish'', ''update''] @
                                update_opts cfg @ [distro cfg, channel cfg])])))"
    by (rule cmds_script_reconcile)
  show "if sign cfg \<and> \<not> truthy (keyid cfg)
      then (\<exists>s'. script_main sy cfg ws debs_dir ts commit_ts s = Exit 1 s') \<and>
           (\<exists>s'. publish sy cfg ws debs_dir ts commit_ts s = Exit 1 s')
      else update_opts cfg = sign_opts cfg"
  proof (cases "sign cfg \<and> \<not> truthy (keyid cfg)")
    case True
    then obtain s' where "validate_tools sy cfg s = Exit 1 s'"
      using validate_tools_keyid [of cfg sy s] by blast
    then have "script_main sy cfg ws debs_dir ts commit_ts s = Exit 1 s'"
      and "publish sy cfg ws debs_dir ts commit_ts s = Exit 1 s'"
      unfolding script_main_def publish_def by (rule seq_exit)+
    then show ?thesis unfolding if_P [OF True] by blast
  next
    case False
    then have "update_opts cfg = sign_opts cfg" by (auto simp: update_opts_sign_opts)
    then show ?thesis unfolding if_not_P [OF False] .
  qed
qed (simp_all add: sign_opts_def script_sign_opts_def)

subsection \<open>A failed metadata update\<close>

lemma reconcile_update_failed:
  assumes "component cfg \<notin> set comps"
    and "fst (exec sy None [''aptly'', ''-config='' @ aptly_cfg ws, ''publish'', ''add'',
                distro cfg, channel cfg, snap, component cfg] (world s)) = 0"
    and "fst (exec sy None ([''aptly'', ''-config='' @ aptly_cfg ws, ''publish'', ''update''] @
                sign_opts cfg @ [distro cfg, channel cfg])
           (snd (exec sy None [''aptly'', ''-config='' @ aptly_cfg ws, ''publish'', ''add'',
                   distro cfg, channel cfg, snap, component cfg] (world s)))) \<noteq> 0"
  shows "\<exists>s'. reconcile sy cfg ws snap True comps s = Done () s' \<and>
           last (logs s') = (WARNING, ''Failed to update publication metadata (exit=%s)'')"
  using assms by (simp add: reconcile_def step_defs case_prod_beta Let_def)

lemma cmds_sync_and_push:
  "cmds (sync_and_push sy cfg ws commit_ts) s =
     (let r1 = exec sy None [''rsync'', ''-a'', ''--delete'', aptly_public ws @ ''/'',
                  pages ws @ ''/''] (world s);
          r2 = exec sy (Some (pages ws)) [''git'', ''add'', ''-A'']
                  (write_text sy (pjoin (pages ws) ''.nojekyll'') [] (snd r1))
      in (None, [''rsync'', ''-a'', ''--delete'', aptly_public ws @ ''/'', pages ws @ ''/'']) #
         (if fst r1 \<noteq> 0 then []
          else (Some (pages ws), [''git'', ''add'', ''-A'']) #
               (if fst r2 \<noteq> 0 then []
                else [(Some (pages ws), [''git'', ''commit'', ''-m'',
                         ''Publish '' @ component cfg @ '' ('' @ distro cfg @ ''/'' @
                         channel cfg @ '') '' @ commit_ts]),
                      (Some (pages ws), [''git'', ''push'', ''origin'', branch cfg])])))"
  by (simp add: sync_and_push_def step_defs case_prod_beta Let_def)


text \<open>
  C5.  In the library, when the component is not listed, \<open>publish add\<close> returns 0 and
  the \<open>publish update\<close> that follows returns nonzero, the reconciliation returns (it
  neither exits nor raises), its last log record is the warning, and the run goes on
  with the sync back, the commit and the push from the state it has reached: rsync,
  then, each when the one before has returned 0, git add, git commit and git push.
\<close>

theorem update_failure_is_warning:
  assumes "component cfg \<notin> set existing_components"
    and "fst (exec sy None [''aptly'', ''-config='' @ aptly_cfg ws, ''publish'', ''add'',
                distro cfg, channel cfg, snapshot_name cfg ts, component cfg] (world s)) = 0"
    and "fst (exec sy None ([''aptly'', ''-config='' @ aptly_cfg ws, ''publish'', ''update''] @
                sign_opts cfg @ [distro cfg, channel cfg])
           (snd (exec sy None [''aptly'', ''-config='' @ aptly_cfg ws, ''publish'', ''add'',
                   distro cfg, channel cfg, snapshot_name cfg ts, component cfg] (world s)))) \<noteq> 0"
  shows "\<exists>s'. reconcile sy cfg ws (snapshot_name cfg ts) True existing_components s = Done () s'
      \<and> last (logs s') = (WARNING, ''Failed to update publication metadata (exit=%s)'')
      \<and> finish sy cfg ws ts commit_ts (True, existing_components) s =
          sync_and_push sy cfg ws commit_ts s'
      \<and> cmds (sync_and_push sy cfg ws commit_ts) s' =
         (let r1 = exec sy None [''rsync'', ''-a'', ''--delete'', aptly_public ws @ ''/'',
                      pages ws @ ''/''] (world s');
              r2 = exec sy (Some (pages ws)) [''git'', ''add'', ''-A'']
                      (write_text sy (pjoin (pages ws) ''.nojekyll'') [] (snd r1))
          in (None, [''rsync'', ''-a'', ''--delete'', aptly_public ws @ ''/'', pages ws @ ''/'']) #
             (if fst r1 \<noteq> 0 then []
              else (Some (pages ws), [''git'', ''add'', ''-A'']) #
                   (if fst r2 \<noteq> 0 then []
                    else [(Some (pages ws), [''git'', ''commit'', ''-m'',
                             ''Publish '' @ component cfg @ '' ('' @ distro cfg @ ''/'' @
                             channel cfg @ '') '' @ commit_ts]),
                          (Some (pages ws), [''git'', ''push'', ''origin'', branch cfg])])))"
proof -
  from reconcile_update_failed [OF assms] obtain s'
    where r: "reconcile sy cfg ws (snapshot_name cfg ts) True existing_components s = Done () s'"
      and l: "last (logs s') = (WARNING, ''Failed to update publication metadata (exit=%s)'')"
    by blast
  from r have "finish sy cfg ws ts commit_ts (True, existing_components) s =
      sync_and_push sy cfg ws commit_ts s'"
    by (simp add: finish_def seq_def bind_def)
  with r l cmds_sync_and_push [of sy cfg ws commit_ts s'] show ?thesis by blast
qed

theorem update_failure_is_warning_witness:
  "last (logs (final_state (reconcile engine cfg0 ws0 (snapshot_name cfg0 ''20250101-000000'') True
      [''base'']
      (start \<lparr>published = [(''base'', ''base-1'')], staged = [], update_fails = True\<rparr>)))) =
     (WARNING, ''Failed to update publication metadata (exit=%s)'')
   \<and> returned (finish engine cfg0 ws0 ''20250101-000000'' ''2025-01-01T00:00:00Z''
        (True, [''base''])
        (start \<lparr>published = [(''base'', ''base-1'')], staged = [], update_fails = True\<rparr>))
   \<and> map snd
        (cmds (finish engine cfg0 ws0 ''20250101-000000'' ''2025-01-01T00:00:00Z''
           (True, [''base'']))
        (start \<lparr>published = [(''base'', ''base-1'')], staged = [], update_fails = True\<rparr>)) =
     [[''aptly'', ''-config=/tmp/aptly/aptly.conf'', ''publish'', ''add'', ''noble'', ''stable'',
       ''my-project-noble-stable-20250101-000000'', ''my-project''],
      [''aptly'', ''-config=/tmp/aptly/aptly.conf'', ''publish'', ''update'', ''-skip-signing'',
       ''noble'', ''stable''],
      [''rsync'', ''-a'', ''--delete'', ''/tmp/aptly/public/'', ''/tmp/pages/''],
      [''git'', ''add'', ''-A''],
      [''git'', ''commit'', ''-m'', ''Publish my-project (noble/stable) 2025-01-01T00:00:00Z''],
      [''git'', ''push'', ''origin'', ''gh-pages'']]"
proof -
  define s0 where
    "s0 = start \<lparr>published = [(''base'', ''base-1'')], staged = [], update_fails = True\<rparr>"
  have h1: "component cfg0 \<notin> set [''base'']" by code_simp
  have h2: "fst (exec engine None [''aptly'', ''-config='' @ aptly_cfg ws0, ''publish'', ''add'',
                distro cfg0, channel cfg0, snapshot_name cfg0 ''20250101-000000'', component cfg0]
              (world s0)) = 0"
    unfolding s0_def by code_simp
  have h3: "fst (exec engine None ([''aptly'', ''-config='' @ aptly_cfg ws0, ''publish'', ''update''] @
                sign_opts cfg0 @ [distro cfg0, channel cfg0])
           (snd (exec engine None [''aptly'', ''-config='' @ aptly_cfg ws0, ''publish'', ''add'',
                   distro cfg0, channel cfg0, snapshot_name cfg0 ''20250101-000000'', component cfg0]
                   (world s0)))) \<noteq> 0"
    unfolding s0_def by code_simp
  from update_failure_is_warning [where sy = engine and cfg = cfg0 and ws = ws0
      and ts = "''20250101-000000''" and s = s0 and existing_components = "[''base'']"
      and commit_ts = "''2025-01-01T00:00:00Z''", OF h1 h2 h3]
  obtain s' where
    "reconcile engine cfg0 ws0 (snapshot_name cfg0 ''20250101-000000'') True [''base''] s0 = Done () s'"
    "last (logs s') = (WARNING, ''Failed to update publication metadata (exit=%s)'')"
    by blast
  then have a: "last (logs (final_state (reconcile engine cfg0 ws0
      (snapshot_name cfg0 ''20250101-000000'') True [''base''] s0))) =
     (WARNING, ''Failed to update publication metadata (exit=%s)'')"
    by (simp add: final_state_def)
  have b: "returned (finish engine cfg0 ws0 ''20250101-000000'' ''2025-01-01T00:00:00Z''
        (True, [''base'']) s0)"
    unfolding s0_def by code_simp
  have c: "map snd
        (cmds (finish engine cfg0 ws0 ''20250101-000000'' ''2025-01-01T00:00:00Z''
           (True, [''base''])) s0) =
     [[''aptly'', ''-config=/tmp/aptly/aptly.conf'', ''publish'', ''add'', ''noble'', ''stable'',
       ''my-project-noble-stable-20250101-000000'', ''my-project''],
      [''aptly'', ''-config=/tmp/aptly/aptly.conf'', ''publish'', ''update'', ''-skip-signing'',
       ''noble'', ''stable''],
      [''rsync'', ''-a'', ''--delete'', ''/tmp/aptly/public/'', ''/tmp/pages/''],
      [''git'', ''add'', ''-A''],
      [''git'', ''commit'', ''-m'', ''Publish my-project (noble/stable) 2025-01-01T00:00:00Z''],
      [''git'', ''push'', ''origin'', ''gh-pages'']]"
    unfolding s0_def by code_simp
  from a b c show ?thesis unfolding s0_def by blast
qed

subsection \<open>Add, and Replace when Add fails\<close>

lemma script_add_ok:
  assumes "fst (exec sy None [''aptly'', ''-config='' @ aptly_cfg ws, ''publish'', ''source'', ''add'',
          ''-prefix='' @ channel cfg, ''-component'', component cfg, distro cfg, snap]
          (world s)) = 0"
  shows "returned (script_reconcile sy cfg ws snap False False s) =
           (fst (exec sy None ([''aptly'', ''-config='' @ aptly_cfg ws, ''publish'', ''update''] @
                   update_opts cfg @ [distro cfg, channel cfg])
              (snd (exec sy None [''aptly'', ''-config='' @ aptly_cfg ws, ''publish'', ''source'',
                 ''add'', ''-prefix='' @ channel cfg, ''-component'', component cfg, distro cfg, snap]
                 (world s)))) = 0)"
    and "exit_code (script_reconcile sy cfg ws snap False False s) = None"
    and "world (final_state (script_reconcile sy cfg ws snap False False s)) =
           snd (exec sy None ([''aptly'', ''-config='' @ aptly_cfg ws, ''publish'', ''update''] @
                   update_opts cfg @ [distro cfg, channel cfg])
              (snd (exec sy None [''aptly'', ''-config='' @ aptly_cfg ws, ''publish'', ''source'',
                 ''add'', ''-prefix='' @ channel cfg, ''-component'', component cfg, distro cfg, snap]
                 (world s))))"
  using assms
  by (simp_all add: script_reconcile_def add_opts_def returned_def exit_code_def step_defs
      case_prod_beta Let_def)

lemma script_add_failed_replace_ok:
  assumes "fst (exec sy None [''aptly'', ''-config='' @ aptly_cfg ws, ''publish'', ''source'', ''add'',
          ''-prefix='' @ channel cfg, ''-component'', component cfg, distro cfg, snap]
          (world s)) \<noteq> 0"
    and "fst (exec sy None [''aptly'', ''-config='' @ aptly_cfg ws, ''publish'', ''source'',
          ''replace'', ''-prefix='' @ channel cfg, ''-component'', component cfg, distro cfg, snap]
          (snd (exec sy None [''aptly'', ''-config='' @ aptly_cfg ws, ''publish'', ''source'',
                 ''add'', ''-prefix='' @ channel cfg, ''-component'', component cfg, distro cfg, snap]
                 (world s)))) = 0"
  shows "returned (script_reconcile sy cfg ws snap False False s) =
           (fst (exec sy None ([''aptly'', ''-config='' @ aptly_cfg ws, ''publish'', ''update''] @
                   update_opts cfg @ [distro cfg, channel cfg])
              (snd (exec sy None [''aptly'', ''-config='' @ aptly_cfg ws, ''publish'', ''source'',
                 ''replace'', ''-prefix='' @ channel cfg, ''-component'', component cfg, distro cfg,
                 snap]
              (snd (exec sy None [''aptly'', ''-config='' @ aptly_cfg ws, ''publish'', ''source'',
                 ''add'', ''-prefix='' @ channel cfg, ''-component'', component cfg, distro cfg, snap]
                 (world s)))))) = 0)"
    and "exit_code (script_reconcile sy cfg ws snap False False s) = None"
    and "world (final_state (script_reconcile sy cfg ws snap False False s)) =
           snd (exec sy None ([''aptly'', ''-config='' @ aptly_cfg ws, ''publish'', ''update''] @
                   update_opts cfg @ [distro cfg, channel cfg])
              (snd (exec sy None [''aptly'', ''-config='' @ aptly_cfg ws, ''publish'', ''source'',
                 ''replace'', ''-prefix='' @ channel cfg, ''-component'', component cfg, distro cfg,
                 snap]
              (snd (exec sy None [''aptly'', ''-config='' @ aptly_cfg ws, ''publish'', ''source'',
                 ''add'', ''-prefix='' @ channel cfg, ''-component'', component cfg, distro cfg, snap]
                 (world s))))))"
  using assms
  by (simp_all add: script_reconcile_def add_opts_def replace_opts_def returned_def exit_code_def
      step_defs case_prod_beta Let_def)

lemma script_add_failed_replace_failed:
  assumes "fst (exec sy None [''aptly'', ''-config='' @ aptly_cfg ws, ''publish'', ''source'', ''add'',
          ''-prefix='' @ channel cfg, ''-component'', component cfg, distro cfg, snap]
          (world s)) \<noteq> 0"
    and "fst (exec sy None [''aptly'', ''-config='' @ aptly_cfg ws, ''publish'', ''source'',
          ''replace'', ''-prefix='' @ channel cfg, ''-component'', component cfg, distro cfg, snap]
          (snd (exec sy None [''aptly'', ''-config='' @ aptly_cfg ws, ''publish'', ''source'',
                 ''add'', ''-prefix='' @ channel cfg, ''-component'', component cfg, distro cfg, snap]
                 (world s)))) \<noteq> 0"
  shows "\<not> returned (script_reconcile sy cfg ws snap False False s)"
    and "exit_code (script_reconcile sy cfg ws snap False False s) = None"
  using assms
  by (simp_all add: script_reconcile_def add_opts_def replace_opts_def returned_def exit_code_def
      step_defs case_prod_beta Let_def)

lemma reconcile_add_failed:
  assumes "component cfg \<notin> set comps"
    and "fst (exec sy None [''aptly'', ''-config='' @ aptly_cfg ws, ''publish'', ''add'',
                distro cfg, channel cfg, snap, component cfg] (world s)) \<noteq> 0"
  shows "exit_code (reconcile sy cfg ws snap True comps s) = Some 1"
    and "last (logs (final_state (reconcile sy cfg ws snap True comps s))) =
           (ERROR, ''Failed to add component %s'')"
  using assms
  by (simp_all add: reconcile_def exit_code_def step_defs case_prod_beta Let_def)


lemma put_in: "c \<in> fst ` set (put c v xs)"
  by (simp add: put_def)

lemma put_keeps: "c \<in> fst ` set xs \<Longrightarrow> c \<in> fst ` set (put k v xs)"
  by (cases "k = c") (auto simp: put_def)

lemma fold_put_keeps:
  "c \<in> fst ` set xs \<Longrightarrow> c \<in> fst ` set (fold (\<lambda>e. put (fst e) (snd e)) ys xs)"
  by (induction ys arbitrary: xs) (simp_all add: put_keeps)

lemma fold_put_in:
  "c \<in> fst ` set ys \<Longrightarrow> c \<in> fst ` set (fold (\<lambda>e. put (fst e) (snd e)) ys xs)"
proof (induction ys arbitrary: xs)
  case Nil
  then show ?case by simp
next
  case (Cons y ys)
  show ?case
  proof (cases "c \<in> fst ` set ys")
    case True
    then show ?thesis using Cons.IH by simp
  next
    case False
    with Cons.prems have "fst y = c" by auto
    then have "c \<in> fst ` set (put (fst y) (snd y) xs)" using put_in by metis
    then show ?thesis by (simp add: fold_put_keeps)
  qed
qed

lemma engine_source_add:
  "fst (exec engine None [''aptly'', cf, ''publish'', ''source'', ''add'', ''-prefix='' @ p,
          ''-component'', c, d, sn] w) = 0 \<Longrightarrow>
   staged_in c (snd (exec engine None [''aptly'', cf, ''publish'', ''source'', ''add'',
          ''-prefix='' @ p, ''-component'', c, d, sn] w))"
  by (simp add: engine_def engine_exec_def staged_in_def put_def Let_def split: if_splits)

lemma engine_source_replace:
  "staged_in c (snd (exec engine None [''aptly'', cf, ''publish'', ''source'', ''replace'',
          ''-prefix='' @ p, ''-component'', c, d, sn] w))"
  by (simp add: engine_def engine_exec_def staged_in_def put_def Let_def)

lemma engine_update:
  "staged_in c w \<Longrightarrow>
   fst (exec engine None (''aptly'' # cf # ''publish'' # ''update'' # r) w) = 0 \<Longrightarrow>
   c \<in> fst ` set (published (snd (exec engine None (''aptly'' # cf # ''publish'' # ''update'' # r) w)))"
  by (simp add: engine_def engine_exec_def staged_in_def Let_def fold_put_in split: if_splits)

text \<open>
  The Add branch, command by command.  With the publication there and the component
  not listed, the add command runs and then the metadata update.  In the script, when
  the add command returns nonzero the run does not end there: \<open>publish source replace\<close>
  runs, and then the same update; the script never exits by itself in this branch (it
  raises when the replace or the update fails).  For an engine whose add and replace
  stage the component when they succeed and whose successful update lists what is
  staged, a reconciliation of the script that returns leaves the component listed.
  The library runs \<open>publish add\<close> and, when it returns 0, the update; when it returns
  nonzero the library logs the error and exits with status 1.
\<close>

theorem add_then_update_or_replace:
  assumes add: "\<And>w. fst (exec sy None [''aptly'', ''-config='' @ aptly_cfg ws, ''publish'', ''source'', ''add'',
              ''-prefix='' @ channel cfg, ''-component'', component cfg, distro cfg, snap] w) = 0 \<Longrightarrow>
                 stg (snd (exec sy None [''aptly'', ''-config='' @ aptly_cfg ws, ''publish'', ''source'', ''add'',
              ''-prefix='' @ channel cfg, ''-component'', component cfg, distro cfg, snap] w))"
    and rep: "\<And>w. fst (exec sy None [''aptly'', ''-config='' @ aptly_cfg ws, ''publish'', ''source'', ''replace'',
              ''-prefix='' @ channel cfg, ''-component'', component cfg, distro cfg, snap] w) = 0 \<Longrightarrow>
                 stg (snd (exec sy None [''aptly'', ''-config='' @ aptly_cfg ws, ''publish'', ''source'', ''replace'',
              ''-prefix='' @ channel cfg, ''-component'', component cfg, distro cfg, snap] w))"
    and upd: "\<And>w. stg w \<Longrightarrow> fst (exec sy None ([''aptly'', ''-config='' @ aptly_cfg ws, ''publish'', ''update''] @
              update_opts cfg @ [distro cfg, channel cfg]) w) = 0 \<Longrightarrow>
                 listed (snd (exec sy None ([''aptly'', ''-config='' @ aptly_cfg ws, ''publish'', ''update''] @
              update_opts cfg @ [distro cfg, channel cfg]) w))"
  shows "cmds (script_reconcile sy cfg ws snap False False) s =
           (None, [''aptly'', ''-config='' @ aptly_cfg ws, ''publish'', ''source'', ''add'',
              ''-prefix='' @ channel cfg, ''-component'', component cfg, distro cfg, snap]) #
           (if fst (exec sy None [''aptly'', ''-config='' @ aptly_cfg ws, ''publish'', ''source'', ''add'',
              ''-prefix='' @ channel cfg, ''-component'', component cfg, distro cfg, snap] (world s)) = 0
            then [(None, ([''aptly'', ''-config='' @ aptly_cfg ws, ''publish'', ''update''] @
              update_opts cfg @ [distro cfg, channel cfg]))]
            else (None, [''aptly'', ''-config='' @ aptly_cfg ws, ''publish'', ''source'', ''replace'',
              ''-prefix='' @ channel cfg, ''-component'', component cfg, distro cfg, snap]) #
                 (if fst (exec sy None [''aptly'', ''-config='' @ aptly_cfg ws, ''publish'', ''source'', ''replace'',
              ''-prefix='' @ channel cfg, ''-component'', component cfg, distro cfg, snap] (snd (exec sy None [''aptly'', ''-config='' @ aptly_cfg ws, ''publish'', ''source'', ''add'',
              ''-prefix='' @ channel cfg, ''-component'', component cfg, distro cfg, snap] (world s)))) \<noteq> 0
                  then []
                  else [(None, ([''aptly'', ''-config='' @ aptly_cfg ws, ''publish'', ''update''] @
              update_opts cfg @ [distro cfg, channel cfg]))]))
     \<and> transitions (cmds (script_reconcile sy cfg ws snap False False) s) =
           (if fst (exec sy None [''aptly'', ''-config='' @ aptly_cfg ws, ''publish'', ''source'', ''add'',
              ''-prefix='' @ channel cfg, ''-component'', component cfg, distro cfg, snap] (world s)) = 0 then [Add] else [Add, Replace])
     \<and> exit_code (script_reconcile sy cfg ws snap False False s) = None
     \<and> (returned (script_reconcile sy cfg ws snap False False s) \<longrightarrow>
          listed (world (final_state (script_reconcile sy cfg ws snap False False s))))
     \<and> (component cfg \<notin> set existing_components \<longrightarrow>
          cmds (reconcile sy cfg ws snap True existing_components) s =
            (None, [''aptly'', ''-config='' @ aptly_cfg ws, ''publish'', ''add'',
              distro cfg, channel cfg, snap, component cfg]) #
            (if fst (exec sy None [''aptly'', ''-config='' @ aptly_cfg ws, ''publish'', ''add'',
              distro cfg, channel cfg, snap, component cfg] (world s)) \<noteq> 0 then [] else [(None, ([''aptly'', ''-config='' @ aptly_cfg ws, ''publish'', ''update''] @
              sign_opts cfg @ [distro cfg, channel cfg]))]))
     \<and> (component cfg \<notin> set existing_components \<and> fst (exec sy None [''aptly'', ''-config='' @ aptly_cfg ws, ''publish'', ''add'',
              distro cfg, channel cfg, snap, component cfg] (world s)) \<noteq> 0 \<longrightarrow>
          exit_code (reconcile sy cfg ws snap True existing_components s) = Some 1 \<and>
          last (logs (final_state (reconcile sy cfg ws snap True existing_components s))) =
            (ERROR, ''Failed to add component %s''))"
proof (intro conjI)
  let ?m = "script_reconcile sy cfg ws snap False False"
  let ?w1 = "snd (exec sy None [''aptly'', ''-config='' @ aptly_cfg ws, ''publish'', ''source'', ''add'',
              ''-prefix='' @ channel cfg, ''-component'', component cfg, distro cfg, snap] (world s))"
  let ?w2 = "snd (exec sy None [''aptly'', ''-config='' @ aptly_cfg ws, ''publish'', ''source'', ''replace'',
              ''-prefix='' @ channel cfg, ''-component'', component cfg, distro cfg, snap] ?w1)"
  show c: "cmds ?m s =
           (None, [''aptly'', ''-config='' @ aptly_cfg ws, ''publish'', ''source'', ''add'',
              ''-prefix='' @ channel cfg, ''-component'', component cfg, distro cfg, snap]) #
           (if fst (exec sy None [''aptly'', ''-config='' @ aptly_cfg ws, ''publish'', ''source'', ''add'',
              ''-prefix='' @ channel cfg, ''-component'', component cfg, distro cfg, snap] (world s)) = 0
            then [(None, ([''aptly'', ''-config='' @ aptly_cfg ws, ''publish'', ''update''] @
              update_opts cfg @ [distro cfg, channel cfg]))]
            else (None, [''aptly'', ''-config='' @ aptly_cfg ws, ''publish'', ''source'', ''replace'',
              ''-prefix='' @ channel cfg, ''-component'', component cfg, distro cfg, snap]) #
                 (if fst (exec sy None [''aptly'', ''-config='' @ aptly_cfg ws, ''publish'', ''source'', ''replace'',
              ''-prefix='' @ channel cfg, ''-component'', component cfg, distro cfg, snap] (snd (exec sy None [''aptly'', ''-config='' @ aptly_cfg ws, ''publish'', ''source'', ''add'',
              ''-prefix='' @ channel cfg, ''-component'', component cfg, distro cfg, snap] (world s)))) \<noteq> 0
                  then []
                  else [(None, ([''aptly'', ''-config='' @ aptly_cfg ws, ''publish'', ''update''] @
              update_opts cfg @ [distro cfg, channel cfg]))]))"
    using cmds_script_reconcile [of sy cfg ws snap False False s] by simp
  show "transitions (cmds ?m s) =
           (if fst (exec sy None [''aptly'', ''-config='' @ aptly_cfg ws, ''publish'', ''source'', ''add'',
              ''-prefix='' @ channel cfg, ''-component'', component cfg, distro cfg, snap] (world s)) = 0 then [Add] else [Add, Replace])"
    unfolding c by (simp add: transitions_simps classify_simps)
  show "exit_code (?m s) = None"
    using script_add_ok(2) [of sy ws cfg snap s]
      script_add_failed_replace_ok(2) [of sy ws cfg snap s]
      script_add_failed_replace_failed(2) [of sy ws cfg snap s]
    by blast
  show "returned (?m s) \<longrightarrow> listed (world (final_state (?m s)))"
  proof
    assume r: "returned (?m s)"
    show "listed (world (final_state (?m s)))"
    proof (cases "fst (exec sy None [''aptly'', ''-config='' @ aptly_cfg ws, ''publish'', ''source'', ''add'',
              ''-prefix='' @ channel cfg, ''-component'', component cfg, distro cfg, snap] (world s)) = 0")
      case True
      from add [OF True] have "stg ?w1" .
      moreover from r script_add_ok(1) [OF True]
      have "fst (exec sy None ([''aptly'', ''-config='' @ aptly_cfg ws, ''publish'', ''update''] @
              update_opts cfg @ [distro cfg, channel cfg]) ?w1) = 0" by simp
      ultimately have "listed (snd (exec sy None ([''aptly'', ''-config='' @ aptly_cfg ws, ''publish'', ''update''] @
              update_opts cfg @ [distro cfg, channel cfg]) ?w1))" by (rule upd)
      then show ?thesis using script_add_ok(3) [OF True] by simp
    next
      case False
      show ?thesis
      proof (cases "fst (exec sy None [''aptly'', ''-config='' @ aptly_cfg ws, ''publish'', ''source'', ''replace'',
              ''-prefix='' @ channel cfg, ''-component'', component cfg, distro cfg, snap] ?w1) = 0")
        case True
        from rep [OF True] have "stg ?w2" .
        moreover from r script_add_failed_replace_ok(1) [OF False True]
        have "fst (exec sy None ([''aptly'', ''-config='' @ aptly_cfg ws, ''publish'', ''update''] @
              update_opts cfg @ [distro cfg, channel cfg]) ?w2) = 0" by simp
        ultimately have "listed (snd (exec sy None ([''aptly'', ''-config='' @ aptly_cfg ws, ''publish'', ''update''] @
              update_opts cfg @ [distro cfg, channel cfg]) ?w2))" by (rule upd)
        then show ?thesis using script_add_failed_replace_ok(3) [OF False True] by simp
      next
        case F2: False
        from script_add_failed_replace_failed(1) [OF False F2] r show ?thesis by simp
      qed
    qed
  qed
  show "component cfg \<notin> set existing_components \<longrightarrow>
          cmds (reconcile sy cfg ws snap True existing_components) s =
            (None, [''aptly'', ''-config='' @ aptly_cfg ws, ''publish'', ''add'',
              distro cfg, channel cfg, snap, component cfg]) #
            (if fst (exec sy None [''aptly'', ''-config='' @ aptly_cfg ws, ''publish'', ''add'',
              distro cfg, channel cfg, snap, component cfg] (world s)) \<noteq> 0 then [] else [(None, ([''aptly'', ''-config='' @ aptly_cfg ws, ''publish'', ''update''] @
              sign_opts cfg @ [distro cfg, channel cfg]))])"
    using cmds_reconcile [of sy cfg ws snap True existing_components s] by simp
  show "component cfg \<notin> set existing_components \<and> fst (exec sy None [''aptly'', ''-config='' @ aptly_cfg ws, ''publish'', ''add'',
              distro cfg, channel cfg, snap, component cfg] (world s)) \<noteq> 0 \<longrightarrow>
          exit_code (reconcile sy cfg ws snap True existing_components s) = Some 1 \<and>
          last (logs (final_state (reconcile sy cfg ws snap True existing_components s))) =
            (ERROR, ''Failed to add component %s'')"
    using reconcile_add_failed [of cfg existing_components sy ws snap s] by blast
qed


theorem add_then_update_or_replace_witness:
  "transitions (cmds (script_reconcile engine cfg0 ws0 ''my-project-noble-stable-20250101-000000'' False False) (start \<lparr>published = [(''base'', ''base-1'')], staged = [(''my-project'', ''old'')], update_fails = False\<rparr>)) =
     [Add, Replace]
   \<and> returned (script_reconcile engine cfg0 ws0 ''my-project-noble-stable-20250101-000000'' False False (start \<lparr>published = [(''base'', ''base-1'')], staged = [(''my-project'', ''old'')], update_fails = False\<rparr>))
   \<and> component cfg0 \<in> fst ` set (published (world (final_state
        (script_reconcile engine cfg0 ws0 ''my-project-noble-stable-20250101-000000'' False False (start \<lparr>published = [(''base'', ''base-1'')], staged = [(''my-project'', ''old'')], update_fails = False\<rparr>)))))
   \<and> parse_components (read_text engine (inrelease_path cfg0 ws0) (world (final_state
        (script_reconcile engine cfg0 ws0 ''my-project-noble-stable-20250101-000000'' False False (start \<lparr>published = [(''base'', ''base-1'')], staged = [(''my-project'', ''old'')], update_fails = False\<rparr>))))) =
     [''base'', ''my-project'']"
proof -
  define s0 where "s0 = start \<lparr>published = [(''base'', ''base-1'')], staged = [(''my-project'', ''old'')], update_fails = False\<rparr>"
  have failed: "fst (exec engine None [''aptly'', ''-config='' @ aptly_cfg ws0, ''publish'',
      ''source'', ''add'', ''-prefix='' @ channel cfg0, ''-component'', component cfg0,
      distro cfg0, ''my-project-noble-stable-20250101-000000''] (world s0)) \<noteq> 0"
    unfolding s0_def by code_simp
  have ret: "returned (script_reconcile engine cfg0 ws0 ''my-project-noble-stable-20250101-000000'' False False s0)"
    unfolding s0_def by code_simp
  have idx: "parse_components (read_text engine (inrelease_path cfg0 ws0) (world (final_state
        (script_reconcile engine cfg0 ws0 ''my-project-noble-stable-20250101-000000'' False False s0)))) = [''base'', ''my-project'']"
    unfolding s0_def by code_simp
  have upd: "\<And>w. staged_in (component cfg0) w \<Longrightarrow>
      fst (exec engine None ([''aptly'', ''-config='' @ aptly_cfg ws0, ''publish'', ''update''] @
              update_opts cfg0 @ [distro cfg0, channel cfg0]) w) = 0 \<Longrightarrow>
      component cfg0 \<in> fst ` set (published (snd (exec engine None
           ([''aptly'', ''-config='' @ aptly_cfg ws0, ''publish'', ''update''] @
              update_opts cfg0 @ [distro cfg0, channel cfg0]) w)))"
    using engine_update by simp
  from add_then_update_or_replace [where sy = engine and cfg = cfg0 and ws = ws0
      and snap = "''my-project-noble-stable-20250101-000000''" and s = s0 and stg = "staged_in (component cfg0)"
      and listed = "\<lambda>w. component cfg0 \<in> fst ` set (published w)"
      and existing_components = "[''base'']", OF engine_source_add engine_source_replace upd]
  have "transitions (cmds (script_reconcile engine cfg0 ws0 ''my-project-noble-stable-20250101-000000'' False False) s0) =
           (if fst (exec engine None [''aptly'', ''-config='' @ aptly_cfg ws0, ''publish'',
              ''source'', ''add'', ''-prefix='' @ channel cfg0, ''-component'', component cfg0,
              distro cfg0, ''my-project-noble-stable-20250101-000000''] (world s0)) = 0 then [Add] else [Add, Replace])"
    and "returned (script_reconcile engine cfg0 ws0 ''my-project-noble-stable-20250101-000000'' False False s0) \<longrightarrow>
      component cfg0 \<in> fst ` set (published (world (final_state
        (script_reconcile engine cfg0 ws0 ''my-project-noble-stable-20250101-000000'' False False s0))))"
    by blast+
  with failed ret idx show ?thesis unfolding s0_def by simp
qed

text \<open>
  C2.  The claim has the engine fall back to Replace when the add invocation fails, and
  the component listed in the end.  The script does so.  The library does not: here the
  publication of stable/noble lists base only, and my-project is already staged in the
  engine, so that the add command returns nonzero.  The library's run for my-project
  runs the one transition Add and exits with status 1, and the component is not
  listed.  The script's run from the same state runs Add, then Replace, returns, and
  leaves base and my-project listed.
\<close>

theorem library_add_failure_exits:
  "parse_components (read_text engine (inrelease_path cfg0 ws0) \<lparr>published = [(''base'', ''base-1'')], staged = [(''my-project'', ''old'')], update_fails = False\<rparr>) = [''base'']
   \<and> component cfg0 = ''my-project''
   \<and> fst (exec engine None [''aptly'', ''-config='' @ aptly_cfg ws0, ''publish'', ''add'',
            distro cfg0, channel cfg0, ''my-project-noble-stable-20250101-000000'', component cfg0] \<lparr>published = [(''base'', ''base-1'')], staged = [(''my-project'', ''old'')], update_fails = False\<rparr>) = 1
   \<and> transitions (cmds (publish engine cfg0 ws0 None ''20250101-000000'' ''2025-01-01T00:00:00Z'') (start \<lparr>published = [(''base'', ''base-1'')], staged = [(''my-project'', ''old'')], update_fails = False\<rparr>)) = [Add]
   \<and> exit_code (publish engine cfg0 ws0 None ''20250101-000000'' ''2025-01-01T00:00:00Z'' (start \<lparr>published = [(''base'', ''base-1'')], staged = [(''my-project'', ''old'')], update_fails = False\<rparr>)) = Some 1
   \<and> last (logs (final_state (publish engine cfg0 ws0 None ''20250101-000000'' ''2025-01-01T00:00:00Z'' (start \<lparr>published = [(''base'', ''base-1'')], staged = [(''my-project'', ''old'')], update_fails = False\<rparr>)))) =
       (ERROR, ''Failed to add component %s'')
   \<and> parse_components (read_text engine (inrelease_path cfg0 ws0)
        (world (final_state (publish engine cfg0 ws0 None ''20250101-000000'' ''2025-01-01T00:00:00Z'' (start \<lparr>published = [(''base'', ''base-1'')], staged = [(''my-project'', ''old'')], update_fails = False\<rparr>))))) = [''base'']
   \<and> transitions (cmds (script_main engine cfg0 ws0 None ''20250101-000000'' ''2025-01-01T00:00:00Z'') (start \<lparr>published = [(''base'', ''base-1'')], staged = [(''my-project'', ''old'')], update_fails = False\<rparr>)) = [Add, Replace]
   \<and> returned (script_main engine cfg0 ws0 None ''20250101-000000'' ''2025-01-01T00:00:00Z'' (start \<lparr>published = [(''base'', ''base-1'')], staged = [(''my-project'', ''old'')], update_fails = False\<rparr>))
   \<and> parse_components (read_text engine (inrelease_path cfg0 ws0)
        (world (final_state (script_main engine cfg0 ws0 None ''20250101-000000'' ''2025-01-01T00:00:00Z'' (start \<lparr>published = [(''base'', ''base-1'')], staged = [(''my-project'', ''old'')], update_fails = False\<rparr>))))) =
       [''base'', ''my-project'']"
  by code_simp

subsection \<open>Switch and the other components\<close>

lemma final_state_simps:
  "final_state (Done a s) = s" "final_state (Exit n s) = s" "final_state (Raised s) = s"
  by (simp_all add: final_state_def)

lemma inv_bind:
  assumes "I s" and "\<And>s. I s \<Longrightarrow> I (final_state (m s))"
    and "\<And>a s. I s \<Longrightarrow> I (final_state (f a s))"
  shows "I (final_state (bind m f s))"
proof (cases "m s")
  case (Done a s')
  with assms(2) [OF assms(1)] have "I s'" by (simp add: final_state_def)
  then have "I (final_state (f a s'))" by (rule assms(3))
  with Done show ?thesis by (simp add: bind_def)
next
  case (Exit n s')
  with assms(2) [OF assms(1)] show ?thesis by (simp add: bind_def final_state_def)
next
  case (Raised s')
  with assms(2) [OF assms(1)] show ?thesis by (simp add: bind_def final_state_def)
qed

lemma inv_seq:
  assumes "I s" and "\<And>s. I s \<Longrightarrow> I (final_state (m s))"
    and "\<And>s. I s \<Longrightarrow> I (final_state (k s))"
  shows "I (final_state (seq m k s))"
  unfolding seq_def using assms by (rule inv_bind)

lemma world_run:
  "world (final_state (run sy cwd c chk s)) = snd (exec sy cwd c (world s))"
  by (simp add: run_def final_state_def case_prod_beta Let_def)

lemma world_logger: "world (final_state (logger l msg s)) = world s"
  by (simp add: logger_def final_state_def)

lemma sync_and_push_keeps:
  assumes other: "\<And>w cwd c. take 1 c \<noteq> [''aptly''] \<Longrightarrow> J (snd (exec sy cwd c w)) = J w"
    and wr: "\<And>p t w. J (write_text sy p t w) = J w"
  shows "J (world (final_state (sync_and_push sy cfg ws cts s))) = J (world s)"
proof -
  define v where "v = J (world s)"
  have "J (world (final_state (sync_and_push sy cfg ws cts s))) = v"
    unfolding sync_and_push_def
  proof (intro inv_seq [where I = "\<lambda>s. J (world s) = v"])
    show "J (world s) = v" by (simp add: v_def)
  qed (simp_all add: world_run world_logger other wr final_state_simps)
  then show ?thesis by (simp add: v_def)
qed

lemma world_reconcile_switch:
  "component cfg \<in> set comps \<Longrightarrow>
   world (final_state (reconcile sy cfg ws snap True comps s)) =
     snd (exec sy None ([''aptly'', ''-config='' @ aptly_cfg ws, ''publish'', ''switch'',
            ''-component'', component cfg] @ (''-force-overwrite'' # sign_opts cfg) @
            [distro cfg, channel cfg, snap]) (world s))"
  by (simp add: reconcile_def step_defs case_prod_beta Let_def)

lemma world_script_switch:
  "world (final_state (script_reconcile sy cfg ws snap False True s)) =
     snd (exec sy None ([''aptly'', ''-config='' @ aptly_cfg ws, ''publish'', ''switch'',
            ''-component'', component cfg] @ script_sign_opts cfg @
            [distro cfg, channel cfg, snap]) (world s))"
  by (simp add: script_reconcile_def switch_opts_def step_defs case_prod_beta Let_def)

lemma world_seq:
  "world (final_state (seq m k s)) =
     (case m s of Done a s' \<Rightarrow> world (final_state (k s')) | Exit n s' \<Rightarrow> world s'
      | Raised s' \<Rightarrow> world s')"
  by (simp add: seq_def bind_def final_state_def split: outcome.splits)

lemma seq_keeps:
  assumes "J (world (final_state (m s))) = J (world s)"
    and "\<And>s. J (world (final_state (k s))) = J (world s)"
  shows "J (world (final_state (seq m k s))) = J (world s)"
proof (cases "m s")
  case (Done a s')
  with assms(1) have "J (world s') = J (world s)" by (simp add: final_state_simps)
  with assms(2) [of s'] Done show ?thesis by (simp add: world_seq)
next
  case (Exit n s')
  with assms(1) show ?thesis by (simp add: world_seq final_state_simps)
next
  case (Raised s')
  with assms(1) show ?thesis by (simp add: world_seq final_state_simps)
qed


lemma map_of_put: "c' \<noteq> c \<Longrightarrow> map_of (put c v xs) c' = map_of xs c'"
  by (induction xs) (auto simp: put_def)

lemma engine_switch:
  "c' \<noteq> c \<Longrightarrow>
   packages c' (snd (exec engine None ([''aptly'', cf, ''publish'', ''switch'', ''-component'', c] @
       opts @ [d, p, sn]) w)) = packages c' w"
  by (simp add: engine_def engine_exec_def packages_def map_of_put Let_def)

lemma engine_other:
  "take 1 c \<noteq> [''aptly''] \<Longrightarrow> packages c' (snd (exec engine cwd c w)) = packages c' w"
  by (simp add: engine_def engine_exec_def Let_def)

lemma engine_write_text: "packages c' (write_text engine p t w) = packages c' w"
  by (simp add: engine_def)

text \<open>
  The Switch branch, from the state that the inspection has left.  With the
  publication there and the component listed, the transition is one command,
  \<open>publish switch\<close> with \<open>-component\<close> and the component, which names no other component.
  For an engine whose switch of a component leaves the packages of the other components
  as they are, and whose packages no other tool and no file written by the run touch,
  the reconciliation and the sync, commit and push that follow it leave the packages of
  every other component as they were when the reconciliation began.
\<close>

theorem switch_keeps_siblings:
  assumes sw: "\<And>w opts c'. c' \<noteq> component cfg \<Longrightarrow>
        pk c' (snd (exec sy None ([''aptly'', ''-config='' @ aptly_cfg ws, ''publish'', ''switch'',
            ''-component'', component cfg] @ opts @
            [distro cfg, channel cfg, snapshot_name cfg ts]) w)) = pk c' w"
    and other: "\<And>w cwd c c'. take 1 c \<noteq> [''aptly''] \<Longrightarrow> pk c' (snd (exec sy cwd c w)) = pk c' w"
    and wr: "\<And>p t w c'. pk c' (write_text sy p t w) = pk c' w"
  shows "(component cfg \<in> set existing_components \<longrightarrow>
          cmds (reconcile sy cfg ws (snapshot_name cfg ts) True existing_components) s =
            [(None, [''aptly'', ''-config='' @ aptly_cfg ws, ''publish'', ''switch'',
                     ''-component'', component cfg, ''-force-overwrite''] @ sign_opts cfg @
                     [distro cfg, channel cfg, snapshot_name cfg ts])]
          \<and> (\<forall>c'. c' \<noteq> component cfg \<longrightarrow>
                pk c' (world (final_state
                  (finish sy cfg ws ts commit_ts (True, existing_components) s))) =
                pk c' (world s)))
     \<and> cmds (script_reconcile sy cfg ws (snapshot_name cfg ts) False True) s =
            [(None, [''aptly'', ''-config='' @ aptly_cfg ws, ''publish'', ''switch'',
                     ''-component'', component cfg] @ script_sign_opts cfg @
                     [distro cfg, channel cfg, snapshot_name cfg ts])]
     \<and> (path_exists sy (target_dists cfg ws) (world s) \<and>
        path_exists sy (component_root cfg ws) (world s) \<longrightarrow>
          (\<forall>c'. c' \<noteq> component cfg \<longrightarrow>
                pk c' (world (final_state (script_finish sy cfg ws ts commit_ts s))) =
                pk c' (world s)))"
proof (intro conjI impI allI)
  assume "component cfg \<in> set existing_components"
  then show "cmds (reconcile sy cfg ws (snapshot_name cfg ts) True existing_components) s =
            [(None, [''aptly'', ''-config='' @ aptly_cfg ws, ''publish'', ''switch'',
                     ''-component'', component cfg, ''-force-overwrite''] @ sign_opts cfg @
                     [distro cfg, channel cfg, snapshot_name cfg ts])]"
    by (rule cmds_reconcile_switch)
next
  fix c'
  assume m: "component cfg \<in> set existing_components" and c': "c' \<noteq> component cfg"
  have "pk c' (world (final_state
          (seq (reconcile sy cfg ws (snapshot_name cfg ts) True existing_components)
               (sync_and_push sy cfg ws commit_ts) s))) = pk c' (world s)"
  proof (rule seq_keeps)
    show "pk c' (world (final_state
            (reconcile sy cfg ws (snapshot_name cfg ts) True existing_components s))) =
          pk c' (world s)"
      unfolding world_reconcile_switch [OF m] using c' by (rule sw)
    show "pk c' (world (final_state (sync_and_push sy cfg ws commit_ts s))) = pk c' (world s)"
      for s
      by (rule sync_and_push_keeps) (simp_all add: other wr)
  qed
  then show "pk c' (world (final_state
                  (finish sy cfg ws ts commit_ts (True, existing_components) s))) =
                pk c' (world s)"
    by (simp add: finish_def)
next
  show "cmds (script_reconcile sy cfg ws (snapshot_name cfg ts) False True) s =
            [(None, [''aptly'', ''-config='' @ aptly_cfg ws, ''publish'', ''switch'',
                     ''-component'', component cfg] @ script_sign_opts cfg @
                     [distro cfg, channel cfg, snapshot_name cfg ts])]"
    by (rule cmds_script_switch)
next
  fix c'
  assume p: "path_exists sy (target_dists cfg ws) (world s) \<and>
        path_exists sy (component_root cfg ws) (world s)" and c': "c' \<noteq> component cfg"
  have "pk c' (world (final_state
          (seq (script_reconcile sy cfg ws (snapshot_name cfg ts) False True)
               (sync_and_push sy cfg ws commit_ts) s))) = pk c' (world s)"
  proof (rule seq_keeps)
    show "pk c' (world (final_state
            (script_reconcile sy cfg ws (snapshot_name cfg ts) False True s))) =
          pk c' (world s)"
      unfolding world_script_switch using c' by (rule sw)
    show "pk c' (world (final_state (sync_and_push sy cfg ws commit_ts s))) = pk c' (world s)"
      for s
      by (rule sync_and_push_keeps) (simp_all add: other wr)
  qed
  with p show "pk c' (world (final_state (script_finish sy cfg ws ts commit_ts s))) =
                pk c' (world s)"
    by (simp add: script_finish_def)
qed

theorem switch_keeps_siblings_witness:
  "component cfg0 \<in> set [''base'', ''my-project'']
   \<and> map snd (cmds (reconcile engine cfg0 ws0 (snapshot_name cfg0 ''20250101-000000'') True
        [''base'', ''my-project'']) (start \<lparr>published = [(''base'', ''base-1''), (''my-project'', ''my-project-1'')], staged = [], update_fails = False\<rparr>)) =
     [[''aptly'', ''-config=/tmp/aptly/aptly.conf'', ''publish'', ''switch'', ''-component'',
       ''my-project'', ''-force-overwrite'', ''-skip-signing'', ''noble'', ''stable'',
       ''my-project-noble-stable-20250101-000000'']]
   \<and> packages ''base'' (world (final_state
        (finish engine cfg0 ws0 ''20250101-000000'' ''2025-01-01T00:00:00Z''
           (True, [''base'', ''my-project'']) (start \<lparr>published = [(''base'', ''base-1''), (''my-project'', ''my-project-1'')], staged = [], update_fails = False\<rparr>)))) = Some ''base-1''
   \<and> packages ''my-project'' (world (final_state
        (finish engine cfg0 ws0 ''20250101-000000'' ''2025-01-01T00:00:00Z''
           (True, [''base'', ''my-project'']) (start \<lparr>published = [(''base'', ''base-1''), (''my-project'', ''my-project-1'')], staged = [], update_fails = False\<rparr>)))) = Some ''my-project-noble-stable-20250101-000000''"
proof -
  define s0 where "s0 = start \<lparr>published = [(''base'', ''base-1''), (''my-project'', ''my-project-1'')], staged = [], update_fails = False\<rparr>"
  have m: "component cfg0 \<in> set [''base'', ''my-project'']" by code_simp
  have ne: "''base'' \<noteq> component cfg0" by code_simp
  have before: "packages ''base'' (world s0) = Some ''base-1''" unfolding s0_def by code_simp
  have cs: "map snd (cmds (reconcile engine cfg0 ws0 (snapshot_name cfg0 ''20250101-000000'') True
        [''base'', ''my-project'']) s0) =
     [[''aptly'', ''-config=/tmp/aptly/aptly.conf'', ''publish'', ''switch'', ''-component'',
       ''my-project'', ''-force-overwrite'', ''-skip-signing'', ''noble'', ''stable'',
       ''my-project-noble-stable-20250101-000000'']]"
    unfolding s0_def by code_simp
  have target: "packages ''my-project'' (world (final_state
        (finish engine cfg0 ws0 ''20250101-000000'' ''2025-01-01T00:00:00Z''
           (True, [''base'', ''my-project'']) s0))) = Some ''my-project-noble-stable-20250101-000000''"
    unfolding s0_def by code_simp
  from switch_keeps_siblings [where sy = engine and cfg = cfg0 and ws = ws0
      and ts = "''20250101-000000''" and commit_ts = "''2025-01-01T00:00:00Z''" and s = s0
      and pk = packages and existing_components = "[''base'', ''my-project'']",
      OF engine_switch engine_other engine_write_text] m ne
  have "packages ''base'' (world (final_state
        (finish engine cfg0 ws0 ''20250101-000000'' ''2025-01-01T00:00:00Z''
           (True, [''base'', ''my-project'']) s0))) = packages ''base'' (world s0)"
    by blast
  with m before cs target show ?thesis unfolding s0_def by simp
qed

text \<open>
  C4.  The claim has the switch subcommand invoked with overwrite forced.  The library
  does so.  The script does not: here stable/noble is published with the components
  base and my-project, and the script's run for my-project runs the one publish
  command \<open>publish switch -component my-project\<close> with the signing option and without
  \<open>-force-overwrite\<close>, which is in none of its commands; the library's run from the same
  state passes \<open>-force-overwrite\<close> to its switch.
\<close>

theorem script_switch_not_forced:
  "path_exists engine (target_dists cfg0 ws0) \<lparr>published = [(''base'', ''base-1''), (''my-project'', ''my-project-1'')], staged = [], update_fails = False\<rparr>
   \<and> path_exists engine (component_root cfg0 ws0) \<lparr>published = [(''base'', ''base-1''), (''my-project'', ''my-project-1'')], staged = [], update_fails = False\<rparr>
   \<and> filter (\<lambda>c. take 1 (drop 2 c) = [''publish''])
        (map snd (cmds (script_main engine cfg0 ws0 None ''20250101-000000'' ''2025-01-01T00:00:00Z'') (start \<lparr>published = [(''base'', ''base-1''), (''my-project'', ''my-project-1'')], staged = [], update_fails = False\<rparr>))) =
       [[''aptly'', ''-config=/tmp/aptly/aptly.conf'', ''publish'', ''switch'', ''-component'',
         ''my-project'', ''-skip-signing'', ''noble'', ''stable'', ''my-project-noble-stable-20250101-000000'']]
   \<and> transitions (cmds (script_main engine cfg0 ws0 None ''20250101-000000'' ''2025-01-01T00:00:00Z'') (start \<lparr>published = [(''base'', ''base-1''), (''my-project'', ''my-project-1'')], staged = [], update_fails = False\<rparr>)) = [Switch]
   \<and> ''-force-overwrite'' \<notin> set (concat (map snd
        (cmds (script_main engine cfg0 ws0 None ''20250101-000000'' ''2025-01-01T00:00:00Z'') (start \<lparr>published = [(''base'', ''base-1''), (''my-project'', ''my-project-1'')], staged = [], update_fails = False\<rparr>))))
   \<and> filter (\<lambda>c. take 2 (drop 2 c) = [''publish'', ''switch''])
        (map snd (cmds (publish engine cfg0 ws0 None ''20250101-000000'' ''2025-01-01T00:00:00Z'') (start \<lparr>published = [(''base'', ''base-1''), (''my-project'', ''my-project-1'')], staged = [], update_fails = False\<rparr>))) =
       [[''aptly'', ''-config=/tmp/aptly/aptly.conf'', ''publish'', ''switch'', ''-component'',
         ''my-project'', ''-force-overwrite'', ''-skip-signing'', ''noble'', ''stable'', ''my-project-noble-stable-20250101-000000'']]"
  by code_simp

end
